theory Spec2Isabelle
  imports Complex_Main "HOL-Library.AList" "HOL-Library.Multiset"
begin

section \<open>Host values\<close>

text \<open>
  The query engine of \<^verbatim>\<open>src/sql/query-engine.js\<close> and the lexer and parser of
  \<^verbatim>\<open>src/sql/parser.js\<close> are embedded as HOL functions. What the JavaScript host
  supplies is modelled as follows.
  \<^item> A string is a list of 8-bit code units (\<^typ>\<open>string\<close>).
  \<^item> A number is an exact rational, one of the two infinities, or NaN. Every finite
    double is such a rational; the rounding of doubles is not modelled, and the two zeros
    are one value (the engine never divides by a cell value).
  \<^item> A cell value is null, a number or a string; a row is an association list in
    insertion order, read and written as an own-property dictionary.
\<close>

datatype jsnum = Fin rat | PosInf | NegInf | NaN

datatype jsval = Null | Num jsnum | Str string

type_synonym row = "(string \<times> jsval) list"

subsection \<open>Number arithmetic and tests\<close>

fun isNaN :: "jsnum \<Rightarrow> bool" where
  "isNaN NaN = True"
| "isNaN _ = False"

fun jsNeg :: "jsnum \<Rightarrow> jsnum" where
  "jsNeg (Fin q) = Fin (- q)"
| "jsNeg PosInf = NegInf"
| "jsNeg NegInf = PosInf"
| "jsNeg NaN = NaN"

fun jsAdd :: "jsnum \<Rightarrow> jsnum \<Rightarrow> jsnum" where
  "jsAdd (Fin a) (Fin b) = Fin (a + b)"
| "jsAdd NaN _ = NaN"
| "jsAdd _ NaN = NaN"
| "jsAdd PosInf NegInf = NaN"
| "jsAdd NegInf PosInf = NaN"
| "jsAdd PosInf _ = PosInf"
| "jsAdd _ PosInf = PosInf"
| "jsAdd NegInf _ = NegInf"
| "jsAdd _ NegInf = NegInf"

definition jsSub :: "jsnum \<Rightarrow> jsnum \<Rightarrow> jsnum" where
  "jsSub a b = jsAdd a (jsNeg b)"

text \<open>Division of a number by a positive count (\<^verbatim>\<open>sum / rows.length\<close>).\<close>

fun jsDivNat :: "jsnum \<Rightarrow> nat \<Rightarrow> jsnum" where
  "jsDivNat (Fin a) n = Fin (a / of_nat n)"
| "jsDivNat x n = x"

text \<open>The four tests of a comparison result against zero; each is false on NaN.\<close>

fun gt0 :: "jsnum \<Rightarrow> bool" where
  "gt0 (Fin q) = (0 < q)"
| "gt0 PosInf = True"
| "gt0 _ = False"

fun ge0 :: "jsnum \<Rightarrow> bool" where
  "ge0 (Fin q) = (0 \<le> q)"
| "ge0 PosInf = True"
| "ge0 _ = False"

fun lt0 :: "jsnum \<Rightarrow> bool" where
  "lt0 (Fin q) = (q < 0)"
| "lt0 NegInf = True"
| "lt0 _ = False"

fun le0 :: "jsnum \<Rightarrow> bool" where
  "le0 (Fin q) = (q \<le> 0)"
| "le0 NegInf = True"
| "le0 _ = False"

text \<open>\<^verbatim>\<open>a < b\<close> on numbers, false when either side is NaN.\<close>

definition jsLess :: "jsnum \<Rightarrow> jsnum \<Rightarrow> bool" where
  "jsLess a b = (\<not> isNaN a \<and> \<not> isNaN b \<and> a \<noteq> b \<and>
     (case (a, b) of
        (NegInf, _) \<Rightarrow> True
      | (_, PosInf) \<Rightarrow> True
      | (Fin x, Fin y) \<Rightarrow> x < y
      | _ \<Rightarrow> False))"

text \<open>Truthiness, as \<^verbatim>\<open>||\<close>, \<^verbatim>\<open>&&\<close> and \<^verbatim>\<open>if\<close> see it.\<close>

fun truthyNum :: "jsnum \<Rightarrow> bool" where
  "truthyNum (Fin q) = (q \<noteq> 0)"
| "truthyNum NaN = False"
| "truthyNum _ = True"

fun truthy :: "jsval \<Rightarrow> bool" where
  "truthy Null = False"
| "truthy (Num n) = truthyNum n"
| "truthy (Str s) = (s \<noteq> [])"

subsection \<open>Character classes\<close>

text \<open>\<^verbatim>\<open>/\s/\<close> and \<^verbatim>\<open>trim\<close>: tab, line feed, vertical tab, form feed, carriage
  return, space and no-break space.\<close>

definition isSpace :: "char \<Rightarrow> bool" where
  "isSpace c = (c \<in> set [CHR 0x09, CHR 0x0A, CHR 0x0B, CHR 0x0C, CHR 0x0D, CHR 0x20, CHR 0xA0])"

definition isDigit :: "char \<Rightarrow> bool" where
  "isDigit c = (c \<in> set ''0123456789'')"

definition isWordChar :: "char \<Rightarrow> bool" where
  "isWordChar c = (c \<in> set ''abcdefghijklmnopqrstuvwxyzABCDEFGHIJKLMNOPQRSTUVWXYZ0123456789_'')"

definition trim :: "string \<Rightarrow> string" where
  "trim s = rev (dropWhile isSpace (rev (dropWhile isSpace s)))"

definition asciiUpper :: "string" where
  "asciiUpper = ''ABCDEFGHIJKLMNOPQRSTUVWXYZ''"

definition asciiLower :: "string" where
  "asciiLower = ''abcdefghijklmnopqrstuvwxyz''"

definition latinUpper :: "string" where
  "latinUpper = [CHR 0xC0, CHR 0xC1, CHR 0xC2, CHR 0xC3, CHR 0xC4, CHR 0xC5, CHR 0xC6, CHR 0xC7, CHR 0xC8, CHR 0xC9, CHR 0xCA, CHR 0xCB, CHR 0xCC, CHR 0xCD, CHR 0xCE, CHR 0xCF, CHR 0xD0, CHR 0xD1, CHR 0xD2, CHR 0xD3, CHR 0xD4, CHR 0xD5, CHR 0xD6, CHR 0xD8, CHR 0xD9, CHR 0xDA, CHR 0xDB, CHR 0xDC, CHR 0xDD, CHR 0xDE]"

definition latinLower :: "string" where
  "latinLower = [CHR 0xE0, CHR 0xE1, CHR 0xE2, CHR 0xE3, CHR 0xE4, CHR 0xE5, CHR 0xE6, CHR 0xE7, CHR 0xE8, CHR 0xE9, CHR 0xEA, CHR 0xEB, CHR 0xEC, CHR 0xED, CHR 0xEE, CHR 0xEF, CHR 0xF0, CHR 0xF1, CHR 0xF2, CHR 0xF3, CHR 0xF4, CHR 0xF5, CHR 0xF6, CHR 0xF8, CHR 0xF9, CHR 0xFA, CHR 0xFB, CHR 0xFC, CHR 0xFD, CHR 0xFE]"

text \<open>\<^verbatim>\<open>toUpperCase\<close> is applied to identifiers only, which consist of ASCII word
  characters and dots; \<^verbatim>\<open>toLowerCase\<close> is applied to cell values, where the accented
  capitals of the 8-bit range have lower-case forms too.\<close>

definition toUpperChar :: "char \<Rightarrow> char" where
  "toUpperChar c = (case map_of (zip asciiLower asciiUpper) c of Some u \<Rightarrow> u | None \<Rightarrow> c)"

definition toUpperCase :: "string \<Rightarrow> string" where
  "toUpperCase s = map toUpperChar s"

definition toLowerChar :: "char \<Rightarrow> char" where
  "toLowerChar c =
     (case map_of (zip (asciiUpper @ latinUpper) (asciiLower @ latinLower)) c of
        Some l \<Rightarrow> l
      | None \<Rightarrow> c)"

definition toLowerCase :: "string \<Rightarrow> string" where
  "toLowerCase s = map toLowerChar s"

subsection \<open>Reading numbers from strings\<close>

definition digitVal :: "char \<Rightarrow> nat" where
  "digitVal c = of_char c - 48"

definition digitsVal :: "string \<Rightarrow> nat" where
  "digitsVal ds = foldl (\<lambda>n c. 10 * n + digitVal c) 0 ds"

text \<open>
  The longest prefix of the string that is a decimal literal (an optional sign, then
  \<^verbatim>\<open>Infinity\<close> or digits with an optional fraction and an optional exponent), with
  its value and the rest of the string; \<open>None\<close> when no prefix is one.
\<close>

definition scanExponent :: "string \<Rightarrow> int \<times> string" where
  "scanExponent s =
     (case s of
        [] \<Rightarrow> (0, s)
      | e # r \<Rightarrow>
          if e = CHR ''e'' \<or> e = CHR ''E'' then
            (let neg = (r \<noteq> [] \<and> hd r = CHR ''-'');
                 r1 = (if r \<noteq> [] \<and> (hd r = CHR ''+'' \<or> hd r = CHR ''-'') then tl r else r);
                 ds = takeWhile isDigit r1
             in if ds = [] then (0, s)
                else ((if neg then - int (digitsVal ds) else int (digitsVal ds)), dropWhile isDigit r1))
          else (0, s))"

definition scale10 :: "rat \<Rightarrow> int \<Rightarrow> rat" where
  "scale10 q e = (if 0 \<le> e then q * 10 ^ nat e else q / 10 ^ nat (- e))"

definition scanUnsigned :: "string \<Rightarrow> (jsnum \<times> string) option" where
  "scanUnsigned s =
     (if take 8 s = ''Infinity'' then Some (PosInf, drop 8 s)
      else
        let ip = takeWhile isDigit s;
            r1 = dropWhile isDigit s;
            dot = (r1 \<noteq> [] \<and> hd r1 = CHR ''.'');
            fp = (if dot then takeWhile isDigit (tl r1) else []);
            r2 = (if dot then dropWhile isDigit (tl r1) else r1)
        in if ip = [] \<and> fp = [] then None
           else
             let (e, r3) = scanExponent r2;
                 m = of_nat (digitsVal ip) + of_nat (digitsVal fp) / 10 ^ length fp
             in Some (Fin (scale10 m e), r3))"

definition scanDecimal :: "string \<Rightarrow> (jsnum \<times> string) option" where
  "scanDecimal s =
     (case s of
        [] \<Rightarrow> None
      | c # r \<Rightarrow>
          if c = CHR ''-'' then map_option (\<lambda>(v, t). (jsNeg v, t)) (scanUnsigned r)
          else if c = CHR ''+'' then scanUnsigned r
          else scanUnsigned s)"

text \<open>\<^verbatim>\<open>parseFloat\<close> on a string: leading white space is skipped, the longest decimal
  prefix is read, anything after it is ignored.\<close>

definition parseFloatStr :: "string \<Rightarrow> jsnum" where
  "parseFloatStr s = (case scanDecimal (dropWhile isSpace s) of None \<Rightarrow> NaN | Some (v, _) \<Rightarrow> v)"

text \<open>
  \<^verbatim>\<open>parseFloat\<close> on a cell value converts it to a string first. For a number the host
  prints a literal that reads back as the same number, so the result is the number itself;
  \<^verbatim>\<open>null\<close> prints as the word null and reads as NaN.
\<close>

fun parseFloat :: "jsval \<Rightarrow> jsnum" where
  "parseFloat Null = NaN"
| "parseFloat (Num n) = n"
| "parseFloat (Str s) = parseFloatStr s"

text \<open>
  The conversion of a whole string to a number (used by \<^verbatim>\<open>==\<close> between a number and a
  string, and by \<^verbatim>\<open>Math.min\<close>): the trimmed string must be empty (zero), a radix
  literal, or a decimal literal with nothing after it.
\<close>

definition radixDigit :: "char \<Rightarrow> nat option" where
  "radixDigit c =
     (if isDigit c then Some (digitVal c)
      else if c \<in> set ''abcdef'' then Some (of_char c - 87)
      else if c \<in> set ''ABCDEF'' then Some (of_char c - 55)
      else None)"

definition radixVal :: "nat \<Rightarrow> string \<Rightarrow> jsnum" where
  "radixVal b ds =
     (if ds \<noteq> [] \<and> (\<forall>c \<in> set ds. case radixDigit c of None \<Rightarrow> False | Some d \<Rightarrow> d < b)
      then Fin (of_nat (foldl (\<lambda>n c. b * n + (case radixDigit c of None \<Rightarrow> 0 | Some d \<Rightarrow> d)) 0 ds))
      else NaN)"

definition toNumberStr :: "string \<Rightarrow> jsnum" where
  "toNumberStr s =
     (let t = trim s
      in if t = [] then Fin 0
         else if take 2 t = ''0x'' \<or> take 2 t = ''0X'' then radixVal 16 (drop 2 t)
         else if take 2 t = ''0o'' \<or> take 2 t = ''0O'' then radixVal 8 (drop 2 t)
         else if take 2 t = ''0b'' \<or> take 2 t = ''0B'' then radixVal 2 (drop 2 t)
         else (case scanDecimal t of Some (v, []) \<Rightarrow> v | _ \<Rightarrow> NaN))"

fun toNumber :: "jsval \<Rightarrow> jsnum" where
  "toNumber Null = Fin 0"
| "toNumber (Num n) = n"
| "toNumber (Str s) = toNumberStr s"

subsection \<open>Equality\<close>

text \<open>Equality of two numbers: NaN equals nothing, not even itself.\<close>

definition numEq :: "jsnum \<Rightarrow> jsnum \<Rightarrow> bool" where
  "numEq a b = (\<not> isNaN a \<and> a = b)"

text \<open>Loose equality \<^verbatim>\<open>==\<close> of two cell values: a number and a string are compared
  after the string is converted to a number; null equals only null.\<close>

fun looseEq :: "jsval \<Rightarrow> jsval \<Rightarrow> bool" where
  "looseEq Null Null = True"
| "looseEq (Num a) (Num b) = numEq a b"
| "looseEq (Str s) (Str t) = (s = t)"
| "looseEq (Num a) (Str t) = numEq a (toNumberStr t)"
| "looseEq (Str s) (Num b) = numEq (toNumberStr s) b"
| "looseEq _ _ = False"

text \<open>The equality of \<^verbatim>\<open>Array.prototype.includes\<close>: same type and same value, and NaN
  equal to itself. On this value type it is the equality of HOL.\<close>

definition sameValueZero :: "jsval \<Rightarrow> jsval \<Rightarrow> bool" where
  "sameValueZero a b = (a = b)"

definition arrayIncludes :: "jsval list \<Rightarrow> jsval \<Rightarrow> bool" where
  "arrayIncludes xs v = list_ex (sameValueZero v) xs"


section \<open>Tokens, errors and the host interface\<close>

datatype tokenType = KEYWORD | IDENTIFIER | STRING | NUMBER | OPERATOR | PUNCTUATION | EOF

datatype tokenValue = TStr string | TNum jsnum | TNull

text \<open>
  A token is an object \<^verbatim>\<open>{type, value}\<close>. Only \<^verbatim>\<open>Lexer.nextToken\<close> builds tokens
  (the two classes are not exported), so the value of a number token is a number, the
  value of the end-of-input token is null, and every other value is a string.
\<close>

datatype token =
    Keyword string
  | Identifier string
  | StringLit string
  | NumberLit jsnum
  | Operator string
  | Punctuation string
  | EndOfInput

fun tokType :: "token \<Rightarrow> tokenType" where
  "tokType (Keyword s) = KEYWORD"
| "tokType (Identifier s) = IDENTIFIER"
| "tokType (StringLit s) = STRING"
| "tokType (NumberLit n) = NUMBER"
| "tokType (Operator s) = OPERATOR"
| "tokType (Punctuation s) = PUNCTUATION"
| "tokType EndOfInput = EOF"

fun tokValue :: "token \<Rightarrow> tokenValue" where
  "tokValue (Keyword s) = TStr s"
| "tokValue (Identifier s) = TStr s"
| "tokValue (StringLit s) = TStr s"
| "tokValue (NumberLit n) = TNum n"
| "tokValue (Operator s) = TStr s"
| "tokValue (Punctuation s) = TStr s"
| "tokValue EndOfInput = TNull"

text \<open>
  Everything the two files can throw. The first three are the \<^verbatim>\<open>Error\<close>s of the
  parser (\<^verbatim>\<open>Expected T, got T'\<close>, \<^verbatim>\<open>Expected v, got v'\<close>,
  \<^verbatim>\<open>Unexpected token in value\<close>); the others are thrown by the host: a
  \<^verbatim>\<open>TypeError\<close> for a property read on \<^verbatim>\<open>undefined\<close> or a call of a missing
  method, a \<^verbatim>\<open>SyntaxError\<close> from the \<^verbatim>\<open>RegExp\<close> constructor. \<open>Unsupported\<close> is
  not an error of the program: a host instance answers it for an input it does not model.
\<close>

datatype error =
    ExpectedType tokenType tokenType
  | ExpectedValue string tokenValue
  | UnexpectedTokenInValue tokenType
  | TypeError
  | SyntaxError
  | Unsupported

text \<open>
  Three built-ins depend on the host beyond what is modelled here and are parameters of
  the engine: the collation of \<^verbatim>\<open>localeCompare\<close>, the printing of a finite number,
  and \<^verbatim>\<open>new RegExp(source)\<close>, which either throws or yields an expression to
  \<^verbatim>\<open>test\<close> values with.
\<close>

record host =
  localeCompare :: "string \<Rightarrow> string \<Rightarrow> int"
  numberToString :: "rat \<Rightarrow> string"
  regExp :: "string \<Rightarrow> error + (string \<Rightarrow> bool)"

fun toStr :: "host \<Rightarrow> jsval \<Rightarrow> string" where
  "toStr h Null = ''null''"
| "toStr h (Str s) = s"
| "toStr h (Num (Fin q)) = numberToString h q"
| "toStr h (Num PosInf) = ''Infinity''"
| "toStr h (Num NegInf) = ''-Infinity''"
| "toStr h (Num NaN) = ''NaN''"

section \<open>The abstract syntax tree\<close>

text \<open>
  The objects that \<^verbatim>\<open>Parser.parse\<close> builds. A select-list entry is a string (a name or
  the star), an object \<^verbatim>\<open>{column, alias}\<close>, or an object \<^verbatim>\<open>{type, column, alias?}\<close>
  whose type is one of the five aggregate keywords. A leaf of the WHERE tree is
  \<^verbatim>\<open>{type, column, value}\<close> with the operator token's text as type; its value is an
  array only when the type is IN and a parenthesised list follows.
\<close>

datatype aggFn = CountFn | SumFn | AvgFn | MinFn | MaxFn

datatype column =
    Plain string
  | Aliased string string
  | Aggregate aggFn string "string option"

datatype condition =
    AND condition condition
  | OR condition condition
  | NOT condition
  | Compare string string jsval
  | InList string "jsval list"

datatype direction = ASC | DESC

record orderSpec =
  o_column :: string
  o_direction :: direction

datatype joinType = INNER | LEFT | RIGHT

record joinSpec =
  j_type :: joinType
  j_table :: string
  j_onLeft :: string
  j_onRight :: string

record query =
  q_columns :: "column list"
  q_from :: "string option"
  q_where :: "condition option"
  q_orderBy :: "orderSpec list option"
  q_groupBy :: "string list option"
  q_join :: "joinSpec option"
  q_limit :: "jsnum option"

section \<open>The query engine\<close>

subsection \<open>Value helpers\<close>

fun splitOn :: "char \<Rightarrow> string \<Rightarrow> string list" where
  "splitOn d [] = [[]]"
| "splitOn d (c # cs) =
     (if c = d then [] # splitOn d cs
      else (case splitOn d cs of [] \<Rightarrow> [[c]] | p # ps \<Rightarrow> (c # p) # ps))"

text \<open>\<^verbatim>\<open>a ?? b\<close> for a property read \<open>a\<close> (\<open>None\<close> is \<^verbatim>\<open>undefined\<close>).\<close>

definition nullish :: "jsval option \<Rightarrow> jsval \<Rightarrow> jsval" where
  "nullish a b = (case a of None \<Rightarrow> b | Some v \<Rightarrow> if v = Null then b else v)"

definition secondPart :: "string \<Rightarrow> string" where
  "secondPart s = (case splitOn CHR ''.'' s of _ # c # _ \<Rightarrow> c | _ \<Rightarrow> s)"

text \<open>\<^verbatim>\<open>row[column]\<close> is read in the row's own properties. The members that a row
  inherits from \<^verbatim>\<open>Object.prototype\<close> (\<^verbatim>\<open>constructor\<close>, \<^verbatim>\<open>toString\<close> and the
  like) are not cell values and are not modelled: the model is of columns whose names
  are none of those.\<close>

definition getValue :: "row \<Rightarrow> string \<Rightarrow> jsval" where
  "getValue row column =
     (if CHR ''.'' \<in> set column
      then nullish (map_of row (secondPart column)) (nullish (map_of row column) Null)
      else nullish (map_of row column) Null)"

definition compareValues :: "host \<Rightarrow> jsval \<Rightarrow> jsval \<Rightarrow> jsnum" where
  "compareValues h a b =
     (if a = Null \<and> b = Null then Fin 0
      else if a = Null then Fin (- 1)
      else if b = Null then Fin 1
      else
        let na = parseFloat a; nb = parseFloat b
        in if \<not> isNaN na \<and> \<not> isNaN nb then jsSub na nb
           else Fin (of_int (localeCompare h (toStr h a) (toStr h b))))"

subsection \<open>WHERE conditions\<close>

definition orEmpty :: "jsval \<Rightarrow> jsval" where
  "orEmpty v = (if truthy v then v else Str [])"

definition likePattern :: "string \<Rightarrow> string" where
  "likePattern s =
     map (\<lambda>c. if c = CHR ''_'' then CHR ''.'' else c)
       (concat (map (\<lambda>c. if c = CHR ''%'' then ''.*'' else [c]) s))"

text \<open>The source of the regular expression that a LIKE leaf with value \<open>v\<close> builds.\<close>

definition likeSource :: "host \<Rightarrow> jsval \<Rightarrow> string" where
  "likeSource h v = ''^'' @ likePattern (toLowerCase (toStr h (orEmpty v))) @ ''$''"

text \<open>
  A leaf whose type is one of the three connective words has no \<^verbatim>\<open>left\<close>,
  \<^verbatim>\<open>right\<close> or \<^verbatim>\<open>condition\<close>: the recursive calls get \<^verbatim>\<open>undefined\<close> and answer
  true. The warning that the default branch logs is not modelled.
\<close>

fun evaluateCondition :: "host \<Rightarrow> row \<Rightarrow> condition \<Rightarrow> error + bool" where
  "evaluateCondition h row (AND l r) =
     (case evaluateCondition h row l of
        Inl e \<Rightarrow> Inl e
      | Inr b \<Rightarrow> if b then evaluateCondition h row r else Inr False)"
| "evaluateCondition h row (OR l r) =
     (case evaluateCondition h row l of
        Inl e \<Rightarrow> Inl e
      | Inr b \<Rightarrow> if b then Inr True else evaluateCondition h row r)"
| "evaluateCondition h row (NOT c) =
     (case evaluateCondition h row c of Inl e \<Rightarrow> Inl e | Inr b \<Rightarrow> Inr (\<not> b))"
| "evaluateCondition h row (Compare t column v) =
     (if t = ''AND'' \<or> t = ''OR'' then Inr True
      else if t = ''NOT'' then Inr False
      else if t = ''='' \<or> t = ''=='' then Inr (looseEq (getValue row column) v)
      else if t = ''!='' \<or> t = ''<>'' then Inr (\<not> looseEq (getValue row column) v)
      else if t = ''>'' then Inr (gt0 (compareValues h (getValue row column) v))
      else if t = ''>='' then Inr (ge0 (compareValues h (getValue row column) v))
      else if t = ''<'' then Inr (lt0 (compareValues h (getValue row column) v))
      else if t = ''<='' then Inr (le0 (compareValues h (getValue row column) v))
      else if t = ''LIKE'' then
        (let val = toLowerCase (toStr h (orEmpty (getValue row column)))
         in case regExp h (likeSource h v) of
              Inl e \<Rightarrow> Inl e
            | Inr regex \<Rightarrow> Inr (regex val))
      else if t = ''IN'' then Inr False
      else Inr True)"
| "evaluateCondition h row (InList column vs) = Inr (arrayIncludes vs (getValue row column))"

text \<open>\<^verbatim>\<open>rows.filter(p)\<close> where the predicate may throw: the first throw ends the call.\<close>

fun filterE :: "('a \<Rightarrow> error + bool) \<Rightarrow> 'a list \<Rightarrow> error + 'a list" where
  "filterE p [] = Inr []"
| "filterE p (x # xs) =
     (case p x of
        Inl e \<Rightarrow> Inl e
      | Inr b \<Rightarrow> (case filterE p xs of Inl e \<Rightarrow> Inl e | Inr ys \<Rightarrow> Inr (if b then x # ys else ys)))"

fun mapE :: "('a \<Rightarrow> error + 'b) \<Rightarrow> 'a list \<Rightarrow> error + 'b list" where
  "mapE f [] = Inr []"
| "mapE f (x # xs) =
     (case f x of
        Inl e \<Rightarrow> Inl e
      | Inr y \<Rightarrow> (case mapE f xs of Inl e \<Rightarrow> Inl e | Inr ys \<Rightarrow> Inr (y # ys)))"


subsection \<open>SELECT columns and aggregates\<close>

fun aggName :: "aggFn \<Rightarrow> string" where
  "aggName CountFn = ''COUNT''"
| "aggName SumFn = ''SUM''"
| "aggName AvgFn = ''AVG''"
| "aggName MinFn = ''MIN''"
| "aggName MaxFn = ''MAX''"

text \<open>\<^verbatim>\<open>col.alias || `${col.type}_${col.column || '*'}`\<close>: an empty string is falsy.\<close>

definition aggAlias :: "aggFn \<Rightarrow> string \<Rightarrow> string option \<Rightarrow> string" where
  "aggAlias f c a =
     (case a of
        Some s \<Rightarrow> if s \<noteq> [] then s else aggName f @ ''_'' @ (if c \<noteq> [] then c else ''*'')
      | None \<Rightarrow> aggName f @ ''_'' @ (if c \<noteq> [] then c else ''*''))"

definition sumColumn :: "string \<Rightarrow> row list \<Rightarrow> jsnum" where
  "sumColumn c rows =
     foldl (\<lambda>sum r. let val = parseFloat (getValue r c)
                     in jsAdd sum (if isNaN val then Fin 0 else val)) (Fin 0) rows"

text \<open>\<^verbatim>\<open>parseFloat(v) || v\<close>, and \<^verbatim>\<open>Math.min\<close> and \<^verbatim>\<open>Math.max\<close> over the spread
  list, which convert every argument to a number and answer NaN as soon as one is NaN.
  The limit that a host puts on the number of spread arguments is not modelled.\<close>

definition floatOrSelf :: "jsval \<Rightarrow> jsval" where
  "floatOrSelf v = (if truthyNum (parseFloat v) then Num (parseFloat v) else v)"

definition mathMin :: "jsval list \<Rightarrow> jsnum" where
  "mathMin xs =
     foldl (\<lambda>m x. if isNaN m \<or> isNaN (toNumber x) then NaN
                   else if jsLess (toNumber x) m then toNumber x else m) PosInf xs"

definition mathMax :: "jsval list \<Rightarrow> jsnum" where
  "mathMax xs =
     foldl (\<lambda>m x. if isNaN m \<or> isNaN (toNumber x) then NaN
                   else if jsLess m (toNumber x) then toNumber x else m) NegInf xs"

definition nonNullValues :: "string \<Rightarrow> row list \<Rightarrow> jsval list" where
  "nonNullValues c rows = filter (\<lambda>v. v \<noteq> Null) (map (\<lambda>r. getValue r c) rows)"

text \<open>The \<^verbatim>\<open>switch (col.type)\<close> that \<^verbatim>\<open>aggregate\<close> and \<^verbatim>\<open>selectColumns\<close> both
  contain, over a group or over all rows.\<close>

fun aggregateValue :: "aggFn \<Rightarrow> string \<Rightarrow> row list \<Rightarrow> jsval" where
  "aggregateValue CountFn c rows =
     (if c = ''*'' then Num (Fin (of_nat (length rows)))
      else Num (Fin (of_nat (length (filter (\<lambda>r. getValue r c \<noteq> Null) rows)))))"
| "aggregateValue SumFn c rows = Num (sumColumn c rows)"
| "aggregateValue AvgFn c rows =
     (if length rows > 0 then Num (jsDivNat (sumColumn c rows) (length rows)) else Num (Fin 0))"
| "aggregateValue MinFn c rows =
     (let minVals = nonNullValues c rows
      in if length minVals > 0 then Num (mathMin (map floatOrSelf minVals)) else Null)"
| "aggregateValue MaxFn c rows =
     (let maxVals = nonNullValues c rows
      in if length maxVals > 0 then Num (mathMax (map floatOrSelf maxVals)) else Null)"

text \<open>One step of the \<^verbatim>\<open>columns.forEach\<close> that collapses all rows into one result row.\<close>

fun collapseStep :: "row list \<Rightarrow> row \<Rightarrow> column \<Rightarrow> row" where
  "collapseStep rows result (Aggregate f c a) =
     AList.update (aggAlias f c a) (aggregateValue f c rows) result"
| "collapseStep rows result (Plain c) =
     AList.update c (case rows of [] \<Rightarrow> Null | r # _ \<Rightarrow> getValue r c) result"
| "collapseStep rows result (Aliased c a) =
     (if c \<noteq> [] then
        AList.update (if a \<noteq> [] then a else c) (case rows of [] \<Rightarrow> Null | r # _ \<Rightarrow> getValue r c) result
      else result)"

text \<open>
  One step of the \<^verbatim>\<open>columns.forEach\<close> of the plain projection. For an alias object
  whose column is the empty string, \<^verbatim>\<open>col.column || col\<close> is the object itself and
  \<^verbatim>\<open>getValue\<close> calls \<^verbatim>\<open>includes\<close> on it, which is a \<^verbatim>\<open>TypeError\<close>.
\<close>

fun projectStep :: "row \<Rightarrow> error + row \<Rightarrow> column \<Rightarrow> error + row" where
  "projectStep row (Inl e) col = Inl e"
| "projectStep row (Inr result) (Plain c) = Inr (AList.update c (getValue row c) result)"
| "projectStep row (Inr result) (Aggregate f c a) =
     Inr (AList.update (aggAlias f c a) (getValue row (aggAlias f c a)) result)"
| "projectStep row (Inr result) (Aliased c a) =
     (if c = [] then Inl TypeError
      else Inr (AList.update (if a \<noteq> [] then a else c) (getValue row c) result))"

definition isAggregate :: "column \<Rightarrow> bool" where
  "isAggregate col = (case col of Aggregate f c a \<Rightarrow> True | _ \<Rightarrow> False)"

definition selectColumns :: "row list \<Rightarrow> column list \<Rightarrow> bool \<Rightarrow> error + row list" where
  "selectColumns rows columns hasGroupBy =
     (if columns = [Plain ''*''] then Inr rows
      else if list_ex isAggregate columns \<and> \<not> hasGroupBy
        then Inr [foldl (collapseStep rows) [] columns]
      else mapE (\<lambda>row. foldl (projectStep row) (Inr []) columns) rows)"

subsection \<open>ORDER BY\<close>

fun rowComparator :: "host \<Rightarrow> orderSpec list \<Rightarrow> row \<Rightarrow> row \<Rightarrow> jsnum" where
  "rowComparator h [] a b = Fin 0"
| "rowComparator h (ord # rest) a b =
     (let comparison = compareValues h (getValue a (o_column ord)) (getValue b (o_column ord))
      in if comparison \<noteq> Fin 0
         then (if o_direction ord = DESC then jsNeg comparison else comparison)
         else rowComparator h rest a b)"

text \<open>
  \<^verbatim>\<open>Array.prototype.sort\<close> with a comparator: a stable sort that puts \<open>x\<close> after \<open>y\<close>
  when the comparator's answer is positive and reads NaN as zero. It is modelled as the
  stable insertion sort; for a comparator that is not a consistent order the host's
  result is implementation-defined.
\<close>

fun insertSorted :: "('a \<Rightarrow> 'a \<Rightarrow> jsnum) \<Rightarrow> 'a \<Rightarrow> 'a list \<Rightarrow> 'a list" where
  "insertSorted cmp x [] = [x]"
| "insertSorted cmp x (y # ys) =
     (if gt0 (cmp x y) then y # insertSorted cmp x ys else x # y # ys)"

definition sortJs :: "('a \<Rightarrow> 'a \<Rightarrow> jsnum) \<Rightarrow> 'a list \<Rightarrow> 'a list" where
  "sortJs cmp xs = foldr (insertSorted cmp) xs []"

definition sortRows :: "host \<Rightarrow> row list \<Rightarrow> orderSpec list \<Rightarrow> row list" where
  "sortRows h rows orderBy = (if orderBy = [] then rows else sortJs (rowComparator h orderBy) rows)"

subsection \<open>GROUP BY and aggregation\<close>

fun joinWith :: "string \<Rightarrow> string list \<Rightarrow> string" where
  "joinWith sep [] = []"
| "joinWith sep [x] = x"
| "joinWith sep (x # y # ys) = x @ sep @ joinWith sep (y # ys)"

definition getGroupKey :: "host \<Rightarrow> row \<Rightarrow> string list \<Rightarrow> string" where
  "getGroupKey h row groupBy = joinWith ''::'' (map (\<lambda>col. toStr h (orEmpty (getValue row col))) groupBy)"

text \<open>\<^verbatim>\<open>aggregate\<close> first copies the group-by columns from \<^verbatim>\<open>group[0]\<close> (on an
  empty group that is a property read on \<^verbatim>\<open>undefined\<close>), then lets every aggregate
  entry of the select list write its value under its alias (\<open>aggStep\<close>).\<close>

definition aggStep :: "row list \<Rightarrow> row \<Rightarrow> column \<Rightarrow> row" where
  "aggStep grp result col =
     (case col of
        Aggregate f c a \<Rightarrow> AList.update (aggAlias f c a) (aggregateValue f c grp) result
      | _ \<Rightarrow> result)"

definition aggregate :: "row list \<Rightarrow> string list \<Rightarrow> column list \<Rightarrow> error + row" where
  "aggregate grp groupByColumns selectCols =
     (case (if groupByColumns = [] then Inr []
            else (case grp of
                    [] \<Rightarrow> Inl TypeError
                  | first # _ \<Rightarrow>
                      Inr (foldl (\<lambda>result col. AList.update col (getValue first col) result) [] groupByColumns))) of
        Inl e \<Rightarrow> Inl e
      | Inr keys \<Rightarrow> Inr (foldl (aggStep grp) keys selectCols))"

text \<open>The \<^verbatim>\<open>Map\<close> from group key to group, in insertion order.\<close>

definition groupStep :: "host \<Rightarrow> string list \<Rightarrow> (string \<times> row list) list \<Rightarrow> row \<Rightarrow> (string \<times> row list) list" where
  "groupStep h groupBy groups row =
     (let key = getGroupKey h row groupBy;
          groups1 = (if map_of groups key = None then AList.update key [] groups else groups)
      in AList.update key ((case map_of groups1 key of None \<Rightarrow> [] | Some g \<Rightarrow> g) @ [row]) groups1)"

definition groupBy :: "host \<Rightarrow> row list \<Rightarrow> string list \<Rightarrow> column list \<Rightarrow> error + row list" where
  "groupBy h rows groupByCols columns =
     (if groupByCols = [] then Inr rows
      else mapE (\<lambda>(key, grp). aggregate grp groupByCols columns)
             (foldl (groupStep h groupByCols) [] rows))"

subsection \<open>JOIN\<close>

text \<open>\<^verbatim>\<open>{ ...a, ...b }\<close>: the properties of \<open>a\<close>, then those of \<open>b\<close> written over them.\<close>

definition spread :: "row \<Rightarrow> row \<Rightarrow> row" where
  "spread a b = foldl (\<lambda>result kv. AList.update (fst kv) (snd kv) result) a b"

definition joinColumn :: "string \<Rightarrow> string" where
  "joinColumn s = (if CHR ''.'' \<in> set s then secondPart s else s)"

definition rightEmpty :: "row list \<Rightarrow> row" where
  "rightEmpty rightRows =
     (case rightRows of
        [] \<Rightarrow> []
      | r0 # _ \<Rightarrow> foldl (\<lambda>result key. AList.update key Null result) [] (map fst r0))"

definition joinMatches :: "string \<Rightarrow> string \<Rightarrow> row list \<Rightarrow> row \<Rightarrow> row list" where
  "joinMatches leftCol rightCol rightRows leftRow =
     filter (\<lambda>rightRow. looseEq (getValue leftRow leftCol) (getValue rightRow rightCol)) rightRows"

definition joinStep :: "joinType \<Rightarrow> string \<Rightarrow> string \<Rightarrow> row list \<Rightarrow> row list \<Rightarrow> row \<Rightarrow> row list" where
  "joinStep ty leftCol rightCol rightRows result leftRow =
     (let matches = joinMatches leftCol rightCol rightRows leftRow
      in if length matches > 0 then result @ map (spread leftRow) matches
         else if ty = LEFT then result @ [spread leftRow (rightEmpty rightRows)]
         else result)"

definition performJoin :: "row list \<Rightarrow> row list \<Rightarrow> joinSpec option \<Rightarrow> row list" where
  "performJoin leftRows rightRows joinSpec =
     (case joinSpec of
        None \<Rightarrow> leftRows
      | Some js \<Rightarrow>
          if j_type js = INNER \<or> j_type js = LEFT
          then foldl (joinStep (j_type js) (joinColumn (j_onLeft js)) (joinColumn (j_onRight js)) rightRows)
                 [] leftRows
          else [])"

subsection \<open>Query execution\<close>

text \<open>\<^verbatim>\<open>rows.slice(0, n)\<close>: \<open>n\<close> is truncated towards zero, so that an end
  between \<open>-1\<close> and \<open>0\<close> is the end \<open>0\<close>; a negative end counts from the end of the
  array.\<close>

fun sliceTo :: "'a list \<Rightarrow> jsnum \<Rightarrow> 'a list" where
  "sliceTo rows NaN = []"
| "sliceTo rows PosInf = rows"
| "sliceTo rows NegInf = []"
| "sliceTo rows (Fin q) =
     (if 0 \<le> q then take (nat \<lfloor>q\<rfloor>) rows
      else if - 1 < q then []
      else take (nat (int (length rows) + \<lceil>q\<rceil>)) rows)"

text \<open>The data and the right-hand data are \<open>None\<close> when the caller passes \<^verbatim>\<open>null\<close> or
  nothing; an empty array of right-hand rows is truthy.\<close>

definition executeQuery :: "host \<Rightarrow> query \<Rightarrow> row list option \<Rightarrow> row list option \<Rightarrow> error + row list" where
  "executeQuery h ast data rightData =
     (case data of
        None \<Rightarrow> Inr []
      | Some d \<Rightarrow>
          if d = [] then Inr []
          else
            let joined = (case q_join ast of
                            None \<Rightarrow> d
                          | Some js \<Rightarrow> (case rightData of None \<Rightarrow> d | Some rd \<Rightarrow> performJoin d rd (Some js)))
            in case (case q_where ast of
                       None \<Rightarrow> Inr joined
                     | Some c \<Rightarrow> filterE (\<lambda>row. evaluateCondition h row c) joined) of
                 Inl e \<Rightarrow> Inl e
               | Inr filtered \<Rightarrow>
                   (case (case q_groupBy ast of
                            None \<Rightarrow> selectColumns filtered (q_columns ast) False
                          | Some g \<Rightarrow> if length g > 0 then groupBy h filtered g (q_columns ast)
                                      else selectColumns filtered (q_columns ast) False) of
                      Inl e \<Rightarrow> Inl e
                    | Inr shaped \<Rightarrow>
                        let sorted = (case q_orderBy ast of None \<Rightarrow> shaped | Some ob \<Rightarrow> sortRows h shaped ob)
                        in Inr (case q_limit ast of
                                  None \<Rightarrow> sorted
                                | Some n \<Rightarrow> if truthyNum n then sliceTo sorted n else sorted)))"


section \<open>The lexer\<close>

text \<open>
  The lexer's state is its input and a position; the model keeps the part of the input
  from the position on, whose head is \<^verbatim>\<open>currentChar\<close> (null when it is empty).
\<close>

definition KEYWORDS :: "string list" where
  "KEYWORDS = [''SELECT'', ''FROM'', ''WHERE'', ''ORDER'', ''BY'', ''GROUP'', ''JOIN'', ''ON'', ''INNER'',
     ''LEFT'', ''RIGHT'', ''AND'', ''OR'', ''NOT'', ''IN'', ''LIKE'', ''AS'', ''ASC'', ''DESC'', ''LIMIT'',
     ''COUNT'', ''SUM'', ''AVG'', ''MIN'', ''MAX'']"

definition skipWhitespace :: "string \<Rightarrow> string" where
  "skipWhitespace s = dropWhile isSpace s"

text \<open>\<^verbatim>\<open>readString\<close> after the opening quote: the value read so far and the input left.
  A backslash takes the next character as it is; the end of the input ends the literal.\<close>

fun readStringBody :: "char \<Rightarrow> string \<Rightarrow> string \<Rightarrow> string \<times> string" where
  "readStringBody quote val [] = (val, [])"
| "readStringBody quote val (c # cs) =
     (if c = quote then (val, cs)
      else if c = CHR 0x5C then
        (case cs of [] \<Rightarrow> (val, []) | d # ds \<Rightarrow> readStringBody quote (val @ [d]) ds)
      else readStringBody quote (val @ [c]) cs)"

definition readString :: "string \<Rightarrow> string \<times> string" where
  "readString s = (case s of [] \<Rightarrow> ([], []) | quote # cs \<Rightarrow> readStringBody quote [] cs)"

definition isNumberChar :: "char \<Rightarrow> bool" where
  "isNumberChar c = (isDigit c \<or> c = CHR ''.'')"

definition readNumber :: "string \<Rightarrow> jsnum \<times> string" where
  "readNumber s = (parseFloatStr (takeWhile isNumberChar s), dropWhile isNumberChar s)"

definition isIdentifierChar :: "char \<Rightarrow> bool" where
  "isIdentifierChar c = (isWordChar c \<or> c = CHR ''.'')"

definition readIdentifier :: "string \<Rightarrow> string \<times> string" where
  "readIdentifier s = (takeWhile isIdentifierChar s, dropWhile isIdentifierChar s)"

text \<open>\<^verbatim>\<open>readOperator\<close> folds a second character in only when the first is one of
  \<^verbatim>\<open>=\<close>, \<^verbatim>\<open>>\<close>, \<^verbatim>\<open><\<close>: the list it tests does not contain \<^verbatim>\<open>!\<close>.\<close>

definition readOperator :: "string \<Rightarrow> string \<times> string" where
  "readOperator s =
     (case s of
        [] \<Rightarrow> ([], [])
      | op # cs \<Rightarrow>
          (case cs of
             [] \<Rightarrow> ([op], [])
           | next # rest \<Rightarrow>
               if op \<in> set ''=><'' \<and>
                  ((op = CHR ''<'' \<and> next = CHR ''>'') \<or> (op = CHR ''!'' \<and> next = CHR ''='') \<or>
                   (op = CHR ''='' \<and> next = CHR ''='') \<or> (op = CHR ''>'' \<and> next = CHR ''='') \<or>
                   (op = CHR ''<'' \<and> next = CHR ''=''))
               then ([op, next], rest)
               else ([op], cs)))"

function nextToken :: "string \<Rightarrow> token \<times> string" where
  "nextToken [] = (EndOfInput, [])"
| "nextToken (c # cs) =
     (if isSpace c then nextToken (skipWhitespace (c # cs))
      else if c = CHR 0x22 \<or> c = CHR 0x27 then
        (case readString (c # cs) of (v, rest) \<Rightarrow> (StringLit v, rest))
      else if isDigit c then
        (case readNumber (c # cs) of (n, rest) \<Rightarrow> (NumberLit n, rest))
      else if c \<in> set ''=<>!'' then
        (case readOperator (c # cs) of (op, rest) \<Rightarrow> (Operator op, rest))
      else if c \<in> set ''(),;'' then (Punctuation [c], cs)
      else
        (case readIdentifier (c # cs) of
           (identifier, rest) \<Rightarrow>
             if toUpperCase identifier \<in> set KEYWORDS then (Keyword (toUpperCase identifier), rest)
             else (Identifier identifier, rest)))"
  by pat_completeness auto
termination
  by (relation "measure length") (auto simp: skipWhitespace_def intro: le_imp_less_Suc length_dropWhile_le)

text \<open>
  \<^verbatim>\<open>tokenize\<close> calls \<^verbatim>\<open>nextToken\<close> until it returns the end-of-input token. The
  loop need not end, so it is a partial function: \<open>None\<close> means that it never returns.
  A run that does not end pushes one token in every round; the limits of the engine on
  memory and on the length of an array, which end such a run by a failure, are not part of
  the model.
\<close>

partial_function (option) tokenizeLoop :: "token list \<Rightarrow> string \<Rightarrow> token list option" where
  "tokenizeLoop tokens rest =
     (case nextToken rest of
        (tok, rest') \<Rightarrow>
          if tokType tok \<noteq> EOF then tokenizeLoop (tokens @ [tok]) rest'
          else Some (tokens @ [tok]))"

declare tokenizeLoop.simps [code]

definition tokenize :: "string \<Rightarrow> token list option" where
  "tokenize input = tokenizeLoop [] (trim input)"

section \<open>The parser\<close>

text \<open>
  The parser's state is the token array and a position; the model keeps the tokens from
  the position on. Past the end of the array \<^verbatim>\<open>advance\<close> sets the current token to
  an end-of-input token. Every parsing function returns the error it throws, or its result
  together with the tokens left.
\<close>

definition currentToken :: "token list \<Rightarrow> token" where
  "currentToken ts = (case ts of [] \<Rightarrow> EndOfInput | t # _ \<Rightarrow> t)"

definition advance :: "token list \<Rightarrow> token list" where
  "advance ts = tl ts"

text \<open>\<^verbatim>\<open>this.currentToken.value === v\<close> for a string \<open>v\<close>.\<close>

definition valueIs :: "string \<Rightarrow> token list \<Rightarrow> bool" where
  "valueIs v ts = (tokValue (currentToken ts) = TStr v)"

definition expect :: "tokenType \<Rightarrow> string option \<Rightarrow> token list \<Rightarrow> error + (token \<times> token list)" where
  "expect ty val ts =
     (if tokType (currentToken ts) \<noteq> ty then Inl (ExpectedType ty (tokType (currentToken ts)))
      else
        (case val of
           None \<Rightarrow> Inr (currentToken ts, advance ts)
         | Some v \<Rightarrow>
             if tokValue (currentToken ts) \<noteq> TStr v then Inl (ExpectedValue v (tokValue (currentToken ts)))
             else Inr (currentToken ts, advance ts)))"

text \<open>\<^verbatim>\<open>this.expect(TOKEN_TYPES.IDENTIFIER).value\<close> and
  \<^verbatim>\<open>this.expect(TOKEN_TYPES.NUMBER).value\<close>.\<close>

definition expectIdentifier :: "token list \<Rightarrow> error + (string \<times> token list)" where
  "expectIdentifier ts =
     (case currentToken ts of
        Identifier s \<Rightarrow> Inr (s, advance ts)
      | t \<Rightarrow> Inl (ExpectedType IDENTIFIER (tokType t)))"

definition expectNumber :: "token list \<Rightarrow> error + (jsnum \<times> token list)" where
  "expectNumber ts =
     (case currentToken ts of
        NumberLit n \<Rightarrow> Inr (n, advance ts)
      | t \<Rightarrow> Inl (ExpectedType NUMBER (tokType t)))"

definition bindE :: "error + 'a \<Rightarrow> ('a \<Rightarrow> error + 'b) \<Rightarrow> error + 'b" where
  "bindE m f = (case m of Inl e \<Rightarrow> Inl e | Inr x \<Rightarrow> f x)"

subsection \<open>The select list\<close>

definition aggFnOf :: "token \<Rightarrow> aggFn option" where
  "aggFnOf t =
     (case t of
        Keyword s \<Rightarrow>
          if s = ''COUNT'' then Some CountFn
          else if s = ''SUM'' then Some SumFn
          else if s = ''AVG'' then Some AvgFn
          else if s = ''MIN'' then Some MinFn
          else if s = ''MAX'' then Some MaxFn
          else None
      | _ \<Rightarrow> None)"

definition parseColumnIdentifier :: "token list \<Rightarrow> error + (string \<times> token list)" where
  "parseColumnIdentifier ts =
     bindE (expectIdentifier ts) (\<lambda>(column, ts1).
       if valueIs ''.'' ts1
       then bindE (expectIdentifier (advance ts1)) (\<lambda>(col2, ts2). Inr (column @ ''.'' @ col2, ts2))
       else Inr (column, ts1))"

definition parseColumn :: "token list \<Rightarrow> error + (column \<times> token list)" where
  "parseColumn ts =
     (case aggFnOf (currentToken ts) of
        Some aggType \<Rightarrow>
          bindE (expect PUNCTUATION (Some ''('') (advance ts)) (\<lambda>(lp, ts1).
          bindE (if valueIs ''*'' ts1 then Inr (''*'', advance ts1) else expectIdentifier ts1) (\<lambda>(column, ts2).
          bindE (expect PUNCTUATION (Some '')'') ts2) (\<lambda>(rp, ts3).
            if valueIs ''AS'' ts3
            then bindE (expectIdentifier (advance ts3)) (\<lambda>(alias, ts4).
                   Inr (Aggregate aggType column (Some alias), ts4))
            else Inr (Aggregate aggType column None, ts3))))
      | None \<Rightarrow>
          bindE (parseColumnIdentifier ts) (\<lambda>(column, ts1).
            if valueIs ''AS'' ts1
            then bindE (expectIdentifier (advance ts1)) (\<lambda>(alias, ts2). Inr (Aliased column alias, ts2))
            else Inr (Plain column, ts1)))"

text \<open>The loops of the parser are bounded by the number of tokens left: every round reads
  at least one token. They are written with that number as fuel; \<open>None\<close> would mean
  that the fuel ran out, and \<open>parse_returns\<close> shows that it never does.\<close>

fun parseColumnList :: "nat \<Rightarrow> token list \<Rightarrow> (error + (column list \<times> token list)) option" where
  "parseColumnList 0 ts = None"
| "parseColumnList (Suc n) ts =
     (case parseColumn ts of
        Inl e \<Rightarrow> Some (Inl e)
      | Inr (column, ts1) \<Rightarrow>
          if valueIs '','' ts1
          then (case parseColumnList n (advance ts1) of
                  None \<Rightarrow> None
                | Some (Inl e) \<Rightarrow> Some (Inl e)
                | Some (Inr (columns, ts2)) \<Rightarrow> Some (Inr (column # columns, ts2)))
          else Some (Inr ([column], ts1)))"

definition parseSelect :: "token list \<Rightarrow> (error + (column list \<times> token list)) option" where
  "parseSelect ts =
     (case expect KEYWORD (Some ''SELECT'') ts of
        Inl e \<Rightarrow> Some (Inl e)
      | Inr (kw, ts1) \<Rightarrow>
          if valueIs ''*'' ts1 then Some (Inr ([Plain ''*''], advance ts1))
          else parseColumnList (Suc (length ts1)) ts1)"

subsection \<open>FROM and WHERE\<close>

definition parseFrom :: "token list \<Rightarrow> error + (string option \<times> token list)" where
  "parseFrom ts =
     (if valueIs ''FROM'' ts
      then bindE (expectIdentifier (advance ts)) (\<lambda>(table, ts1). Inr (Some table, ts1))
      else Inr (None, ts))"

definition parseValue :: "token list \<Rightarrow> error + (jsval \<times> token list)" where
  "parseValue ts =
     (case currentToken ts of
        StringLit s \<Rightarrow> Inr (Str s, advance ts)
      | NumberLit n \<Rightarrow> Inr (Num n, advance ts)
      | Identifier s \<Rightarrow> Inr (Str s, advance ts)
      | t \<Rightarrow> Inl (UnexpectedTokenInValue (tokType t)))"

fun parseInValues :: "nat \<Rightarrow> token list \<Rightarrow> (error + (jsval list \<times> token list)) option" where
  "parseInValues 0 ts = None"
| "parseInValues (Suc n) ts =
     (if valueIs '')'' ts then Some (Inr ([], ts))
      else
        (case parseValue ts of
           Inl e \<Rightarrow> Some (Inl e)
         | Inr (v, ts1) \<Rightarrow>
             (case parseInValues n (if valueIs '','' ts1 then advance ts1 else ts1) of
                None \<Rightarrow> None
              | Some (Inl e) \<Rightarrow> Some (Inl e)
              | Some (Inr (values, ts2)) \<Rightarrow> Some (Inr (v # values, ts2)))))"

text \<open>The comparison at the leaves of a condition: a column, an operator token, a value,
  and for the operator text IN followed by a parenthesis the list of values.\<close>

definition parseComparison :: "token list \<Rightarrow> (error + (condition \<times> token list)) option" where
  "parseComparison ts =
     (case parseColumnIdentifier ts of
        Inl e \<Rightarrow> Some (Inl e)
      | Inr (column, ts1) \<Rightarrow>
          (case currentToken ts1 of
             Operator operator \<Rightarrow>
               (case parseValue (advance ts1) of
                  Inl e \<Rightarrow> Some (Inl e)
                | Inr (v, ts2) \<Rightarrow>
                    if operator = ''IN'' \<and> valueIs ''('' ts2
                    then (case parseInValues (Suc (length ts2)) (advance ts2) of
                            None \<Rightarrow> None
                          | Some (Inl e) \<Rightarrow> Some (Inl e)
                          | Some (Inr (values, ts3)) \<Rightarrow>
                              (case expect PUNCTUATION (Some '')'') ts3 of
                                 Inl e \<Rightarrow> Some (Inl e)
                               | Inr (rp, ts4) \<Rightarrow> Some (Inr (InList column values, ts4))))
                    else Some (Inr (Compare operator column v, ts2)))
           | t \<Rightarrow> Some (Inl (ExpectedType OPERATOR (tokType t)))))"

definition connective :: "string \<Rightarrow> condition \<Rightarrow> condition \<Rightarrow> condition" where
  "connective op l r = (if op = ''AND'' then AND l r else OR l r)"

fun parseConditionTerm :: "nat \<Rightarrow> token list \<Rightarrow> (error + (condition \<times> token list)) option"
  and parseCondition :: "nat \<Rightarrow> token list \<Rightarrow> (error + (condition \<times> token list)) option"
  and parseConditionRest :: "nat \<Rightarrow> condition \<Rightarrow> token list \<Rightarrow> (error + (condition \<times> token list)) option"
where
  "parseConditionTerm 0 ts = None"
| "parseConditionTerm (Suc n) ts =
     (if valueIs ''NOT'' ts then
        (case parseConditionTerm n (advance ts) of
           None \<Rightarrow> None
         | Some (Inl e) \<Rightarrow> Some (Inl e)
         | Some (Inr (c, ts1)) \<Rightarrow> Some (Inr (NOT c, ts1)))
      else if valueIs ''('' ts then
        (case parseCondition n (advance ts) of
           None \<Rightarrow> None
         | Some (Inl e) \<Rightarrow> Some (Inl e)
         | Some (Inr (c, ts1)) \<Rightarrow>
             (case expect PUNCTUATION (Some '')'') ts1 of
                Inl e \<Rightarrow> Some (Inl e)
              | Inr (rp, ts2) \<Rightarrow> Some (Inr (c, ts2))))
      else parseComparison ts)"
| "parseCondition 0 ts = None"
| "parseCondition (Suc n) ts =
     (case parseConditionTerm n ts of
        None \<Rightarrow> None
      | Some (Inl e) \<Rightarrow> Some (Inl e)
      | Some (Inr (left, ts1)) \<Rightarrow> parseConditionRest n left ts1)"
| "parseConditionRest 0 left ts = None"
| "parseConditionRest (Suc n) left ts =
     (if valueIs ''AND'' ts \<or> valueIs ''OR'' ts then
        (case parseConditionTerm n (advance ts) of
           None \<Rightarrow> None
         | Some (Inl e) \<Rightarrow> Some (Inl e)
         | Some (Inr (right, ts1)) \<Rightarrow>
             parseConditionRest n (connective (if valueIs ''AND'' ts then ''AND'' else ''OR'') left right) ts1)
      else Some (Inr (left, ts)))"

definition parseWhere :: "token list \<Rightarrow> (error + (condition option \<times> token list)) option" where
  "parseWhere ts =
     (if \<not> valueIs ''WHERE'' ts then Some (Inr (None, ts))
      else
        (case parseCondition (2 * length ts + 2) (advance ts) of
           None \<Rightarrow> None
         | Some (Inl e) \<Rightarrow> Some (Inl e)
         | Some (Inr (c, ts1)) \<Rightarrow> Some (Inr (Some c, ts1))))"

subsection \<open>ORDER BY, GROUP BY, JOIN and LIMIT\<close>

fun parseOrderList :: "nat \<Rightarrow> token list \<Rightarrow> (error + (orderSpec list \<times> token list)) option" where
  "parseOrderList 0 ts = None"
| "parseOrderList (Suc n) ts =
     (case parseColumnIdentifier ts of
        Inl e \<Rightarrow> Some (Inl e)
      | Inr (column, ts1) \<Rightarrow>
          (let direction = (if valueIs ''DESC'' ts1 then DESC else ASC);
               ts2 = (if valueIs ''ASC'' ts1 \<or> valueIs ''DESC'' ts1 then advance ts1 else ts1);
               ord = \<lparr>o_column = column, o_direction = direction\<rparr>
           in if valueIs '','' ts2
              then (case parseOrderList n (advance ts2) of
                      None \<Rightarrow> None
                    | Some (Inl e) \<Rightarrow> Some (Inl e)
                    | Some (Inr (orders, ts3)) \<Rightarrow> Some (Inr (ord # orders, ts3)))
              else Some (Inr ([ord], ts2))))"

definition parseOrderBy :: "token list \<Rightarrow> (error + (orderSpec list option \<times> token list)) option" where
  "parseOrderBy ts =
     (if \<not> valueIs ''ORDER'' ts then Some (Inr (None, ts))
      else
        (case expect KEYWORD (Some ''ORDER'') ts of
           Inl e \<Rightarrow> Some (Inl e)
         | Inr (kw, ts1) \<Rightarrow>
             (case expect KEYWORD (Some ''BY'') ts1 of
                Inl e \<Rightarrow> Some (Inl e)
              | Inr (by, ts2) \<Rightarrow>
                  (case parseOrderList (Suc (length ts2)) ts2 of
                     None \<Rightarrow> None
                   | Some (Inl e) \<Rightarrow> Some (Inl e)
                   | Some (Inr (orders, ts3)) \<Rightarrow> Some (Inr (Some orders, ts3))))))"

fun parseGroupList :: "nat \<Rightarrow> token list \<Rightarrow> (error + (string list \<times> token list)) option" where
  "parseGroupList 0 ts = None"
| "parseGroupList (Suc n) ts =
     (case parseColumnIdentifier ts of
        Inl e \<Rightarrow> Some (Inl e)
      | Inr (column, ts1) \<Rightarrow>
          if valueIs '','' ts1
          then (case parseGroupList n (advance ts1) of
                  None \<Rightarrow> None
                | Some (Inl e) \<Rightarrow> Some (Inl e)
                | Some (Inr (columns, ts2)) \<Rightarrow> Some (Inr (column # columns, ts2)))
          else Some (Inr ([column], ts1)))"

definition parseGroupBy :: "token list \<Rightarrow> (error + (string list option \<times> token list)) option" where
  "parseGroupBy ts =
     (if \<not> valueIs ''GROUP'' ts then Some (Inr (None, ts))
      else
        (case expect KEYWORD (Some ''GROUP'') ts of
           Inl e \<Rightarrow> Some (Inl e)
         | Inr (kw, ts1) \<Rightarrow>
             (case expect KEYWORD (Some ''BY'') ts1 of
                Inl e \<Rightarrow> Some (Inl e)
              | Inr (by, ts2) \<Rightarrow>
                  (case parseGroupList (Suc (length ts2)) ts2 of
                     None \<Rightarrow> None
                   | Some (Inl e) \<Rightarrow> Some (Inl e)
                   | Some (Inr (columns, ts3)) \<Rightarrow> Some (Inr (Some columns, ts3))))))"

definition joinTypeOf :: "token list \<Rightarrow> joinType" where
  "joinTypeOf ts = (if valueIs ''LEFT'' ts then LEFT else if valueIs ''RIGHT'' ts then RIGHT else INNER)"

definition parseJoin :: "token list \<Rightarrow> error + (joinSpec option \<times> token list)" where
  "parseJoin ts =
     (if \<not> valueIs ''JOIN'' ts \<and> \<not> valueIs ''INNER'' ts \<and> \<not> valueIs ''LEFT'' ts \<and> \<not> valueIs ''RIGHT'' ts
      then Inr (None, ts)
      else
        (let joinType = joinTypeOf ts;
             ts1 = (if valueIs ''INNER'' ts \<or> valueIs ''LEFT'' ts \<or> valueIs ''RIGHT'' ts then advance ts else ts)
         in bindE (expect KEYWORD (Some ''JOIN'') ts1) (\<lambda>(kw, ts2).
            bindE (expectIdentifier ts2) (\<lambda>(table, ts3).
            bindE (expect KEYWORD (Some ''ON'') ts3) (\<lambda>(on, ts4).
            bindE (parseColumnIdentifier ts4) (\<lambda>(left, ts5).
            bindE (expect OPERATOR (Some ''='') ts5) (\<lambda>(eq, ts6).
            bindE (parseColumnIdentifier ts6) (\<lambda>(right, ts7).
              Inr (Some \<lparr>j_type = joinType, j_table = table, j_onLeft = left, j_onRight = right\<rparr>, ts7)))))))))"

definition parseLimit :: "token list \<Rightarrow> error + (jsnum option \<times> token list)" where
  "parseLimit ts =
     (if \<not> valueIs ''LIMIT'' ts then Inr (None, ts)
      else bindE (expectNumber (advance ts)) (\<lambda>(limit, ts1). Inr (Some limit, ts1)))"

subsection \<open>The whole query\<close>

text \<open>
  \<^verbatim>\<open>parse\<close> evaluates the seven properties of the AST in the order in which the
  object literal lists them and returns the AST; \<open>parseRest\<close> also returns the tokens
  that are left. On an empty token array the constructor leaves the current token
  undefined and the first \<^verbatim>\<open>expect\<close> is a \<^verbatim>\<open>TypeError\<close>; \<^verbatim>\<open>tokenize\<close> never
  returns an empty array.
\<close>

definition parseRest :: "token list \<Rightarrow> (error + (query \<times> token list)) option" where
  "parseRest ts =
     (if ts = [] then Some (Inl TypeError)
      else
        (case parseSelect ts of
           None \<Rightarrow> None
         | Some (Inl e) \<Rightarrow> Some (Inl e)
         | Some (Inr (cols, ts1)) \<Rightarrow>
        (case parseFrom ts1 of
           Inl e \<Rightarrow> Some (Inl e)
         | Inr (frm, ts2) \<Rightarrow>
        (case parseWhere ts2 of
           None \<Rightarrow> None
         | Some (Inl e) \<Rightarrow> Some (Inl e)
         | Some (Inr (wh, ts3)) \<Rightarrow>
        (case parseOrderBy ts3 of
           None \<Rightarrow> None
         | Some (Inl e) \<Rightarrow> Some (Inl e)
         | Some (Inr (ob, ts4)) \<Rightarrow>
        (case parseGroupBy ts4 of
           None \<Rightarrow> None
         | Some (Inl e) \<Rightarrow> Some (Inl e)
         | Some (Inr (gb, ts5)) \<Rightarrow>
        (case parseJoin ts5 of
           Inl e \<Rightarrow> Some (Inl e)
         | Inr (jn, ts6) \<Rightarrow>
        (case parseLimit ts6 of
           Inl e \<Rightarrow> Some (Inl e)
         | Inr (lmt, ts7) \<Rightarrow>
             Some (Inr (\<lparr>q_columns = cols, q_from = frm, q_where = wh, q_orderBy = ob,
                        q_groupBy = gb, q_join = jn, q_limit = lmt\<rparr>, ts7))))))))))"

definition parse :: "token list \<Rightarrow> (error + query) option" where
  "parse ts = map_option (map_sum id fst) (parseRest ts)"

text \<open>\<^verbatim>\<open>parseQuery\<close>: the error that it rethrows with a prefixed message is the error
  itself here. \<open>None\<close> means that the call does not return.\<close>

definition parseQuery :: "string \<Rightarrow> (error + query) option" where
  "parseQuery query = (case tokenize query of None \<Rightarrow> None | Some tokens \<Rightarrow> parse tokens)"

section \<open>A reference host\<close>

text \<open>
  Closed examples need a concrete host. \<open>refHost\<close> compares strings by code units,
  prints a number in plain decimal notation (exact for the integers and the short decimal
  fractions that the examples use), and implements the regular expressions
  \<^verbatim>\<open>^body$\<close> whose body consists of ordinary characters, dots and stars. For such a
  source it answers as the host does: a star with nothing to repeat is a
  \<^verbatim>\<open>SyntaxError\<close>, a dot matches every character but a line break. Any other source
  is answered \<open>Unsupported\<close>.
\<close>

fun codeUnitCompare :: "string \<Rightarrow> string \<Rightarrow> int" where
  "codeUnitCompare [] [] = 0"
| "codeUnitCompare [] (y # ys) = - 1"
| "codeUnitCompare (x # xs) [] = 1"
| "codeUnitCompare (x # xs) (y # ys) =
     (if x = y then codeUnitCompare xs ys
      else if (of_char x :: nat) < of_char y then - 1 else 1)"

definition digitChar :: "nat \<Rightarrow> char" where
  "digitChar d = ''0123456789'' ! (d mod 10)"

fun natDigits :: "nat \<Rightarrow> string" where
  "natDigits n = (if n < 10 then [digitChar n] else natDigits (n div 10) @ [digitChar (n mod 10)])"

declare natDigits.simps [simp del]

fun fracDigits :: "nat \<Rightarrow> rat \<Rightarrow> string" where
  "fracDigits 0 r = []"
| "fracDigits (Suc k) r =
     (if r = 0 then []
      else digitChar (nat \<lfloor>r * 10\<rfloor>) # fracDigits k (r * 10 - of_int \<lfloor>r * 10\<rfloor>))"

definition printRat :: "rat \<Rightarrow> string" where
  "printRat q =
     (let a = \<bar>q\<bar>; f = a - of_int \<lfloor>a\<rfloor>
      in (if q < 0 then ''-'' else []) @ natDigits (nat \<lfloor>a\<rfloor>) @
         (if f = 0 then [] else ''.'' @ fracDigits 17 f))"

datatype atom = AnyChar | Lit char

definition isSyntaxChar :: "char \<Rightarrow> bool" where
  "isSyntaxChar c = (c \<in> set [CHR ''^'', CHR ''$'', CHR 0x5C, CHR ''.'', CHR ''*'', CHR ''+'', CHR ''?'',
     CHR ''('', CHR '')'', CHR ''['', CHR '']'', CHR ''{'', CHR ''}'', CHR ''|''])"

fun parseAtoms :: "string \<Rightarrow> error + (atom \<times> bool) list" where
  "parseAtoms [] = Inr []"
| "parseAtoms [c] =
     (if c = CHR ''*'' then Inl SyntaxError
      else if c = CHR ''.'' then Inr [(AnyChar, False)]
      else if isSyntaxChar c then Inl Unsupported
      else Inr [(Lit c, False)])"
| "parseAtoms (c # d # cs) =
     (if c = CHR ''*'' then Inl SyntaxError
      else if c \<noteq> CHR ''.'' \<and> isSyntaxChar c then Inl Unsupported
      else
        let a = (if c = CHR ''.'' then AnyChar else Lit c)
        in if d = CHR ''*''
           then (case parseAtoms cs of Inl e \<Rightarrow> Inl e | Inr as \<Rightarrow> Inr ((a, True) # as))
           else (case parseAtoms (d # cs) of Inl e \<Rightarrow> Inl e | Inr as \<Rightarrow> Inr ((a, False) # as)))"

definition atomMatches :: "atom \<Rightarrow> char \<Rightarrow> bool" where
  "atomMatches a c = (case a of AnyChar \<Rightarrow> c \<noteq> CHR 0x0A \<and> c \<noteq> CHR 0x0D | Lit l \<Rightarrow> c = l)"

fun matchAtoms :: "(atom \<times> bool) list \<Rightarrow> string \<Rightarrow> bool" where
  "matchAtoms [] s = (s = [])"
| "matchAtoms ((a, star) # as) [] = (star \<and> matchAtoms as [])"
| "matchAtoms ((a, star) # as) (c # s) =
     (if star then matchAtoms as (c # s) \<or> (atomMatches a c \<and> matchAtoms ((a, star) # as) s)
      else atomMatches a c \<and> matchAtoms as s)"

definition refRegExp :: "string \<Rightarrow> error + (string \<Rightarrow> bool)" where
  "refRegExp source =
     (case source of
        [] \<Rightarrow> Inl Unsupported
      | c # rest \<Rightarrow>
          if c = CHR ''^'' \<and> rest \<noteq> [] \<and> last rest = CHR ''$''
          then (case parseAtoms (butlast rest) of Inl e \<Rightarrow> Inl e | Inr as \<Rightarrow> Inr (matchAtoms as))
          else Inl Unsupported)"

definition refHost :: host where
  "refHost = \<lparr> localeCompare = codeUnitCompare, numberToString = printRat, regExp = refRegExp \<rparr>"

section \<open>Notions used to state the properties\<close>

text \<open>A character that none of the tests of \<^verbatim>\<open>nextToken\<close> recognises and that
  \<^verbatim>\<open>readIdentifier\<close> does not read either.\<close>

definition isUnclassified :: "char \<Rightarrow> bool" where
  "isUnclassified c =
     (\<not> isSpace c \<and> c \<noteq> CHR 0x22 \<and> c \<noteq> CHR 0x27 \<and> \<not> isDigit c \<and> c \<notin> set ''=<>!'' \<and>
      c \<notin> set ''(),;'' \<and> \<not> isIdentifierChar c)"

text \<open>The distinct elements of a list in the order of their first occurrence.\<close>

definition firstSeen :: "'a list \<Rightarrow> 'a list" where
  "firstSeen xs = rev (remdups (rev xs))"

text \<open>The comparison of two rows on one ORDER BY key, before the direction is applied.\<close>

definition keyCompare :: "host \<Rightarrow> orderSpec \<Rightarrow> row \<Rightarrow> row \<Rightarrow> jsnum" where
  "keyCompare h ord a b = compareValues h (getValue a (o_column ord)) (getValue b (o_column ord))"

text \<open>A comparator is consistent on a list when, on its elements, "not after" is a total
  and transitive relation.\<close>

definition consistentOn :: "('a \<Rightarrow> 'a \<Rightarrow> jsnum) \<Rightarrow> 'a list \<Rightarrow> bool" where
  "consistentOn cmp xs =
     ((\<forall>x \<in> set xs. \<forall>y \<in> set xs. gt0 (cmp x y) \<longrightarrow> \<not> gt0 (cmp y x)) \<and>
      (\<forall>x \<in> set xs. \<forall>y \<in> set xs. \<forall>z \<in> set xs.
          \<not> gt0 (cmp x y) \<and> \<not> gt0 (cmp y z) \<longrightarrow> \<not> gt0 (cmp x z)))"

text \<open>Two numbers that are the same infinity: their difference is NaN.\<close>

definition sameInfinity :: "jsnum \<Rightarrow> jsnum \<Rightarrow> bool" where
  "sameInfinity x y = (x = y \<and> (x = PosInf \<or> x = NegInf))"

text \<open>The keys that the aggregate entries of a select list write, in order.\<close>

definition aggAliases :: "column list \<Rightarrow> string list" where
  "aggAliases cols = concat (map (\<lambda>col. case col of Aggregate f c a \<Rightarrow> [aggAlias f c a] | _ \<Rightarrow> []) cols)"

text \<open>The tokens of \<^verbatim>\<open>SELECT a GROUP BY a ORDER BY a\<close>.\<close>

definition groupThenOrder :: "token list" where
  "groupThenOrder = [Keyword ''SELECT'', Identifier ''a'', Keyword ''GROUP'', Keyword ''BY'',
     Identifier ''a'', Keyword ''ORDER'', Keyword ''BY'', Identifier ''a'', EndOfInput]"

text \<open>The query text \<^verbatim>\<open>SELECT v FROM t WHERE v >= 'Infinity'\<close>.\<close>

definition infinityQuery :: string where
  "infinityQuery = ''SELECT v FROM t WHERE v >= '' @ [CHR 0x27] @ ''Infinity'' @ [CHR 0x27]"

section \<open>Properties of the query engine\<close>

subsection \<open>Lengths of the late stages\<close>

lemma length_insertSorted: "length (insertSorted cmp x ys) = Suc (length ys)"
  by (induction ys) auto

lemma length_sortJs: "length (sortJs cmp xs) = length xs"
  by (induction xs) (auto simp: sortJs_def length_insertSorted)

lemma length_sortRows: "length (sortRows h rows ob) = length rows"
  by (simp add: sortRows_def length_sortJs)

lemma length_sliceTo: "length rows \<le> k \<Longrightarrow> length (sliceTo rows n) \<le> k"
  by (cases n) auto

lemma selectColumns_Nil: "\<exists>rs. selectColumns [] cols hg = Inr rs \<and> length rs \<le> 1"
  by (simp add: selectColumns_def)

lemma groupBy_Nil: "groupBy h [] g cols = Inr []"
  by (simp add: groupBy_def)

subsection \<open>C2: a RIGHT join\<close>

text \<open>
  Claim C2 says that a query whose join kind is RIGHT behaves as if there were no join:
  the join stage hands on the primary rows unchanged. The code does otherwise.
  \<^verbatim>\<open>performJoin\<close> starts from an empty result and fills it only inside
  \<^verbatim>\<open>if (type === 'INNER' || type === 'LEFT')\<close>, so for RIGHT it returns the empty list.
  The counterexample: one primary row and one secondary row with the same id. The join
  stage returns no row, the query \<^verbatim>\<open>SELECT *\<close> with the RIGHT join returns no row,
  and the same query without a join returns the primary row.
\<close>

theorem right_join_passthrough_counterexample:
  "performJoin [[(''id'', Num (Fin 1))]] [[(''id'', Num (Fin 1)), (''x'', Str ''A'')]]
     (Some \<lparr>j_type = RIGHT, j_table = ''t'', j_onLeft = ''id'', j_onRight = ''id''\<rparr>)
     \<noteq> [[(''id'', Num (Fin 1))]]
   \<and> executeQuery refHost
       \<lparr>q_columns = [Plain ''*''], q_from = None, q_where = None, q_orderBy = None, q_groupBy = None,
        q_join = Some \<lparr>j_type = RIGHT, j_table = ''t'', j_onLeft = ''id'', j_onRight = ''id''\<rparr>,
        q_limit = None\<rparr>
       (Some [[(''id'', Num (Fin 1))]]) (Some [[(''id'', Num (Fin 1)), (''x'', Str ''A'')]]) = Inr []
   \<and> executeQuery refHost
       \<lparr>q_columns = [Plain ''*''], q_from = None, q_where = None, q_orderBy = None, q_groupBy = None,
        q_join = None, q_limit = None\<rparr>
       (Some [[(''id'', Num (Fin 1))]]) (Some [[(''id'', Num (Fin 1)), (''x'', Str ''A'')]])
     = Inr [[(''id'', Num (Fin 1))]]"
  by (simp add: performJoin_def executeQuery_def selectColumns_def)

text \<open>
  C2 as amended: for every primary row set, every supplied secondary row set and every
  query whose join kind is RIGHT, the join stage yields the empty row sequence, whatever
  the rows are; the query is then evaluated on no rows and does not raise (it returns at
  most the one row that a select list with aggregates produces from no rows).
\<close>

theorem right_join_yields_no_rows:
  assumes "q_join ast = Some js" and "j_type js = RIGHT"
  shows "performJoin leftRows rightRows (Some js) = [] \<and>
         (\<exists>rs. executeQuery h ast (Some leftRows) (Some rightRows) = Inr rs \<and> length rs \<le> 1)"
proof
  show "performJoin leftRows rightRows (Some js) = []"
    using assms by (simp add: performJoin_def)
next
  show "\<exists>rs. executeQuery h ast (Some leftRows) (Some rightRows) = Inr rs \<and> length rs \<le> 1"
  proof (cases "leftRows = []")
    case True
    then show ?thesis by (simp add: executeQuery_def)
  next
    case False
    have j: "performJoin leftRows rightRows (Some js) = []"
      using assms by (simp add: performJoin_def)
    have f: "(case q_where ast of None \<Rightarrow> Inr [] | Some c \<Rightarrow> filterE (\<lambda>row. evaluateCondition h row c) []) = Inr []"
      by (simp split: option.split)
    have "\<exists>shaped. (case q_groupBy ast of
                            None \<Rightarrow> selectColumns [] (q_columns ast) False
                          | Some g \<Rightarrow> if length g > 0 then groupBy h [] g (q_columns ast)
                                      else selectColumns [] (q_columns ast) False) = Inr shaped
             \<and> length shaped \<le> 1"
    proof (cases "q_groupBy ast")
      case None
      then show ?thesis using selectColumns_Nil[of "q_columns ast" False] by simp
    next
      case (Some g)
      then show ?thesis
        using selectColumns_Nil[of "q_columns ast" False] groupBy_Nil[of h g "q_columns ast"]
        by (cases "g = []") simp_all
    qed
    then obtain shaped where s: "(case q_groupBy ast of
                            None \<Rightarrow> selectColumns [] (q_columns ast) False
                          | Some g \<Rightarrow> if length g > 0 then groupBy h [] g (q_columns ast)
                                      else selectColumns [] (q_columns ast) False) = Inr shaped"
      and l: "length shaped \<le> 1"
      by blast
    let ?sorted = "case q_orderBy ast of None \<Rightarrow> shaped | Some ob \<Rightarrow> sortRows h shaped ob"
    have ls: "length ?sorted \<le> 1" using l by (simp add: length_sortRows split: option.split)
    let ?res = "case q_limit ast of None \<Rightarrow> ?sorted | Some n \<Rightarrow> if truthyNum n then sliceTo ?sorted n else ?sorted"
    have lr: "length ?res \<le> 1"
      using ls by (auto split: option.split intro: length_sliceTo)
    have "executeQuery h ast (Some leftRows) (Some rightRows) = Inr ?res"
      using False assms(1) j f s by (simp add: executeQuery_def Let_def)
    then show ?thesis using lr by blast
  qed
qed

theorem right_join_yields_no_rows_witness:
  "q_join \<lparr>q_columns = [Plain ''*''], q_from = None, q_where = None, q_orderBy = None, q_groupBy = None,
          q_join = Some \<lparr>j_type = RIGHT, j_table = ''t'', j_onLeft = ''id'', j_onRight = ''id''\<rparr>,
          q_limit = None\<rparr>
     = Some \<lparr>j_type = RIGHT, j_table = ''t'', j_onLeft = ''id'', j_onRight = ''id''\<rparr>
   \<and> j_type \<lparr>j_type = RIGHT, j_table = ''t'', j_onLeft = ''id'', j_onRight = ''id''\<rparr> = RIGHT
   \<and> performJoin [[(''id'', Num (Fin 1))]] [[(''id'', Num (Fin 1)), (''x'', Str ''A'')]]
       (Some \<lparr>j_type = RIGHT, j_table = ''t'', j_onLeft = ''id'', j_onRight = ''id''\<rparr>) = []
   \<and> (\<exists>rs. executeQuery refHost
         \<lparr>q_columns = [Plain ''*''], q_from = None, q_where = None, q_orderBy = None, q_groupBy = None,
          q_join = Some \<lparr>j_type = RIGHT, j_table = ''t'', j_onLeft = ''id'', j_onRight = ''id''\<rparr>,
          q_limit = None\<rparr>
         (Some [[(''id'', Num (Fin 1))]]) (Some [[(''id'', Num (Fin 1)), (''x'', Str ''A'')]]) = Inr rs
       \<and> length rs \<le> 1)"
  using right_join_yields_no_rows
    [of "\<lparr>q_columns = [Plain ''*''], q_from = None, q_where = None, q_orderBy = None, q_groupBy = None,
          q_join = Some \<lparr>j_type = RIGHT, j_table = ''t'', j_onLeft = ''id'', j_onRight = ''id''\<rparr>,
          q_limit = None\<rparr>"
        "\<lparr>j_type = RIGHT, j_table = ''t'', j_onLeft = ''id'', j_onRight = ''id''\<rparr>"
        "[[(''id'', Num (Fin 1))]]" "[[(''id'', Num (Fin 1)), (''x'', Str ''A'')]]" refHost]
  by simp


subsection \<open>C7: the unmatched rows of a LEFT join\<close>

lemma foldl_joinStep:
  "foldl (joinStep ty lc rc rr) acc ls = acc @ concat (map (joinStep ty lc rc rr []) ls)"
proof (induction ls arbitrary: acc)
  case Nil
  then show ?case by simp
next
  case (Cons l ls)
  have "joinStep ty lc rc rr acc l = acc @ joinStep ty lc rc rr [] l"
    by (simp add: joinStep_def Let_def)
  then show ?case using Cons.IH[of "joinStep ty lc rc rr acc l"] by simp
qed

lemma map_of_spread:
  "distinct (map fst b) \<Longrightarrow>
   map_of (spread a b) k = (case map_of b k of Some v \<Rightarrow> Some v | None \<Rightarrow> map_of a k)"
proof (induction b arbitrary: a)
  case Nil
  then show ?case by (simp add: spread_def)
next
  case (Cons kv b)
  have notin: "fst kv \<notin> fst ` set b" using Cons.prems by simp
  have step: "spread a (kv # b) = spread (AList.update (fst kv) (snd kv) a) b"
    by (simp add: spread_def)
  show ?case
  proof (cases "k = fst kv")
    case True
    then have "map_of b k = None" using notin by (simp add: map_of_eq_None_iff)
    then show ?thesis using Cons.IH[of "AList.update (fst kv) (snd kv) a"] Cons.prems True step
      by (cases kv) (simp add: update_conv')
  next
    case False
    then show ?thesis using Cons.IH[of "AList.update (fst kv) (snd kv) a"] Cons.prems step
      by (cases kv) (auto simp: update_conv' split: option.splits)
  qed
qed

lemma map_of_nulls:
  "map_of (foldl (\<lambda>result key. AList.update key Null result) acc ks) k =
     (if k \<in> set ks then Some Null else map_of acc k)"
  by (induction ks arbitrary: acc) (auto simp: update_conv')

lemma map_of_rightEmpty:
  "map_of (rightEmpty (r0 # rest)) k = (if k \<in> set (map fst r0) then Some Null else None)"
  by (simp add: rightEmpty_def map_of_nulls)

text \<open>
  Claim C7. In a LEFT join the output is the concatenation, in the order of the primary
  rows, of one block per primary row: a primary row with no matching secondary row
  contributes exactly one row, its merge with the all-null row; a primary row with matches
  contributes one merged row per match. The all-null row has exactly the keys of the first
  secondary row, each with value null; a merge reads a key from the secondary side when
  the secondary row has it and from the primary row otherwise (rows being dictionaries,
  their keys are distinct). With no secondary row at all the all-null row is empty and the
  primary rows come out unchanged.
\<close>

theorem left_join_unmatched_rows:
  "j_type js = LEFT \<longrightarrow>
     performJoin leftRows rightRows (Some js) =
       concat (map (\<lambda>l. if joinMatches (joinColumn (j_onLeft js)) (joinColumn (j_onRight js)) rightRows l = []
                         then [spread l (rightEmpty rightRows)]
                         else map (spread l)
                                (joinMatches (joinColumn (j_onLeft js)) (joinColumn (j_onRight js)) rightRows l))
                 leftRows)
     \<and> (\<forall>r0 rest k. map_of (rightEmpty (r0 # rest)) k = (if k \<in> set (map fst r0) then Some Null else None))
     \<and> (\<forall>l r k. distinct (map fst r) \<longrightarrow>
           map_of (spread l r) k = (case map_of r k of Some v \<Rightarrow> Some v | None \<Rightarrow> map_of l k))
     \<and> (rightRows = [] \<longrightarrow> performJoin leftRows rightRows (Some js) = leftRows)"
proof
  assume L: "j_type js = LEFT"
  have js: "joinStep LEFT lc rc rr [] = (\<lambda>l. if joinMatches lc rc rr l = []
                         then [spread l (rightEmpty rr)]
                         else map (spread l) (joinMatches lc rc rr l))" for lc rc rr
    by (rule ext) (simp add: joinStep_def Let_def)
  have main: "performJoin leftRows rightRows (Some js) =
       concat (map (\<lambda>l. if joinMatches (joinColumn (j_onLeft js)) (joinColumn (j_onRight js)) rightRows l = []
                         then [spread l (rightEmpty rightRows)]
                         else map (spread l)
                                (joinMatches (joinColumn (j_onLeft js)) (joinColumn (j_onRight js)) rightRows l))
                 leftRows)"
    using L by (simp add: performJoin_def foldl_joinStep js)
  have none: "performJoin leftRows rightRows (Some js) = leftRows" if "rightRows = []"
  proof -
    have "performJoin leftRows rightRows (Some js) = concat (map (\<lambda>l. [l]) leftRows)"
      by (subst main) (simp add: that joinMatches_def rightEmpty_def spread_def)
    also have "\<dots> = leftRows" by (induction leftRows) auto
    finally show ?thesis .
  qed
  show "performJoin leftRows rightRows (Some js) =
       concat (map (\<lambda>l. if joinMatches (joinColumn (j_onLeft js)) (joinColumn (j_onRight js)) rightRows l = []
                         then [spread l (rightEmpty rightRows)]
                         else map (spread l)
                                (joinMatches (joinColumn (j_onLeft js)) (joinColumn (j_onRight js)) rightRows l))
                 leftRows)
     \<and> (\<forall>r0 rest k. map_of (rightEmpty (r0 # rest)) k = (if k \<in> set (map fst r0) then Some Null else None))
     \<and> (\<forall>l r k. distinct (map fst r) \<longrightarrow>
           map_of (spread l r) k = (case map_of r k of Some v \<Rightarrow> Some v | None \<Rightarrow> map_of l k))
     \<and> (rightRows = [] \<longrightarrow> performJoin leftRows rightRows (Some js) = leftRows)"
    using main none map_of_rightEmpty map_of_spread by blast
qed

text \<open>
  The example of the claim: primary rows with id 1 and id 2, one secondary row with id 1
  and x = A, joined on id = id. Two rows come out. The unmatched one has x null; its id
  is null too, since the all-null row has the key id and overwrites it.
\<close>

theorem left_join_unmatched_rows_witness:
  "j_type \<lparr>j_type = LEFT, j_table = ''t'', j_onLeft = ''id'', j_onRight = ''id''\<rparr> = LEFT
   \<and> joinMatches ''id'' ''id'' [[(''id'', Num (Fin 1)), (''x'', Str ''A'')]] [(''id'', Num (Fin 2))] = []
   \<and> performJoin [[(''id'', Num (Fin 1))], [(''id'', Num (Fin 2))]] [[(''id'', Num (Fin 1)), (''x'', Str ''A'')]]
       (Some \<lparr>j_type = LEFT, j_table = ''t'', j_onLeft = ''id'', j_onRight = ''id''\<rparr>)
     = [[(''id'', Num (Fin 1)), (''x'', Str ''A'')], [(''id'', Null), (''x'', Null)]]"
  using left_join_unmatched_rows
    [of "\<lparr>j_type = LEFT, j_table = ''t'', j_onLeft = ''id'', j_onRight = ''id''\<rparr>"
        "[[(''id'', Num (Fin 1))], [(''id'', Num (Fin 2))]]" "[[(''id'', Num (Fin 1)), (''x'', Str ''A'')]]"]
  by (simp add: joinColumn_def joinMatches_def getValue_def nullish_def numEq_def spread_def rightEmpty_def)

subsection \<open>C8: the IN condition\<close>

lemma looseEq_refl: "a \<noteq> Num NaN \<Longrightarrow> looseEq a a"
proof (cases a)
  case (Num n)
  assume "a \<noteq> Num NaN"
  then show ?thesis using Num by (cases n) (simp_all add: numEq_def)
qed simp_all

lemma arrayIncludes_iff: "arrayIncludes vs v = (v \<in> set vs)"
  by (induction vs) (auto simp: arrayIncludes_def sameValueZero_def)

text \<open>
  Claim C8 says that IN is true exactly when the column's value loosely equals an element
  of the list, so that the number 5 matches the string 5. The code tests
  \<^verbatim>\<open>condition.value.includes(colValue)\<close>, and \<^verbatim>\<open>includes\<close> compares without
  conversion. The counterexample: the cell holds the number 5, the list holds the string
  5; they are loosely equal, and the condition is false.
\<close>

theorem in_condition_loose_counterexample:
  "evaluateCondition refHost [(''a'', Num (Fin 5))] (InList ''a'' [Str ''5'']) = Inr False
   \<and> looseEq (getValue [(''a'', Num (Fin 5))] ''a'') (Str ''5'')"
  by (simp add: arrayIncludes_def sameValueZero_def getValue_def nullish_def numEq_def toNumberStr_def
      trim_def scanDecimal_def scanUnsigned_def scanExponent_def isDigit_def isSpace_def digitsVal_def
      digitVal_def scale10_def)

text \<open>
  C8 as amended: an IN condition with a literal list is true if and only if the column's
  value is identical to an element of the list, that is of the same scalar type and the
  same value; an IN condition whose value is not a list is false. A true IN condition
  implies loose equality with an element (for a value other than NaN), not conversely.
\<close>

theorem in_condition_is_strict:
  "evaluateCondition h row (InList column vs) = Inr (getValue row column \<in> set vs)
   \<and> evaluateCondition h row (Compare ''IN'' column v) = Inr False
   \<and> (getValue row column \<in> set vs \<and> getValue row column \<noteq> Num NaN
        \<longrightarrow> (\<exists>v \<in> set vs. looseEq (getValue row column) v))"
  using looseEq_refl by (auto simp: arrayIncludes_iff)

theorem in_condition_is_strict_witness:
  "evaluateCondition refHost [(''a'', Str ''5'')] (InList ''a'' [Num (Fin 5), Str ''5'']) = Inr True
   \<and> evaluateCondition refHost [(''a'', Str ''5'')] (Compare ''IN'' ''a'' (Str ''5'')) = Inr False
   \<and> getValue [(''a'', Str ''5'')] ''a'' \<in> set [Num (Fin 5), Str ''5'']
   \<and> getValue [(''a'', Str ''5'')] ''a'' \<noteq> Num NaN
   \<and> looseEq (getValue [(''a'', Str ''5'')] ''a'') (Str ''5'')"
  using in_condition_is_strict [of refHost "[(''a'', Str ''5'')]" "''a''" "[Num (Fin 5), Str ''5'']" "Str ''5''"]
  by (simp add: getValue_def nullish_def)

subsection \<open>C9: LIMIT\<close>

text \<open>
  Claim C9 says that a limit N truncates the result to its first N rows for every N, zero
  included. \<^verbatim>\<open>executeQuery\<close> guards the truncation with \<^verbatim>\<open>if (ast.limit)\<close>, and
  zero is falsy: with limit 0 the stage is skipped and the query answers as if it had no
  limit. For a positive limit the result is cut to its first rows (the limit rounded
  down).
\<close>

theorem limit_zero_is_ignored:
  "(q_limit ast = Some (Fin 0) \<longrightarrow>
      executeQuery h ast d rd = executeQuery h (ast\<lparr>q_limit := None\<rparr>) d rd)
   \<and> (q_limit ast = Some (Fin q) \<and> 0 < q \<longrightarrow>
      executeQuery h ast d rd = map_sum id (take (nat \<lfloor>q\<rfloor>)) (executeQuery h (ast\<lparr>q_limit := None\<rparr>) d rd))"
  by (auto simp: executeQuery_def Let_def split: option.splits sum.splits)

text \<open>The AST of \<^verbatim>\<open>SELECT a FROM t LIMIT 0\<close> over two rows: both rows come back.\<close>

theorem limit_zero_is_ignored_witness:
  "q_limit \<lparr>q_columns = [Plain ''a''], q_from = Some ''t'', q_where = None, q_orderBy = None,
            q_groupBy = None, q_join = None, q_limit = Some (Fin 0)\<rparr> = Some (Fin 0)
   \<and> executeQuery refHost
        \<lparr>q_columns = [Plain ''a''], q_from = Some ''t'', q_where = None, q_orderBy = None,
         q_groupBy = None, q_join = None, q_limit = Some (Fin 0)\<rparr>
        (Some [[(''a'', Num (Fin 1))], [(''a'', Num (Fin 2))]]) None
      = Inr [[(''a'', Num (Fin 1))], [(''a'', Num (Fin 2))]]"
  using limit_zero_is_ignored
    [of "\<lparr>q_columns = [Plain ''a''], q_from = Some ''t'', q_where = None, q_orderBy = None,
          q_groupBy = None, q_join = None, q_limit = Some (Fin 0)\<rparr>" refHost
        "Some [[(''a'', Num (Fin 1))], [(''a'', Num (Fin 2))]]" None]
  by (simp add: executeQuery_def selectColumns_def isAggregate_def getValue_def nullish_def)

subsection \<open>C10: group keys that collide\<close>

text \<open>
  Claim C10. The group key of a row is the text of its group-by values joined by two
  colons, where every falsy value (null, zero, NaN, the empty string) counts as the empty
  text. Rows with different group-by values can therefore share a key: a row with g = 0
  and a row with g = null, or two rows whose values contain the separator. Both pairs fall
  into one group and come out as one row with count 2.
\<close>

theorem group_key_collisions:
  "getGroupKey h row gb =
     joinWith ''::'' (map (\<lambda>c. if truthy (getValue row c) then toStr h (getValue row c) else []) gb)
   \<and> getValue [(''g'', Num (Fin 0))] ''g'' \<noteq> getValue [(''g'', Null)] ''g''
   \<and> getGroupKey h [(''g'', Num (Fin 0))] [''g''] = getGroupKey h [(''g'', Null)] [''g'']
   \<and> groupBy h [[(''g'', Num (Fin 0))], [(''g'', Null)]] [''g''] [Plain ''g'', Aggregate CountFn ''*'' (Some ''n'')]
       = Inr [[(''g'', Num (Fin 0)), (''n'', Num (Fin 2))]]
   \<and> getValue [(''a'', Str ''x::y''), (''b'', Str ''z'')] ''a'' \<noteq> getValue [(''a'', Str ''x''), (''b'', Str ''y::z'')] ''a''
   \<and> getGroupKey h [(''a'', Str ''x::y''), (''b'', Str ''z'')] [''a'', ''b'']
       = getGroupKey h [(''a'', Str ''x''), (''b'', Str ''y::z'')] [''a'', ''b'']
   \<and> groupBy h [[(''a'', Str ''x::y''), (''b'', Str ''z'')], [(''a'', Str ''x''), (''b'', Str ''y::z'')]]
         [''a'', ''b''] [Aggregate CountFn ''*'' (Some ''n'')]
       = Inr [[(''a'', Str ''x::y''), (''b'', Str ''z''), (''n'', Num (Fin 2))]]"
proof -
  have 1: "getGroupKey h row gb =
     joinWith ''::'' (map (\<lambda>c. if truthy (getValue row c) then toStr h (getValue row c) else []) gb)"
    by (simp add: getGroupKey_def orEmpty_def if_distrib[of "toStr h"] cong: if_cong)
  have 2: "getValue [(''g'', Num (Fin 0))] ''g'' \<noteq> getValue [(''g'', Null)] ''g''"
    by (simp add: getValue_def nullish_def)
  have 3: "getGroupKey h [(''g'', Num (Fin 0))] [''g''] = getGroupKey h [(''g'', Null)] [''g'']"
    by (simp add: getGroupKey_def orEmpty_def getValue_def nullish_def)
  have 4: "groupBy h [[(''g'', Num (Fin 0))], [(''g'', Null)]] [''g''] [Plain ''g'', Aggregate CountFn ''*'' (Some ''n'')]
       = Inr [[(''g'', Num (Fin 0)), (''n'', Num (Fin 2))]]"
    by (simp add: groupBy_def groupStep_def aggregate_def aggStep_def aggAlias_def getGroupKey_def orEmpty_def getValue_def nullish_def)
  have 5: "getValue [(''a'', Str ''x::y''), (''b'', Str ''z'')] ''a'' \<noteq> getValue [(''a'', Str ''x''), (''b'', Str ''y::z'')] ''a''"
    by (simp add: getValue_def nullish_def)
  have 6: "getGroupKey h [(''a'', Str ''x::y''), (''b'', Str ''z'')] [''a'', ''b'']
       = getGroupKey h [(''a'', Str ''x''), (''b'', Str ''y::z'')] [''a'', ''b'']"
    by (simp add: getGroupKey_def orEmpty_def getValue_def nullish_def)
  have 7: "groupBy h [[(''a'', Str ''x::y''), (''b'', Str ''z'')], [(''a'', Str ''x''), (''b'', Str ''y::z'')]]
         [''a'', ''b''] [Aggregate CountFn ''*'' (Some ''n'')]
       = Inr [[(''a'', Str ''x::y''), (''b'', Str ''z''), (''n'', Num (Fin 2))]]"
    by (simp add: groupBy_def groupStep_def aggregate_def aggStep_def aggAlias_def getGroupKey_def orEmpty_def getValue_def nullish_def)
  show ?thesis using 1 2 3 4 5 6 7 by (intro conjI)
qed

theorem group_key_collisions_witness:
  "getGroupKey refHost [(''g'', Str [])] [''g''] = []
   \<and> getGroupKey refHost [(''g'', Num (Fin 0))] [''g''] = getGroupKey refHost [(''g'', Null)] [''g'']
   \<and> groupBy refHost [[(''g'', Num (Fin 0))], [(''g'', Null)]] [''g''] [Plain ''g'', Aggregate CountFn ''*'' (Some ''n'')]
       = Inr [[(''g'', Num (Fin 0)), (''n'', Num (Fin 2))]]"
  using group_key_collisions [of refHost "[(''g'', Str [])]" "[''g'']"]
  by (simp add: getValue_def nullish_def)


subsection \<open>C5: grouping and aggregation\<close>

lemma firstSeen_snoc: "firstSeen (xs @ [x]) = (if x \<in> set xs then firstSeen xs else firstSeen xs @ [x])"
  by (simp add: firstSeen_def)

lemma set_firstSeen: "set (firstSeen xs) = set xs"
  by (simp add: firstSeen_def)

lemma distinct_firstSeen: "distinct (firstSeen xs)"
  by (simp add: firstSeen_def)

lemma update_map_in:
  "distinct ks \<Longrightarrow> k \<in> set ks \<Longrightarrow>
   AList.update k v (map (\<lambda>x. (x, F x)) ks) = map (\<lambda>x. (x, if x = k then v else F x)) ks"
  by (induction ks) auto

lemma update_map_notin:
  "k \<notin> set ks \<Longrightarrow> AList.update k v (map (\<lambda>x. (x, F x)) ks) = map (\<lambda>x. (x, F x)) ks @ [(k, v)]"
  by (induction ks) auto

lemma map_of_map_self:
  "map_of (map (\<lambda>x. (x, F x)) ks) k = (if k \<in> set ks then Some (F k) else None)"
  by (induction ks) auto

lemma groupStep_map:
  assumes "distinct ks"
  shows "groupStep h gb (map (\<lambda>k. (k, F k)) ks) r =
           (if getGroupKey h r gb \<in> set ks
            then map (\<lambda>k. (k, F k @ (if getGroupKey h r gb = k then [r] else []))) ks
            else map (\<lambda>k. (k, F k)) ks @ [(getGroupKey h r gb, [r])])"
proof (cases "getGroupKey h r gb \<in> set ks")
  case True
  have "map (\<lambda>x. (x, if x = getGroupKey h r gb then F (getGroupKey h r gb) @ [r] else F x)) ks
        = map (\<lambda>k. (k, F k @ (if getGroupKey h r gb = k then [r] else []))) ks"
    by (rule map_cong) auto
  then show ?thesis using True assms
    by (simp add: groupStep_def Let_def map_of_map_self update_map_in)
next
  case False
  have u: "AList.update (getGroupKey h r gb) [r] (map (\<lambda>k. (k, F k)) ks @ [(getGroupKey h r gb, [])])
        = map (\<lambda>k. (k, F k)) ks @ [(getGroupKey h r gb, [r])]"
    using False by (induction ks) auto
  have m: "map_of (map (\<lambda>k. (k, F k)) ks @ [(getGroupKey h r gb, [])]) (getGroupKey h r gb) = Some []"
    using False by (simp add: map_add_def map_of_map_self)
  show ?thesis using False u
    by (simp add: groupStep_def Let_def map_of_map_self update_map_notin m del: map_of_append)
qed

lemma groups_fold:
  "foldl (groupStep h gb) [] rows =
     map (\<lambda>k. (k, filter (\<lambda>r. getGroupKey h r gb = k) rows))
       (firstSeen (map (\<lambda>r. getGroupKey h r gb) rows))"
proof (induction rows rule: rev_induct)
  case Nil
  then show ?case by (simp add: firstSeen_def)
next
  case (snoc r rows)
  let ?key = "\<lambda>r. getGroupKey h r gb"
  let ?ks = "firstSeen (map ?key rows)"
  have d: "distinct ?ks" by (rule distinct_firstSeen)
  have s: "set ?ks = ?key ` set rows" by (simp add: set_firstSeen)
  have step: "foldl (groupStep h gb) [] (rows @ [r]) =
        groupStep h gb (map (\<lambda>k. (k, filter (\<lambda>r. ?key r = k) rows)) ?ks) r"
    using snoc.IH by simp
  let ?F = "\<lambda>k. filter (\<lambda>r. ?key r = k) rows"
  show ?case
  proof (cases "?key r \<in> set ?ks")
    case True
    then have fs: "firstSeen (map ?key rows @ [?key r]) = ?ks"
      using s by (simp add: firstSeen_snoc)
    have g: "groupStep h gb (map (\<lambda>k. (k, ?F k)) ?ks) r =
               map (\<lambda>k. (k, ?F k @ (if ?key r = k then [r] else []))) ?ks"
      using groupStep_map[OF d, of h gb ?F r] True by simp
    show ?thesis unfolding step g by (simp add: fs)
  next
    case False
    then have fs: "firstSeen (map ?key rows @ [?key r]) = ?ks @ [?key r]"
      using s by (simp add: firstSeen_snoc)
    have g: "groupStep h gb (map (\<lambda>k. (k, ?F k)) ?ks) r =
               map (\<lambda>k. (k, ?F k)) ?ks @ [(?key r, [r])]"
      using groupStep_map[OF d, of h gb ?F r] False by simp
    have e: "?F (?key r) = []"
      using False s by (force simp: filter_empty_conv image_iff)
    show ?thesis unfolding step g using False by (auto simp: fs e)
  qed
qed


lemma mapE_all_Inr:
  "(\<forall>x \<in> set xs. \<exists>y. f x = Inr y) \<Longrightarrow> \<exists>ys. mapE f xs = Inr ys \<and> map Inr ys = map f xs"
proof (induction xs)
  case Nil
  then show ?case by simp
next
  case (Cons x xs)
  then obtain y where y: "f x = Inr y" by auto
  from Cons obtain ys where ys: "mapE f xs = Inr ys" "map Inr ys = map f xs" by auto
  show ?case using y ys by simp
qed

lemma map_of_write_keys:
  "map_of (foldl (\<lambda>result col. AList.update col (F col) result) acc ks) c =
     (if c \<in> set ks then Some (F c) else map_of acc c)"
  by (induction ks arbitrary: acc) (auto simp: update_conv')

lemma map_of_aggStep_other:
  "x \<notin> set (aggAliases cols) \<Longrightarrow> map_of (foldl (aggStep grp) acc cols) x = map_of acc x"
proof (induction cols arbitrary: acc)
  case Nil
  then show ?case by simp
next
  case (Cons col cols)
  then show ?case
    by (cases col) (auto simp: aggStep_def aggAliases_def update_conv')
qed

lemma map_of_aggStep_last:
  assumes "aggAlias f c a \<notin> set (aggAliases post)"
  shows "map_of (foldl (aggStep grp) acc (pre @ Aggregate f c a # post)) (aggAlias f c a)
           = Some (aggregateValue f c grp)"
  using assms by (simp add: map_of_aggStep_other) (simp add: aggStep_def update_conv')

lemma aggregate_nonempty:
  "gb \<noteq> [] \<Longrightarrow> aggregate (first # rest) gb cols =
     Inr (foldl (aggStep (first # rest))
            (foldl (\<lambda>result col. AList.update col (getValue first col) result) [] gb) cols)"
  by (simp add: aggregate_def)

lemma sumColumn_fold:
  "sumColumn c g =
     foldl jsAdd (Fin 0)
       (map (\<lambda>r. if isNaN (parseFloat (getValue r c)) then Fin 0 else parseFloat (getValue r c)) g)"
  by (simp add: sumColumn_def foldl_map Let_def)

lemma groupBy_groups:
  assumes gb: "gb \<noteq> []"
  shows "\<exists>out. groupBy h rows gb cols = Inr out
        \<and> map Inr out =
            map (\<lambda>k. aggregate (filter (\<lambda>r. getGroupKey h r gb = k) rows) gb cols)
              (firstSeen (map (\<lambda>r. getGroupKey h r gb) rows))"
proof -
  let ?key = "\<lambda>r. getGroupKey h r gb"
  let ?ks = "firstSeen (map ?key rows)"
  let ?G = "\<lambda>k. filter (\<lambda>r. ?key r = k) rows"
  have ne: "\<forall>k \<in> set ?ks. ?G k \<noteq> []"
    by (auto simp: set_firstSeen filter_empty_conv)
  have ok: "\<forall>kg \<in> set (map (\<lambda>k. (k, ?G k)) ?ks). \<exists>y. (\<lambda>(key, grp). aggregate grp gb cols) kg = Inr y"
  proof
    fix kg assume "kg \<in> set (map (\<lambda>k. (k, ?G k)) ?ks)"
    then obtain k where k: "k \<in> set ?ks" "kg = (k, ?G k)" by auto
    then obtain first rest where "?G k = first # rest" using ne by (cases "?G k") auto
    then show "\<exists>y. (\<lambda>(key, grp). aggregate grp gb cols) kg = Inr y"
      using k gb by (simp add: aggregate_nonempty)
  qed
  from mapE_all_Inr[OF ok] obtain out where
    out: "mapE (\<lambda>(key, grp). aggregate grp gb cols) (map (\<lambda>k. (k, ?G k)) ?ks) = Inr out"
         "map Inr out = map (\<lambda>(key, grp). aggregate grp gb cols) (map (\<lambda>k. (k, ?G k)) ?ks)"
    by blast
  show "\<exists>out. groupBy h rows gb cols = Inr out
        \<and> map Inr out = map (\<lambda>k. aggregate (?G k) gb cols) ?ks"
    using out gb by (simp add: groupBy_def groups_fold comp_def)
qed

lemmas number_reading =
  parseFloatStr_def toNumberStr_def trim_def scanDecimal_def scanUnsigned_def scanExponent_def
  isDigit_def isSpace_def digitsVal_def digitVal_def scale10_def

lemmas row_reading = getValue_def nullish_def

lemmas case_folding =
  toLowerCase_def toLowerChar_def asciiUpper_def asciiLower_def latinUpper_def latinLower_def


text \<open>
  Claim C5, for a non-empty group-by list. The rows are partitioned by their group key;
  the groups are taken in the order in which their keys are first seen, each group keeps
  its rows in input order, and each group emits exactly one row, the one
  \<^verbatim>\<open>aggregate\<close> builds from it (no group is empty, so no call fails). That row holds,
  for every group-by column, the value of the group's first row, and for every aggregate
  entry of the select list the computed value under its alias. Both hold for the keys that
  are written once: a group-by column that is also the alias of an aggregate, and an alias
  used again by a later aggregate, are overwritten by the later write, and there the two
  halves of the claim prescribe different values for one key. \<^verbatim>\<open>COUNT(*)\<close> is the size
  of the group; \<^verbatim>\<open>SUM\<close> adds up, from zero, the parsed value of each row, with zero
  for a value that does not parse.
\<close>

theorem group_by_one_row_per_group:
  "gb \<noteq> [] \<longrightarrow>
     (\<exists>out. groupBy h rows gb cols = Inr out
        \<and> map Inr out =
            map (\<lambda>k. aggregate (filter (\<lambda>r. getGroupKey h r gb = k) rows) gb cols)
              (firstSeen (map (\<lambda>r. getGroupKey h r gb) rows)))
     \<and> (\<forall>first rest. \<exists>row. aggregate (first # rest) gb cols = Inr row
          \<and> (\<forall>c \<in> set gb. c \<notin> set (aggAliases cols) \<longrightarrow> map_of row c = Some (getValue first c))
          \<and> (\<forall>pre f c a post. cols = pre @ Aggregate f c a # post \<and> aggAlias f c a \<notin> set (aggAliases post)
                \<longrightarrow> map_of row (aggAlias f c a) = Some (aggregateValue f c (first # rest))))
     \<and> (\<forall>g. aggregateValue CountFn ''*'' g = Num (Fin (of_nat (length g))))
     \<and> (\<forall>c g. aggregateValue SumFn c g =
            Num (foldl jsAdd (Fin 0)
                  (map (\<lambda>r. if isNaN (parseFloat (getValue r c)) then Fin 0 else parseFloat (getValue r c)) g)))"
proof
  assume gb: "gb \<noteq> []"
  have 1: "\<exists>out. groupBy h rows gb cols = Inr out
        \<and> map Inr out =
            map (\<lambda>k. aggregate (filter (\<lambda>r. getGroupKey h r gb = k) rows) gb cols)
              (firstSeen (map (\<lambda>r. getGroupKey h r gb) rows))"
    using gb by (rule groupBy_groups)
  have 2: "\<exists>row. aggregate (first # rest) gb cols = Inr row
          \<and> (\<forall>c \<in> set gb. c \<notin> set (aggAliases cols) \<longrightarrow> map_of row c = Some (getValue first c))
          \<and> (\<forall>pre f c a post. cols = pre @ Aggregate f c a # post \<and> aggAlias f c a \<notin> set (aggAliases post)
                \<longrightarrow> map_of row (aggAlias f c a) = Some (aggregateValue f c (first # rest)))" for first rest
  proof -
    let ?keys = "foldl (\<lambda>result col. AList.update col (getValue first col) result) [] gb"
    let ?row = "foldl (aggStep (first # rest)) ?keys cols"
    have a: "aggregate (first # rest) gb cols = Inr ?row"
      using gb by (rule aggregate_nonempty)
    have b: "map_of ?row c = Some (getValue first c)" if "c \<in> set gb" "c \<notin> set (aggAliases cols)" for c
      using that by (simp add: map_of_aggStep_other map_of_write_keys)
    have c: "map_of ?row (aggAlias f c a) = Some (aggregateValue f c (first # rest))"
      if "cols = pre @ Aggregate f c a # post" "aggAlias f c a \<notin> set (aggAliases post)" for pre f c a post
      unfolding that(1) using that(2) by (rule map_of_aggStep_last)
    show ?thesis using a b c by blast
  qed
  have 3: "aggregateValue CountFn ''*'' g = Num (Fin (of_nat (length g)))" for g
    by simp
  have 4: "aggregateValue SumFn c g =
            Num (foldl jsAdd (Fin 0)
                  (map (\<lambda>r. if isNaN (parseFloat (getValue r c)) then Fin 0 else parseFloat (getValue r c)) g))" for c g
    by (simp add: sumColumn_fold)
  show "(\<exists>out. groupBy h rows gb cols = Inr out
        \<and> map Inr out =
            map (\<lambda>k. aggregate (filter (\<lambda>r. getGroupKey h r gb = k) rows) gb cols)
              (firstSeen (map (\<lambda>r. getGroupKey h r gb) rows)))
     \<and> (\<forall>first rest. \<exists>row. aggregate (first # rest) gb cols = Inr row
          \<and> (\<forall>c \<in> set gb. c \<notin> set (aggAliases cols) \<longrightarrow> map_of row c = Some (getValue first c))
          \<and> (\<forall>pre f c a post. cols = pre @ Aggregate f c a # post \<and> aggAlias f c a \<notin> set (aggAliases post)
                \<longrightarrow> map_of row (aggAlias f c a) = Some (aggregateValue f c (first # rest))))
     \<and> (\<forall>g. aggregateValue CountFn ''*'' g = Num (Fin (of_nat (length g))))
     \<and> (\<forall>c g. aggregateValue SumFn c g =
            Num (foldl jsAdd (Fin 0)
                  (map (\<lambda>r. if isNaN (parseFloat (getValue r c)) then Fin 0 else parseFloat (getValue r c)) g)))"
    using 1 2 3 4 by (intro conjI allI)
qed



text \<open>
  The example of the claim, at the grouping stage and through \<^verbatim>\<open>executeQuery\<close>:
  three rows, \<^verbatim>\<open>SELECT env, COUNT(*) as c, SUM(v) as s GROUP BY env\<close>.
\<close>

theorem group_by_one_row_per_group_witness:
  "[''env''] \<noteq> []
   \<and> firstSeen (map (\<lambda>r. getGroupKey refHost r [''env''])
        [[(''env'', Str ''prod''), (''v'', Str ''1'')], [(''env'', Str ''prod''), (''v'', Str ''3'')],
         [(''env'', Str ''dev''), (''v'', Str ''5'')]]) = [''prod'', ''dev'']
   \<and> groupBy refHost
        [[(''env'', Str ''prod''), (''v'', Str ''1'')], [(''env'', Str ''prod''), (''v'', Str ''3'')],
         [(''env'', Str ''dev''), (''v'', Str ''5'')]]
        [''env''] [Plain ''env'', Aggregate CountFn ''*'' (Some ''c''), Aggregate SumFn ''v'' (Some ''s'')]
      = Inr [[(''env'', Str ''prod''), (''c'', Num (Fin 2)), (''s'', Num (Fin 4))],
             [(''env'', Str ''dev''), (''c'', Num (Fin 1)), (''s'', Num (Fin 5))]]
   \<and> executeQuery refHost
        \<lparr>q_columns = [Plain ''env'', Aggregate CountFn ''*'' (Some ''c''), Aggregate SumFn ''v'' (Some ''s'')],
         q_from = None, q_where = None, q_orderBy = None, q_groupBy = Some [''env''], q_join = None,
         q_limit = None\<rparr>
        (Some [[(''env'', Str ''prod''), (''v'', Str ''1'')], [(''env'', Str ''prod''), (''v'', Str ''3'')],
               [(''env'', Str ''dev''), (''v'', Str ''5'')]]) None
      = Inr [[(''env'', Str ''prod''), (''c'', Num (Fin 2)), (''s'', Num (Fin 4))],
             [(''env'', Str ''dev''), (''c'', Num (Fin 1)), (''s'', Num (Fin 5))]]"
proof -
  let ?rows = "[[(''env'', Str ''prod''), (''v'', Str ''1'')], [(''env'', Str ''prod''), (''v'', Str ''3'')],
         [(''env'', Str ''dev''), (''v'', Str ''5'')]]"
  let ?cols = "[Plain ''env'', Aggregate CountFn ''*'' (Some ''c''), Aggregate SumFn ''v'' (Some ''s'')]"
  have k: "firstSeen (map (\<lambda>r. getGroupKey refHost r [''env'']) ?rows) = [''prod'', ''dev'']"
    by (simp add: firstSeen_def getGroupKey_def orEmpty_def row_reading)
  have a1: "aggregate [[(''env'', Str ''prod''), (''v'', Str ''1'')], [(''env'', Str ''prod''), (''v'', Str ''3'')]]
              [''env''] ?cols = Inr [(''env'', Str ''prod''), (''c'', Num (Fin 2)), (''s'', Num (Fin 4))]"
    by (simp add: aggregate_def aggStep_def aggAlias_def sumColumn_def row_reading number_reading)
  have a2: "aggregate [[(''env'', Str ''dev''), (''v'', Str ''5'')]]
              [''env''] ?cols = Inr [(''env'', Str ''dev''), (''c'', Num (Fin 1)), (''s'', Num (Fin 5))]"
    by (simp add: aggregate_def aggStep_def aggAlias_def sumColumn_def row_reading number_reading)
  have f: "filter (\<lambda>r. getGroupKey refHost r [''env''] = ''prod'') ?rows
             = [[(''env'', Str ''prod''), (''v'', Str ''1'')], [(''env'', Str ''prod''), (''v'', Str ''3'')]]"
          "filter (\<lambda>r. getGroupKey refHost r [''env''] = ''dev'') ?rows = [[(''env'', Str ''dev''), (''v'', Str ''5'')]]"
    by (simp_all add: getGroupKey_def orEmpty_def row_reading)
  from group_by_one_row_per_group [of "[''env'']" refHost ?rows ?cols]
  obtain out where o: "groupBy refHost ?rows [''env''] ?cols = Inr out"
    "map Inr out = map (\<lambda>k. aggregate (filter (\<lambda>r. getGroupKey refHost r [''env''] = k) ?rows) [''env''] ?cols)
              (firstSeen (map (\<lambda>r. getGroupKey refHost r [''env'']) ?rows))"
    by auto
  have "map Inr out = [Inr [(''env'', Str ''prod''), (''c'', Num (Fin 2)), (''s'', Num (Fin 4))],
                       Inr [(''env'', Str ''dev''), (''c'', Num (Fin 1)), (''s'', Num (Fin 5))] :: error + row]"
    unfolding o(2) k by (simp only: list.map f a1 a2)
  then have out: "out = [[(''env'', Str ''prod''), (''c'', Num (Fin 2)), (''s'', Num (Fin 4))],
                         [(''env'', Str ''dev''), (''c'', Num (Fin 1)), (''s'', Num (Fin 5))]]"
    by (auto simp: map_eq_Cons_conv)
  have g: "groupBy refHost ?rows [''env''] ?cols = Inr [[(''env'', Str ''prod''), (''c'', Num (Fin 2)), (''s'', Num (Fin 4))],
             [(''env'', Str ''dev''), (''c'', Num (Fin 1)), (''s'', Num (Fin 5))]]"
    using o(1) out by simp
  have q: "executeQuery refHost
        \<lparr>q_columns = ?cols, q_from = None, q_where = None, q_orderBy = None, q_groupBy = Some [''env''],
         q_join = None, q_limit = None\<rparr> (Some ?rows) None
      = Inr [[(''env'', Str ''prod''), (''c'', Num (Fin 2)), (''s'', Num (Fin 4))],
             [(''env'', Str ''dev''), (''c'', Num (Fin 1)), (''s'', Num (Fin 5))]]"
    by (simp add: executeQuery_def g)
  show ?thesis using k g q by simp
qed


subsection \<open>C6: the relational comparison and ORDER BY\<close>

lemma jsSub_same_infinity: "sameInfinity x y \<Longrightarrow> jsSub x y = NaN"
  by (auto simp: sameInfinity_def jsSub_def)

lemma jsSub_sign:
  assumes "\<not> isNaN x" "\<not> isNaN y" "\<not> sameInfinity x y"
  shows "gt0 (jsSub x y) = jsLess y x \<and> lt0 (jsSub x y) = jsLess x y \<and>
         ge0 (jsSub x y) = (\<not> jsLess x y) \<and> le0 (jsSub x y) = (\<not> jsLess y x) \<and>
         (jsSub x y = Fin 0) = (x = y)"
proof (cases x)
  case (Fin p)
  then show ?thesis using assms by (cases y) (auto simp: jsSub_def jsLess_def sameInfinity_def)
next
  case PosInf
  then show ?thesis using assms by (cases y) (auto simp: jsSub_def jsLess_def sameInfinity_def)
next
  case NegInf
  then show ?thesis using assms by (cases y) (auto simp: jsSub_def jsLess_def sameInfinity_def)
next
  case NaN
  then show ?thesis using assms by simp
qed

lemma rowComparator_first_difference:
  "rowComparator h obs a b =
     (case dropWhile (\<lambda>ord. keyCompare h ord a b = Fin 0) obs of
        [] \<Rightarrow> Fin 0
      | ord # rest \<Rightarrow> if o_direction ord = DESC then jsNeg (keyCompare h ord a b) else keyCompare h ord a b)"
  by (induction obs) (auto simp: keyCompare_def Let_def)

lemma mset_insertSorted: "mset (insertSorted cmp x ys) = add_mset x (mset ys)"
  by (induction ys) auto

lemma mset_sortJs: "mset (sortJs cmp xs) = mset xs"
  by (induction xs) (auto simp: sortJs_def mset_insertSorted)

lemma set_insertSorted: "set (insertSorted cmp x ys) = insert x (set ys)"
  by (induction ys) auto

lemma set_sortJs: "set (sortJs cmp xs) = set xs"
  by (induction xs) (auto simp: sortJs_def set_insertSorted)

lemma filter_insertSorted:
  "(\<forall>y \<in> set ys. P x \<and> P y \<longrightarrow> \<not> gt0 (cmp x y)) \<Longrightarrow>
   filter P (insertSorted cmp x ys) = (if P x then x # filter P ys else filter P ys)"
  by (induction ys) auto

lemma sortJs_Cons: "sortJs cmp (x # xs) = insertSorted cmp x (sortJs cmp xs)"
  by (simp add: sortJs_def)

lemma stable_sortJs:
  "(\<forall>x \<in> set xs. \<forall>y \<in> set xs. P x \<and> P y \<longrightarrow> \<not> gt0 (cmp x y)) \<Longrightarrow>
   filter P (sortJs cmp xs) = filter P xs"
proof (induction xs)
  case Nil
  then show ?case by (simp add: sortJs_def)
next
  case (Cons x xs)
  have "filter P (insertSorted cmp x (sortJs cmp xs)) =
          (if P x then x # filter P (sortJs cmp xs) else filter P (sortJs cmp xs))"
    using Cons.prems by (intro filter_insertSorted) (simp add: set_sortJs)
  moreover have "filter P (sortJs cmp xs) = filter P xs"
    using Cons by simp
  ultimately show ?case by (simp add: sortJs_Cons)
qed

lemma consistentOn_subset:
  "consistentOn cmp xs \<Longrightarrow> set ys \<subseteq> set xs \<Longrightarrow> consistentOn cmp ys"
  unfolding consistentOn_def by blast

lemma consistentOn_total:
  "consistentOn cmp xs \<Longrightarrow> x \<in> set xs \<Longrightarrow> y \<in> set xs \<Longrightarrow> gt0 (cmp x y) \<Longrightarrow> \<not> gt0 (cmp y x)"
  unfolding consistentOn_def by blast

lemma consistentOn_trans:
  "consistentOn cmp xs \<Longrightarrow> x \<in> set xs \<Longrightarrow> y \<in> set xs \<Longrightarrow> z \<in> set xs \<Longrightarrow>
   \<not> gt0 (cmp x y) \<Longrightarrow> \<not> gt0 (cmp y z) \<Longrightarrow> \<not> gt0 (cmp x z)"
  unfolding consistentOn_def by blast

lemma sorted_insertSorted:
  assumes "consistentOn cmp (x # ys)" "sorted_wrt (\<lambda>a b. \<not> gt0 (cmp a b)) ys"
  shows "sorted_wrt (\<lambda>a b. \<not> gt0 (cmp a b)) (insertSorted cmp x ys)"
  using assms
proof (induction ys)
  case Nil
  then show ?case by simp
next
  case (Cons y ys)
  have c: "consistentOn cmp (x # ys)"
    by (rule consistentOn_subset[OF Cons.prems(1)]) auto
  have tail: "sorted_wrt (\<lambda>a b. \<not> gt0 (cmp a b)) ys"
    and head: "\<forall>z \<in> set ys. \<not> gt0 (cmp y z)"
    using Cons.prems(2) by simp_all
  show ?case
  proof (cases "gt0 (cmp x y)")
    case True
    have yx: "\<not> gt0 (cmp y x)"
      by (rule consistentOn_total[OF Cons.prems(1) _ _ True]) simp_all
    have ih: "sorted_wrt (\<lambda>a b. \<not> gt0 (cmp a b)) (insertSorted cmp x ys)"
      using Cons.IH[OF c tail] .
    show ?thesis using True yx head ih by (simp add: set_insertSorted)
  next
    case False
    have "\<not> gt0 (cmp x z)" if "z \<in> set ys" for z
      by (rule consistentOn_trans[OF Cons.prems(1) _ _ _ False]) (use that head in simp_all)
    then show ?thesis using False head tail by simp
  qed
qed

lemma sorted_sortJs:
  "consistentOn cmp xs \<Longrightarrow> sorted_wrt (\<lambda>a b. \<not> gt0 (cmp a b)) (sortJs cmp xs)"
proof (induction xs)
  case Nil
  then show ?case by (simp add: sortJs_def)
next
  case (Cons x xs)
  have c: "consistentOn cmp xs"
    by (rule consistentOn_subset[OF Cons.prems]) auto
  have "consistentOn cmp (x # sortJs cmp xs)"
    by (rule consistentOn_subset[OF Cons.prems]) (simp add: set_sortJs)
  then show ?case using Cons.IH[OF c] by (simp add: sortJs_Cons sorted_insertSorted)
qed



text \<open>
  What \<^verbatim>\<open>compareValues\<close>, the four operators and \<^verbatim>\<open>sortRows\<close> compute, case by
  case. Two nulls compare equal and null is less than any other value. When both
  operands parse as numbers the result of the comparison is the difference of the parsed
  numbers: its sign is the numeric order, except that it is NaN when both are the same
  infinity. When one of them does not parse, the result is the host's comparison of the
  two values as strings. The four operators test that result against zero. The ORDER BY
  comparator is decided by the first listed key whose comparison is not zero, negated for
  DESC, and is zero when there is none; the sort is a stable sort by it: a permutation of
  the rows in which rows that the comparator does not put after one another keep their
  input order, and which is ordered by the comparator whenever the comparator is
  consistent on the rows.
\<close>

lemma relational_comparison_and_order_by:
  "compareValues h Null Null = Fin 0
   \<and> (b \<noteq> Null \<longrightarrow> compareValues h Null b = Fin (- 1))
   \<and> (a \<noteq> Null \<longrightarrow> compareValues h a Null = Fin 1)
   \<and> (a \<noteq> Null \<and> b \<noteq> Null \<and> \<not> isNaN (parseFloat a) \<and> \<not> isNaN (parseFloat b) \<longrightarrow>
         compareValues h a b = jsSub (parseFloat a) (parseFloat b)
       \<and> (sameInfinity (parseFloat a) (parseFloat b) \<longrightarrow> compareValues h a b = NaN)
       \<and> (\<not> sameInfinity (parseFloat a) (parseFloat b) \<longrightarrow>
             gt0 (compareValues h a b) = jsLess (parseFloat b) (parseFloat a)
           \<and> ge0 (compareValues h a b) = (\<not> jsLess (parseFloat a) (parseFloat b))
           \<and> lt0 (compareValues h a b) = jsLess (parseFloat a) (parseFloat b)
           \<and> le0 (compareValues h a b) = (\<not> jsLess (parseFloat b) (parseFloat a))
           \<and> (compareValues h a b = Fin 0) = (parseFloat a = parseFloat b)))
   \<and> (a \<noteq> Null \<and> b \<noteq> Null \<and> (isNaN (parseFloat a) \<or> isNaN (parseFloat b)) \<longrightarrow>
         compareValues h a b = Fin (of_int (localeCompare h (toStr h a) (toStr h b))))
   \<and> evaluateCondition h row (Compare ''>'' c v) = Inr (gt0 (compareValues h (getValue row c) v))
   \<and> evaluateCondition h row (Compare ''>='' c v) = Inr (ge0 (compareValues h (getValue row c) v))
   \<and> evaluateCondition h row (Compare ''<'' c v) = Inr (lt0 (compareValues h (getValue row c) v))
   \<and> evaluateCondition h row (Compare ''<='' c v) = Inr (le0 (compareValues h (getValue row c) v))
   \<and> rowComparator h obs r1 r2 =
        (case dropWhile (\<lambda>ord. keyCompare h ord r1 r2 = Fin 0) obs of
           [] \<Rightarrow> Fin 0
         | ord # rest \<Rightarrow> if o_direction ord = DESC then jsNeg (keyCompare h ord r1 r2)
                         else keyCompare h ord r1 r2)
   \<and> sortRows h rows [] = rows
   \<and> (obs \<noteq> [] \<longrightarrow>
         mset (sortRows h rows obs) = mset rows
       \<and> ((\<forall>x \<in> set rows. \<forall>y \<in> set rows. P x \<and> P y \<longrightarrow> \<not> gt0 (rowComparator h obs x y)) \<longrightarrow>
             filter P (sortRows h rows obs) = filter P rows)
       \<and> (consistentOn (rowComparator h obs) rows \<longrightarrow>
             sorted_wrt (\<lambda>x y. \<not> gt0 (rowComparator h obs x y)) (sortRows h rows obs)))"
proof -
  have n1: "compareValues h Null Null = Fin 0"
    by (simp add: compareValues_def)
  have n2: "b \<noteq> Null \<longrightarrow> compareValues h Null b = Fin (- 1)"
    by (simp add: compareValues_def)
  have n3: "a \<noteq> Null \<longrightarrow> compareValues h a Null = Fin 1"
    by (simp add: compareValues_def)
  have num: "a \<noteq> Null \<and> b \<noteq> Null \<and> \<not> isNaN (parseFloat a) \<and> \<not> isNaN (parseFloat b) \<longrightarrow>
         compareValues h a b = jsSub (parseFloat a) (parseFloat b)
       \<and> (sameInfinity (parseFloat a) (parseFloat b) \<longrightarrow> compareValues h a b = NaN)
       \<and> (\<not> sameInfinity (parseFloat a) (parseFloat b) \<longrightarrow>
             gt0 (compareValues h a b) = jsLess (parseFloat b) (parseFloat a)
           \<and> ge0 (compareValues h a b) = (\<not> jsLess (parseFloat a) (parseFloat b))
           \<and> lt0 (compareValues h a b) = jsLess (parseFloat a) (parseFloat b)
           \<and> le0 (compareValues h a b) = (\<not> jsLess (parseFloat b) (parseFloat a))
           \<and> (compareValues h a b = Fin 0) = (parseFloat a = parseFloat b))"
  proof
    assume A: "a \<noteq> Null \<and> b \<noteq> Null \<and> \<not> isNaN (parseFloat a) \<and> \<not> isNaN (parseFloat b)"
    then have e: "compareValues h a b = jsSub (parseFloat a) (parseFloat b)"
      by (simp add: compareValues_def Let_def)
    show "compareValues h a b = jsSub (parseFloat a) (parseFloat b)
       \<and> (sameInfinity (parseFloat a) (parseFloat b) \<longrightarrow> compareValues h a b = NaN)
       \<and> (\<not> sameInfinity (parseFloat a) (parseFloat b) \<longrightarrow>
             gt0 (compareValues h a b) = jsLess (parseFloat b) (parseFloat a)
           \<and> ge0 (compareValues h a b) = (\<not> jsLess (parseFloat a) (parseFloat b))
           \<and> lt0 (compareValues h a b) = jsLess (parseFloat a) (parseFloat b)
           \<and> le0 (compareValues h a b) = (\<not> jsLess (parseFloat b) (parseFloat a))
           \<and> (compareValues h a b = Fin 0) = (parseFloat a = parseFloat b))"
      unfolding e using A jsSub_same_infinity[of "parseFloat a" "parseFloat b"]
        jsSub_sign[of "parseFloat a" "parseFloat b"] by blast
  qed
  have str: "a \<noteq> Null \<and> b \<noteq> Null \<and> (isNaN (parseFloat a) \<or> isNaN (parseFloat b)) \<longrightarrow>
         compareValues h a b = Fin (of_int (localeCompare h (toStr h a) (toStr h b)))"
    by (auto simp: compareValues_def Let_def)
  have w: "evaluateCondition h row (Compare ''>'' c v) = Inr (gt0 (compareValues h (getValue row c) v))"
          "evaluateCondition h row (Compare ''>='' c v) = Inr (ge0 (compareValues h (getValue row c) v))"
          "evaluateCondition h row (Compare ''<'' c v) = Inr (lt0 (compareValues h (getValue row c) v))"
          "evaluateCondition h row (Compare ''<='' c v) = Inr (le0 (compareValues h (getValue row c) v))"
    by simp_all
  have rc: "rowComparator h obs r1 r2 =
        (case dropWhile (\<lambda>ord. keyCompare h ord r1 r2 = Fin 0) obs of
           [] \<Rightarrow> Fin 0
         | ord # rest \<Rightarrow> if o_direction ord = DESC then jsNeg (keyCompare h ord r1 r2)
                         else keyCompare h ord r1 r2)"
    by (rule rowComparator_first_difference)
  have s0: "sortRows h rows [] = rows"
    by (simp add: sortRows_def)
  have s1: "obs \<noteq> [] \<longrightarrow>
         mset (sortRows h rows obs) = mset rows
       \<and> ((\<forall>x \<in> set rows. \<forall>y \<in> set rows. P x \<and> P y \<longrightarrow> \<not> gt0 (rowComparator h obs x y)) \<longrightarrow>
             filter P (sortRows h rows obs) = filter P rows)
       \<and> (consistentOn (rowComparator h obs) rows \<longrightarrow>
             sorted_wrt (\<lambda>x y. \<not> gt0 (rowComparator h obs x y)) (sortRows h rows obs))"
    using mset_sortJs[of "rowComparator h obs" rows] stable_sortJs[of rows P "rowComparator h obs"]
      sorted_sortJs[of "rowComparator h obs" rows]
    by (simp add: sortRows_def)
  show ?thesis
    using n1 n2 n3 num str w rc s0 s1 by (intro conjI)
qed


text \<open>The rows with v = 10, 2 and abc, ordered by v: the two numbers first, in numeric
  order, then the text.\<close>

lemma relational_comparison_and_order_by_example:
  "Str ''10'' \<noteq> Null \<and> Str ''2'' \<noteq> Null
   \<and> \<not> isNaN (parseFloat (Str ''10'')) \<and> \<not> isNaN (parseFloat (Str ''2''))
   \<and> \<not> sameInfinity (parseFloat (Str ''10'')) (parseFloat (Str ''2''))
   \<and> compareValues refHost (Str ''10'') (Str ''2'') = Fin 8
   \<and> gt0 (compareValues refHost (Str ''10'') (Str ''2''))
   \<and> [\<lparr>o_column = ''v'', o_direction = ASC\<rparr>] \<noteq> []
   \<and> consistentOn (rowComparator refHost [\<lparr>o_column = ''v'', o_direction = ASC\<rparr>])
        [[(''v'', Str ''10'')], [(''v'', Str ''2'')], [(''v'', Str ''abc'')]]
   \<and> sortRows refHost [[(''v'', Str ''10'')], [(''v'', Str ''2'')], [(''v'', Str ''abc'')]]
        [\<lparr>o_column = ''v'', o_direction = ASC\<rparr>]
      = [[(''v'', Str ''2'')], [(''v'', Str ''10'')], [(''v'', Str ''abc'')]]
   \<and> sorted_wrt (\<lambda>x y. \<not> gt0 (rowComparator refHost [\<lparr>o_column = ''v'', o_direction = ASC\<rparr>] x y))
        (sortRows refHost [[(''v'', Str ''10'')], [(''v'', Str ''2'')], [(''v'', Str ''abc'')]]
           [\<lparr>o_column = ''v'', o_direction = ASC\<rparr>])"
proof -
  let ?ob = "[\<lparr>o_column = ''v'', o_direction = ASC\<rparr>]"
  let ?r10 = "[(''v'', Str ''10'')]" and ?r2 = "[(''v'', Str ''2'')]" and ?rabc = "[(''v'', Str ''abc'')]"
  let ?rows = "[?r10, ?r2, ?rabc]"
  have p: "parseFloat (Str ''10'') = Fin 10" "parseFloat (Str ''2'') = Fin 2" "parseFloat (Str ''abc'') = NaN"
    by (simp_all add: number_reading)
  have cv: "compareValues refHost (Str ''10'') (Str ''10'') = Fin 0"
           "compareValues refHost (Str ''10'') (Str ''2'') = Fin 8"
           "compareValues refHost (Str ''10'') (Str ''abc'') = Fin (- 1)"
           "compareValues refHost (Str ''2'') (Str ''10'') = Fin (- 8)"
           "compareValues refHost (Str ''2'') (Str ''2'') = Fin 0"
           "compareValues refHost (Str ''2'') (Str ''abc'') = Fin (- 1)"
           "compareValues refHost (Str ''abc'') (Str ''10'') = Fin 1"
           "compareValues refHost (Str ''abc'') (Str ''2'') = Fin 1"
           "compareValues refHost (Str ''abc'') (Str ''abc'') = Fin 0"
    by (simp_all add: compareValues_def p jsSub_def refHost_def del: parseFloat.simps)
  have gv: "getValue ?r10 ''v'' = Str ''10''" "getValue ?r2 ''v'' = Str ''2''" "getValue ?rabc ''v'' = Str ''abc''"
    by (simp_all add: row_reading)
  have rc: "rowComparator refHost ?ob ?r10 ?r10 = Fin 0"
           "rowComparator refHost ?ob ?r10 ?r2 = Fin 8"
           "rowComparator refHost ?ob ?r10 ?rabc = Fin (- 1)"
           "rowComparator refHost ?ob ?r2 ?r10 = Fin (- 8)"
           "rowComparator refHost ?ob ?r2 ?r2 = Fin 0"
           "rowComparator refHost ?ob ?r2 ?rabc = Fin (- 1)"
           "rowComparator refHost ?ob ?rabc ?r10 = Fin 1"
           "rowComparator refHost ?ob ?rabc ?r2 = Fin 1"
           "rowComparator refHost ?ob ?rabc ?rabc = Fin 0"
    by (simp_all add: gv cv)
  have con: "consistentOn (rowComparator refHost ?ob) ?rows"
    unfolding consistentOn_def by (simp add: rc del: rowComparator.simps)
  have srt: "sortRows refHost ?rows ?ob = [?r2, ?r10, ?rabc]"
    by (simp add: sortRows_def sortJs_def rc del: rowComparator.simps)
  note T = relational_comparison_and_order_by
    [where h = refHost and a = "Str ''10''" and b = "Str ''2''" and obs = ?ob and rows = ?rows]
  from T have "?ob \<noteq> [] \<longrightarrow> (consistentOn (rowComparator refHost ?ob) ?rows \<longrightarrow>
      sorted_wrt (\<lambda>x y. \<not> gt0 (rowComparator refHost ?ob x y)) (sortRows refHost ?rows ?ob))"
    by blast
  then have sorted: "sorted_wrt (\<lambda>x y. \<not> gt0 (rowComparator refHost ?ob x y)) (sortRows refHost ?rows ?ob)"
    using con by simp
  from T have "Str ''10'' \<noteq> Null \<and> Str ''2'' \<noteq> Null \<and> \<not> isNaN (parseFloat (Str ''10'')) \<and>
      \<not> isNaN (parseFloat (Str ''2'')) \<longrightarrow>
      (\<not> sameInfinity (parseFloat (Str ''10'')) (parseFloat (Str ''2'')) \<longrightarrow>
         gt0 (compareValues refHost (Str ''10'') (Str ''2'')) = jsLess (parseFloat (Str ''2'')) (parseFloat (Str ''10'')))"
    by blast
  then have g: "gt0 (compareValues refHost (Str ''10'') (Str ''2''))"
    by (simp add: p sameInfinity_def jsLess_def del: parseFloat.simps)
  have h: "Str ''10'' \<noteq> Null" "Str ''2'' \<noteq> Null"
          "\<not> isNaN (parseFloat (Str ''10''))" "\<not> isNaN (parseFloat (Str ''2''))"
          "\<not> sameInfinity (parseFloat (Str ''10'')) (parseFloat (Str ''2''))"
          "?ob \<noteq> []"
    by (simp_all add: p sameInfinity_def del: parseFloat.simps)
  show ?thesis
    using h cv(2) g con srt sorted by (intro conjI)
qed

text \<open>
  Claim C6. The relational comparison is to compare numerically when both operands parse
  as numbers (the source announces an attempt at numeric comparison), and numerically an
  infinity is equal to itself. \<^verbatim>\<open>compareValues\<close> answers with the difference of the
  two parsed numbers, and the difference of an infinity and itself is NaN. So when both
  operands parse as the same infinity, none of \<^verbatim>\<open>>\<close>, \<^verbatim>\<open>>=\<close>, \<^verbatim>\<open><\<close>,
  \<^verbatim>\<open><=\<close> holds, where \<^verbatim>\<open>>=\<close> and \<^verbatim>\<open><=\<close> hold between equal numbers; and the
  ORDER BY comparator answers NaN at that key, which is not zero, so that it ends there:
  the keys listed after it are not read and the two rows stay in input order.
\<close>

theorem equal_infinities_compare_unordered:
  "sameInfinity (parseFloat a) (parseFloat b) \<longrightarrow>
     compareValues h a b = NaN
     \<and> (getValue row c = a \<longrightarrow>
          evaluateCondition h row (Compare ''>'' c b) = Inr False
        \<and> evaluateCondition h row (Compare ''>='' c b) = Inr False
        \<and> evaluateCondition h row (Compare ''<'' c b) = Inr False
        \<and> evaluateCondition h row (Compare ''<='' c b) = Inr False)
     \<and> (getValue r1 (o_column ord) = a \<and> getValue r2 (o_column ord) = b \<longrightarrow>
          rowComparator h (ord # rest) r1 r2 = NaN
        \<and> rowComparator h (ord # rest) r2 r1 = NaN
        \<and> sortRows h [r1, r2] (ord # rest) = [r1, r2])"
proof
  assume s: "sameInfinity (parseFloat a) (parseFloat b)"
  then have s': "sameInfinity (parseFloat b) (parseFloat a)"
    by (auto simp: sameInfinity_def)
  have nn: "a \<noteq> Null" "b \<noteq> Null" "\<not> isNaN (parseFloat a)" "\<not> isNaN (parseFloat b)"
    using s by (auto simp: sameInfinity_def)
  have c: "compareValues h a b = NaN"
    using nn jsSub_same_infinity[OF s] by (simp add: compareValues_def Let_def)
  have c': "compareValues h b a = NaN"
    using nn jsSub_same_infinity[OF s'] by (simp add: compareValues_def Let_def)
  have w: "evaluateCondition h row (Compare ''>'' c b) = Inr False
        \<and> evaluateCondition h row (Compare ''>='' c b) = Inr False
        \<and> evaluateCondition h row (Compare ''<'' c b) = Inr False
        \<and> evaluateCondition h row (Compare ''<='' c b) = Inr False" if "getValue row c = a"
    using that c by simp
  have o: "rowComparator h (ord # rest) r1 r2 = NaN
        \<and> rowComparator h (ord # rest) r2 r1 = NaN
        \<and> sortRows h [r1, r2] (ord # rest) = [r1, r2]"
    if g: "getValue r1 (o_column ord) = a \<and> getValue r2 (o_column ord) = b"
  proof -
    have 1: "rowComparator h (ord # rest) r1 r2 = NaN"
      using g c by (simp add: Let_def)
    have 2: "rowComparator h (ord # rest) r2 r1 = NaN"
      using g c' by (simp add: Let_def)
    have 3: "sortRows h [r1, r2] (ord # rest) = [r1, r2]"
      using 1 by (simp add: sortRows_def sortJs_def del: rowComparator.simps)
    show ?thesis using 1 2 3 by blast
  qed
  show "compareValues h a b = NaN
     \<and> (getValue row c = a \<longrightarrow>
          evaluateCondition h row (Compare ''>'' c b) = Inr False
        \<and> evaluateCondition h row (Compare ''>='' c b) = Inr False
        \<and> evaluateCondition h row (Compare ''<'' c b) = Inr False
        \<and> evaluateCondition h row (Compare ''<='' c b) = Inr False)
     \<and> (getValue r1 (o_column ord) = a \<and> getValue r2 (o_column ord) = b \<longrightarrow>
          rowComparator h (ord # rest) r1 r2 = NaN
        \<and> rowComparator h (ord # rest) r2 r1 = NaN
        \<and> sortRows h [r1, r2] (ord # rest) = [r1, r2])"
    using c w o by blast
qed

lemma parseQuery_infinityQuery:
  "parseQuery infinityQuery =
     Some (Inr \<lparr>q_columns = [Plain ''v''], q_from = Some ''t'',
                q_where = Some (Compare ''>='' ''v'' (Str ''Infinity'')),
                q_orderBy = None, q_groupBy = None, q_join = None, q_limit = None\<rparr>)"
  unfolding infinityQuery_def by code_simp

lemma parseFloat_Infinity: "parseFloat (Str ''Infinity'') = PosInf"
  by (simp add: number_reading)

lemma parseFloat_small:
  "parseFloat (Str ''7'') = Fin 7" "parseFloat (Str ''2'') = Fin 2" "parseFloat (Str ''1'') = Fin 1"
  by (simp_all add: number_reading)

text \<open>
  The query \<^verbatim>\<open>SELECT v FROM t WHERE v >= 'Infinity'\<close> over the one row whose \<open>v\<close> is
  the text \<^verbatim>\<open>Infinity\<close> returns no row. Two rows that tie on \<^verbatim>\<open>Infinity\<close> in the
  first ORDER BY key keep their input order, the second key unread; two rows that tie on
  7 are ordered by the second key.
\<close>

theorem equal_infinities_compare_unordered_witness:
  "sameInfinity (parseFloat (Str ''Infinity'')) (parseFloat (Str ''Infinity''))
   \<and> getValue [(''v'', Str ''Infinity'')] ''v'' = Str ''Infinity''
   \<and> compareValues refHost (Str ''Infinity'') (Str ''Infinity'') = NaN
   \<and> evaluateCondition refHost [(''v'', Str ''Infinity'')] (Compare ''>='' ''v'' (Str ''Infinity'')) = Inr False
   \<and> evaluateCondition refHost [(''v'', Str ''Infinity'')] (Compare ''<='' ''v'' (Str ''Infinity'')) = Inr False
   \<and> parseQuery infinityQuery =
       Some (Inr \<lparr>q_columns = [Plain ''v''], q_from = Some ''t'',
                  q_where = Some (Compare ''>='' ''v'' (Str ''Infinity'')),
                  q_orderBy = None, q_groupBy = None, q_join = None, q_limit = None\<rparr>)
   \<and> executeQuery refHost
        \<lparr>q_columns = [Plain ''v''], q_from = Some ''t'',
         q_where = Some (Compare ''>='' ''v'' (Str ''Infinity'')),
         q_orderBy = None, q_groupBy = None, q_join = None, q_limit = None\<rparr>
        (Some [[(''v'', Str ''Infinity'')]]) None = Inr []
   \<and> sortRows refHost
        [[(''v'', Str ''Infinity''), (''w'', Str ''2'')], [(''v'', Str ''Infinity''), (''w'', Str ''1'')]]
        [\<lparr>o_column = ''v'', o_direction = ASC\<rparr>, \<lparr>o_column = ''w'', o_direction = ASC\<rparr>]
      = [[(''v'', Str ''Infinity''), (''w'', Str ''2'')], [(''v'', Str ''Infinity''), (''w'', Str ''1'')]]
   \<and> sortRows refHost
        [[(''v'', Str ''7''), (''w'', Str ''2'')], [(''v'', Str ''7''), (''w'', Str ''1'')]]
        [\<lparr>o_column = ''v'', o_direction = ASC\<rparr>, \<lparr>o_column = ''w'', o_direction = ASC\<rparr>]
      = [[(''v'', Str ''7''), (''w'', Str ''1'')], [(''v'', Str ''7''), (''w'', Str ''2'')]]"
proof -
  have s: "sameInfinity (parseFloat (Str ''Infinity'')) (parseFloat (Str ''Infinity''))"
    by (simp add: parseFloat_Infinity sameInfinity_def del: parseFloat.simps)
  have g: "getValue [(''v'', Str ''Infinity'')] ''v'' = Str ''Infinity''"
    by (simp add: row_reading)
  have g2: "getValue [(''v'', Str ''Infinity''), (''w'', Str ''2'')] (o_column \<lparr>o_column = ''v'', o_direction = ASC\<rparr>)
              = Str ''Infinity''
            \<and> getValue [(''v'', Str ''Infinity''), (''w'', Str ''1'')] (o_column \<lparr>o_column = ''v'', o_direction = ASC\<rparr>)
              = Str ''Infinity''"
    by (simp add: row_reading)
  note T = equal_infinities_compare_unordered[of "Str ''Infinity''" "Str ''Infinity''" refHost]
  have c: "compareValues refHost (Str ''Infinity'') (Str ''Infinity'') = NaN"
    using T s by blast
  have w: "evaluateCondition refHost [(''v'', Str ''Infinity'')] (Compare ''>='' ''v'' (Str ''Infinity'')) = Inr False"
          "evaluateCondition refHost [(''v'', Str ''Infinity'')] (Compare ''<='' ''v'' (Str ''Infinity'')) = Inr False"
    using T[of "[(''v'', Str ''Infinity'')]" "''v''"] s g by blast+
  have q: "executeQuery refHost
        \<lparr>q_columns = [Plain ''v''], q_from = Some ''t'',
         q_where = Some (Compare ''>='' ''v'' (Str ''Infinity'')),
         q_orderBy = None, q_groupBy = None, q_join = None, q_limit = None\<rparr>
        (Some [[(''v'', Str ''Infinity'')]]) None = Inr []"
    by (simp add: executeQuery_def w(1) selectColumns_def isAggregate_def del: evaluateCondition.simps)
  have o1: "sortRows refHost
        [[(''v'', Str ''Infinity''), (''w'', Str ''2'')], [(''v'', Str ''Infinity''), (''w'', Str ''1'')]]
        [\<lparr>o_column = ''v'', o_direction = ASC\<rparr>, \<lparr>o_column = ''w'', o_direction = ASC\<rparr>]
      = [[(''v'', Str ''Infinity''), (''w'', Str ''2'')], [(''v'', Str ''Infinity''), (''w'', Str ''1'')]]"
    using T[where ?r1.0 = "[(''v'', Str ''Infinity''), (''w'', Str ''2'')]"
              and ?r2.0 = "[(''v'', Str ''Infinity''), (''w'', Str ''1'')]"
              and ord = "\<lparr>o_column = ''v'', o_direction = ASC\<rparr>"
              and rest = "[\<lparr>o_column = ''w'', o_direction = ASC\<rparr>]"] s g2
    by blast
  have c7: "compareValues refHost (Str ''7'') (Str ''7'') = Fin 0"
           "compareValues refHost (Str ''2'') (Str ''1'') = Fin 1"
    by (simp_all add: compareValues_def parseFloat_small jsSub_def del: parseFloat.simps)
  have o2: "sortRows refHost
        [[(''v'', Str ''7''), (''w'', Str ''2'')], [(''v'', Str ''7''), (''w'', Str ''1'')]]
        [\<lparr>o_column = ''v'', o_direction = ASC\<rparr>, \<lparr>o_column = ''w'', o_direction = ASC\<rparr>]
      = [[(''v'', Str ''7''), (''w'', Str ''1'')], [(''v'', Str ''7''), (''w'', Str ''2'')]]"
    by (simp add: c7 sortRows_def sortJs_def getValue_def nullish_def del: parseFloat.simps)
  show ?thesis using s g c w parseQuery_infinityQuery q o1 o2 by (intro conjI)
qed

subsection \<open>C4: anomalies that do not degrade\<close>





text \<open>
  The LIKE branch passes its pattern, with \<^verbatim>\<open>%\<close> and \<^verbatim>\<open>_\<close> replaced and nothing
  escaped, to \<^verbatim>\<open>new RegExp\<close>, which throws a \<^verbatim>\<open>SyntaxError\<close> for a source that is
  not a regular expression: \<^verbatim>\<open>host LIKE '*prod*'\<close> builds the source \<^verbatim>\<open>^*prod*$\<close>, a
  star with nothing to repeat. Such a leaf reaches \<^verbatim>\<open>executeQuery\<close> only in an AST
  that its caller builds: the lexer makes \<^verbatim>\<open>LIKE\<close> a keyword, and the parser, which
  expects an operator token after the column, rejects the query.
\<close>

lemma like_pattern_raises:
  "executeQuery refHost
     \<lparr>q_columns = [Plain ''host''], q_from = None,
      q_where = Some (Compare ''LIKE'' ''host'' (Str ''*prod*'')),
      q_orderBy = None, q_groupBy = None, q_join = None, q_limit = None\<rparr>
     (Some [[(''host'', Str ''prod-1'')]]) None = Inl SyntaxError"
  by (simp add: executeQuery_def refHost_def refRegExp_def likeSource_def likePattern_def orEmpty_def
      case_folding)

lemma parser_rejects_like:
  "parseQuery ''SELECT host FROM t WHERE host LIKE x'' = Some (Inl (ExpectedType OPERATOR KEYWORD))"
  by code_simp

section \<open>Properties of the lexer\<close>

lemmas char_classes = isSpace_def isDigit_def isWordChar_def isIdentifierChar_def isNumberChar_def

lemma nextToken_unclassified:
  "isUnclassified c \<Longrightarrow> nextToken (c # cs) = (Identifier [], c # cs)"
  by (simp add: isUnclassified_def readIdentifier_def toUpperCase_def KEYWORDS_def)

lemma tokenizeLoop_no_progress:
  assumes "nextToken rest = (tok, rest)" "tokType tok \<noteq> EOF"
  shows "tokenizeLoop tokens rest = None"
proof (rule ccontr)
  assume "tokenizeLoop tokens rest \<noteq> None"
  then obtain y where y: "tokenizeLoop tokens rest = Some y" by auto
  have "nextToken rest \<noteq> (tok, rest)"
  proof (rule tokenizeLoop.raw_induct[OF _ y])
    fix loop :: "token list \<Rightarrow> string \<Rightarrow> token list option" and tokens r y
    assume ih: "\<And>tokens r y. loop tokens r = Some y \<Longrightarrow> nextToken r \<noteq> (tok, r)"
      and body: "(case nextToken r of
                    (tok, rest') \<Rightarrow>
                      if tokType tok \<noteq> EOF then loop (tokens @ [tok]) rest'
                      else Some (tokens @ [tok])) = Some y"
    show "nextToken r \<noteq> (tok, r)"
    proof
      assume n: "nextToken r = (tok, r)"
      then have "loop (tokens @ [tok]) r = Some y" using body assms(2) by simp
      then show False using ih n by blast
    qed
  qed
  then show False using assms(1) by simp
qed

lemma tokType_EOF: "tokType tok = EOF \<longleftrightarrow> tok = EndOfInput"
  by (cases tok) simp_all

lemma tokenizeLoop_result:
  assumes y: "tokenizeLoop tokens rest = Some toks"
  shows "\<exists>pre. toks = tokens @ pre @ [EndOfInput] \<and> EndOfInput \<notin> set pre"
proof (rule tokenizeLoop.raw_induct[OF _ y])
  fix loop :: "token list \<Rightarrow> string \<Rightarrow> token list option" and tokens r y
  assume ih: "\<And>tokens r y. loop tokens r = Some y \<Longrightarrow>
                \<exists>pre. y = tokens @ pre @ [EndOfInput] \<and> EndOfInput \<notin> set pre"
    and body: "(case nextToken r of
                  (tok, rest') \<Rightarrow>
                    if tokType tok \<noteq> EOF then loop (tokens @ [tok]) rest'
                    else Some (tokens @ [tok])) = Some y"
  obtain tok rest' where n: "nextToken r = (tok, rest')" by (cases "nextToken r")
  show "\<exists>pre. y = tokens @ pre @ [EndOfInput] \<and> EndOfInput \<notin> set pre"
  proof (cases "tokType tok = EOF")
    case True
    then have "y = tokens @ [] @ [EndOfInput]" using body n by (simp add: tokType_EOF)
    then show ?thesis by (intro exI[of _ "[]"]) simp
  next
    case False
    then have "loop (tokens @ [tok]) rest' = Some y" using body n by simp
    then obtain pre where p: "y = (tokens @ [tok]) @ pre @ [EndOfInput]" "EndOfInput \<notin> set pre"
      using ih by blast
    have "tok \<noteq> EndOfInput" using False by (simp add: tokType_EOF)
    then show ?thesis using p by (intro exI[of _ "tok # pre"]) simp
  qed
qed

lemma readStringBody_suffix: "\<exists>p. cs = p @ snd (readStringBody quote val cs)"
proof (induction quote val cs rule: readStringBody.induct)
  case (1 quote val)
  then show ?case by simp
next
  case (2 quote val c cs)
  show ?case
  proof (cases "c = quote")
    case True
    then show ?thesis by (simp add: exI[of _ "[c]"])
  next
    case nq: False
    show ?thesis
    proof (cases "c = CHR 0x5C")
      case True
      show ?thesis
      proof (cases cs)
        case Nil
        then show ?thesis using nq True by simp
      next
        case (Cons d ds)
        then obtain p where "ds = p @ snd (readStringBody quote (val @ [d]) ds)"
          using 2(1)[OF nq True Cons] by blast
        then have "c # cs = (c # d # p) @ snd (readStringBody quote val (c # cs))"
          using nq True Cons by simp
        then show ?thesis by blast
      qed
    next
      case False
      then obtain p where "cs = p @ snd (readStringBody quote (val @ [c]) cs)"
        using 2(2)[OF nq False] by blast
      then have "c # cs = (c # p) @ snd (readStringBody quote val (c # cs))"
        using nq False by simp
      then show ?thesis by blast
    qed
  qed
qed

lemma dropWhile_head:
  "P c \<Longrightarrow> \<exists>p. p \<noteq> [] \<and> c # cs = p @ dropWhile P (c # cs)"
  by (intro exI[of _ "c # takeWhile P cs"]) simp

lemma progressI:
  assumes "nextToken s = (tok, r)" "tokType tok \<noteq> EOF" "p \<noteq> []" "s = p @ r"
  shows "nextToken s = (EndOfInput, []) \<or>
     (tokType (fst (nextToken s)) \<noteq> EOF \<and> (\<exists>p. p \<noteq> [] \<and> s = p @ snd (nextToken s)))"
proof -
  have "tokType (fst (nextToken s)) \<noteq> EOF" using assms(1,2) by simp
  moreover have "\<exists>p. p \<noteq> [] \<and> s = p @ snd (nextToken s)"
    using assms(1,3,4) by (intro exI[of _ p]) simp
  ultimately show ?thesis by blast
qed

lemma nextToken_progress:
  "(\<forall>c \<in> set s. \<not> isUnclassified c) \<Longrightarrow>
     nextToken s = (EndOfInput, []) \<or>
     (tokType (fst (nextToken s)) \<noteq> EOF \<and> (\<exists>p. p \<noteq> [] \<and> s = p @ snd (nextToken s)))"
proof (induction s rule: nextToken.induct)
  case 1
  then show ?case by simp
next
  case (2 c cs)
  show ?case
  proof (cases "isSpace c")
    case True
    define s' where "s' = skipWhitespace (c # cs)"
    have e: "nextToken (c # cs) = nextToken s'" using True by (simp add: s'_def)
    obtain q where q: "q \<noteq> []" "c # cs = q @ s'"
      using dropWhile_head[of isSpace c cs] True by (auto simp: s'_def skipWhitespace_def)
    then have "\<forall>c \<in> set s'. \<not> isUnclassified c" using 2(2) by (metis Un_iff set_append)
    then have "nextToken s' = (EndOfInput, []) \<or>
       (tokType (fst (nextToken s')) \<noteq> EOF \<and> (\<exists>p. p \<noteq> [] \<and> s' = p @ snd (nextToken s')))"
      using 2(1)[OF True] by (simp add: s'_def)
    then show ?thesis
    proof
      assume "nextToken s' = (EndOfInput, [])"
      then show ?thesis using e by simp
    next
      assume "tokType (fst (nextToken s')) \<noteq> EOF \<and> (\<exists>p. p \<noteq> [] \<and> s' = p @ snd (nextToken s'))"
      then obtain p where p: "tokType (fst (nextToken s')) \<noteq> EOF" "s' = p @ snd (nextToken s')"
        by blast
      have "c # cs = (q @ p) @ snd (nextToken (c # cs))" using q p e by simp
      moreover have "q @ p \<noteq> []" using q by simp
      ultimately show ?thesis using p(1) e by metis
    qed
  next
    case ns: False
    show ?thesis
    proof (cases "c = CHR 0x22 \<or> c = CHR 0x27")
      case True
      obtain p where "cs = p @ snd (readStringBody c [] cs)"
        using readStringBody_suffix by blast
      then have "c # cs = (c # p) @ snd (nextToken (c # cs))"
        using ns True by (auto simp add: readString_def split: prod.splits)
      moreover have "tokType (fst (nextToken (c # cs))) \<noteq> EOF"
        using ns True by (auto simp add: readString_def split: prod.splits)
      ultimately show ?thesis by blast
    next
      case nq: False
      show ?thesis
      proof (cases "isDigit c")
        case True
        have nc: "isNumberChar c" using True by (simp add: isNumberChar_def)
        have "nextToken (c # cs) = (NumberLit (parseFloatStr (takeWhile isNumberChar (c # cs))),
                                   dropWhile isNumberChar (c # cs))"
          using ns nq True by (simp add: readNumber_def)
        then show ?thesis using dropWhile_head[of isNumberChar c cs] nc by simp
      next
        case nd: False
        show ?thesis
        proof (cases "c \<in> set ''=<>!''")
          case True
          have "\<exists>op. nextToken (c # cs) = (Operator op, cs) \<or>
                     (\<exists>d ds. cs = d # ds \<and> nextToken (c # cs) = (Operator op, ds))"
            using ns nq nd True by (cases cs) (auto simp add: readOperator_def)
          then obtain op where
            "nextToken (c # cs) = (Operator op, cs) \<or>
               (\<exists>d ds. cs = d # ds \<and> nextToken (c # cs) = (Operator op, ds))" by blast
          then show ?thesis
          proof
            assume a: "nextToken (c # cs) = (Operator op, cs)"
            show ?thesis by (rule progressI[OF a, of "[c]"]) simp_all
          next
            assume "\<exists>d ds. cs = d # ds \<and> nextToken (c # cs) = (Operator op, ds)"
            then obtain d ds where a: "cs = d # ds" "nextToken (c # cs) = (Operator op, ds)" by blast
            show ?thesis by (rule progressI[OF a(2), of "[c, d]"]) (simp_all add: a(1))
          qed
        next
          case no: False
          show ?thesis
          proof (cases "c \<in> set ''(),;''")
            case True
            then have a: "nextToken (c # cs) = (Punctuation [c], cs)"
              using ns nq nd no by simp
            show ?thesis by (rule progressI[OF a, of "[c]"]) simp_all
          next
            case np: False
            have "\<not> isUnclassified c" using 2(2) by simp
            then have ic: "isIdentifierChar c"
              using ns nq nd no np unfolding isUnclassified_def by blast
            define ident where "ident = takeWhile isIdentifierChar (c # cs)"
            have a: "nextToken (c # cs) =
                       (if toUpperCase ident \<in> set KEYWORDS then Keyword (toUpperCase ident)
                        else Identifier ident, dropWhile isIdentifierChar (c # cs))"
              using ns nq nd no np by (simp add: readIdentifier_def ident_def)
            show ?thesis unfolding a using dropWhile_head[of isIdentifierChar c cs] ic by simp
          qed
        qed
      qed
    qed
  qed
qed

lemma tokenizeLoop_returns:
  "(\<forall>c \<in> set rest. \<not> isUnclassified c) \<Longrightarrow> tokenizeLoop tokens rest \<noteq> None"
proof (induction "length rest" arbitrary: rest tokens rule: less_induct)
  case less
  obtain tok rest' where n: "nextToken rest = (tok, rest')" by (cases "nextToken rest")
  from nextToken_progress[OF less.prems]
  show ?case
  proof
    assume "nextToken rest = (EndOfInput, [])"
    then show ?thesis by (subst tokenizeLoop.simps) simp
  next
    assume "tokType (fst (nextToken rest)) \<noteq> EOF \<and> (\<exists>p. p \<noteq> [] \<and> rest = p @ snd (nextToken rest))"
    then obtain p where p: "tokType tok \<noteq> EOF" "p \<noteq> []" "rest = p @ rest'"
      using n by auto
    have "length rest' < length rest" using p by simp
    moreover have "\<forall>c \<in> set rest'. \<not> isUnclassified c" using p(3) less.prems by auto
    ultimately have "tokenizeLoop (tokens @ [tok]) rest' \<noteq> None" by (rule less.hyps)
    then show ?thesis using n p(1) by (subst tokenizeLoop.simps) simp
  qed
qed

lemma set_trim: "set (trim s) \<subseteq> set s"
proof -
  have "set (trim s) \<subseteq> set (dropWhile isSpace s)"
    unfolding trim_def using set_dropWhileD by fastforce
  then show ?thesis using set_dropWhileD by fastforce
qed


lemma tokenize_bang_equals:
  "tokenize ''a != 1'' =
     Some [Identifier ''a'', Operator ''!'', Operator ''='', NumberLit (Fin 1), EndOfInput]"
  by code_simp

text \<open>
  Claim C3. \<^verbatim>\<open>tokenize\<close> does not return on every input. A character that no test of
  \<^verbatim>\<open>nextToken\<close> recognises, such as \<^verbatim>\<open>*\<close>, reaches \<^verbatim>\<open>readIdentifier\<close>, which reads
  nothing: \<^verbatim>\<open>nextToken\<close> returns an identifier with the empty text and leaves the
  position where it was. The loop of \<^verbatim>\<open>tokenize\<close> then receives the same token for
  ever, so an input on which the lexer reaches such a character at the start of a token
  is an input on which \<^verbatim>\<open>tokenize\<close> never returns. On an input without such a
  character \<^verbatim>\<open>tokenize\<close> returns, and whenever it returns the tokens end with the
  only end-of-input token among them.
\<close>

theorem tokenize_never_returns:
  "(isUnclassified c \<longrightarrow>
      nextToken (c # cs) = (Identifier [], c # cs)
      \<and> (\<forall>tokens. tokenizeLoop tokens (c # cs) = None)
      \<and> (trim input = c # cs \<longrightarrow> tokenize input = None))
   \<and> ((\<forall>d \<in> set input. \<not> isUnclassified d) \<longrightarrow> tokenize input \<noteq> None)
   \<and> (tokenize input = Some toks \<longrightarrow>
        (\<exists>pre. toks = pre @ [EndOfInput] \<and> EndOfInput \<notin> set pre))"
proof -
  have stuck: "nextToken (c # cs) = (Identifier [], c # cs)
     \<and> (\<forall>tokens. tokenizeLoop tokens (c # cs) = None)
     \<and> (trim input = c # cs \<longrightarrow> tokenize input = None)" if u: "isUnclassified c"
  proof -
    have n: "nextToken (c # cs) = (Identifier [], c # cs)"
      using u by (rule nextToken_unclassified)
    have l: "tokenizeLoop tokens (c # cs) = None" for tokens
      by (rule tokenizeLoop_no_progress[OF n]) simp
    show ?thesis using n l by (simp add: tokenize_def)
  qed
  have returns: "tokenize input \<noteq> None" if "\<forall>d \<in> set input. \<not> isUnclassified d"
  proof -
    have "\<forall>d \<in> set (trim input). \<not> isUnclassified d" using that set_trim by blast
    then show ?thesis unfolding tokenize_def by (rule tokenizeLoop_returns)
  qed
  have ends: "\<exists>pre. toks = pre @ [EndOfInput] \<and> EndOfInput \<notin> set pre"
    if "tokenize input = Some toks"
    using tokenizeLoop_result[of "[]" "trim input" toks] that by (simp add: tokenize_def)
  show ?thesis using stuck returns ends by blast
qed

theorem tokenize_never_returns_witness:
  "isUnclassified CHR ''*''
   \<and> nextToken ''* FROM t'' = (Identifier [], ''* FROM t'')
   \<and> tokenize ''*'' = None
   \<and> tokenize ''SELECT * FROM t'' = None
   \<and> list_all (\<lambda>d. \<not> isUnclassified d) ''a != 1''
   \<and> (\<exists>toks. tokenize ''a != 1'' = Some toks)
   \<and> tokenize ''a != 1'' =
       Some [Identifier ''a'', Operator ''!'', Operator ''='', NumberLit (Fin 1), EndOfInput]
   \<and> (\<exists>pre. [Identifier ''a'', Operator ''!'', Operator ''='', NumberLit (Fin 1), EndOfInput]
               = pre @ [EndOfInput] \<and> EndOfInput \<notin> set pre)"
proof -
  have u: "isUnclassified CHR ''*''"
    by (simp add: isUnclassified_def char_classes)
  note T = tokenize_never_returns[of "CHR ''*''"]
  have n: "nextToken ''* FROM t'' = (Identifier [], ''* FROM t'')"
    using T[of "'' FROM t''"] u by blast
  have l: "tokenizeLoop tokens ''* FROM t'' = None" for tokens
    using T[of "'' FROM t''"] u by blast
  have t1: "tokenize ''*'' = None"
    using T[of "[]" "''*''"] u by (simp add: trim_def isSpace_def)
  have s1: "nextToken ''SELECT * FROM t'' = (Keyword ''SELECT'', '' * FROM t'')"
    by (simp add: char_classes readIdentifier_def toUpperCase_def toUpperChar_def asciiLower_def
        asciiUpper_def KEYWORDS_def)
  have s2: "nextToken '' * FROM t'' = (Identifier [], ''* FROM t'')"
    using n by (simp add: isSpace_def skipWhitespace_def)
  have "tokenizeLoop [] ''SELECT * FROM t'' = tokenizeLoop [Keyword ''SELECT''] '' * FROM t''"
    by (subst tokenizeLoop.simps) (simp add: s1 del: nextToken.simps)
  also have "\<dots> = tokenizeLoop [Keyword ''SELECT'', Identifier []] ''* FROM t''"
    by (subst tokenizeLoop.simps) (simp add: s2 del: nextToken.simps)
  also have "\<dots> = None" by (rule l)
  finally have t2: "tokenize ''SELECT * FROM t'' = None"
    by (simp add: tokenize_def trim_def isSpace_def)
  have c: "list_all (\<lambda>d. \<not> isUnclassified d) ''a != 1''"
    by (simp add: isUnclassified_def char_classes)
  then have "\<forall>d \<in> set ''a != 1''. \<not> isUnclassified d"
    unfolding list_all_iff .
  then have r: "\<exists>toks. tokenize ''a != 1'' = Some toks"
    using T[of "[]" "''a != 1''"] by blast
  have e: "\<exists>pre. [Identifier ''a'', Operator ''!'', Operator ''='', NumberLit (Fin 1), EndOfInput]
               = pre @ [EndOfInput] \<and> EndOfInput \<notin> set pre"
    using T[of "[]" "''a != 1''"
            "[Identifier ''a'', Operator ''!'', Operator ''='', NumberLit (Fin 1), EndOfInput]"]
      tokenize_bang_equals
    by blast
  show ?thesis using u n t1 t2 c r tokenize_bang_equals e by (intro conjI)
qed

section \<open>Properties of the parser\<close>

lemma bindE_Inr: "bindE m f = Inr y \<Longrightarrow> \<exists>x. m = Inr x \<and> f x = Inr y"
  by (cases m) (simp_all add: bindE_def)

lemma expectIdentifier_consumes:
  assumes "expectIdentifier ts = Inr (s, ts1)"
  shows "length ts1 < length ts"
proof (cases ts)
  case Nil
  then show ?thesis using assms by (simp add: expectIdentifier_def currentToken_def)
next
  case (Cons t rest)
  then show ?thesis using assms
    by (cases t) (simp_all add: expectIdentifier_def currentToken_def advance_def)
qed

lemma expect_consumes:
  assumes "expect ty v ts = Inr (t, ts1)" "ty \<noteq> EOF"
  shows "length ts1 < length ts"
proof (cases ts)
  case Nil
  then show ?thesis using assms by (simp add: expect_def currentToken_def split: if_splits)
next
  case (Cons t rest)
  then show ?thesis using assms
    by (cases v) (simp_all add: expect_def currentToken_def advance_def split: if_splits)
qed

lemma length_advance: "length (advance ts) \<le> length ts"
  by (simp add: advance_def)

lemma parseColumnIdentifier_consumes:
  assumes "parseColumnIdentifier ts = Inr (c, ts1)"
  shows "length ts1 < length ts"
proof (cases "expectIdentifier ts")
  case (Inl e)
  then show ?thesis using assms by (simp add: parseColumnIdentifier_def bindE_def)
next
  case (Inr x)
  obtain col t1 where xe: "x = (col, t1)" by (cases x)
  have l1: "length t1 < length ts" using Inr xe by (auto dest: expectIdentifier_consumes)
  show ?thesis
  proof (cases "valueIs ''.'' t1")
    case False
    then show ?thesis using assms Inr xe l1 by (simp add: parseColumnIdentifier_def bindE_def)
  next
    case True
    show ?thesis
    proof (cases "expectIdentifier (advance t1)")
      case (Inl e)
      then show ?thesis using assms Inr xe True by (simp add: parseColumnIdentifier_def bindE_def)
    next
      case (Inr y)
      obtain c2 t2 where ye: "y = (c2, t2)" by (cases y)
      have "length t2 < length (advance t1)" using Inr ye by (auto dest: expectIdentifier_consumes)
      moreover have "ts1 = t2"
        using assms \<open>expectIdentifier ts = Inr x\<close> xe True Inr ye
        by (simp add: parseColumnIdentifier_def bindE_def)
      ultimately show ?thesis using l1 length_advance[of t1] by simp
    qed
  qed
qed

lemma parseValue_consumes:
  assumes "parseValue ts = Inr (v, ts1)"
  shows "length ts1 < length ts"
proof (cases ts)
  case Nil
  then show ?thesis using assms by (simp add: parseValue_def currentToken_def)
next
  case (Cons t rest)
  then show ?thesis using assms
    by (cases t) (auto simp: parseValue_def currentToken_def advance_def)
qed


lemma bindE_InrE:
  assumes "bindE m f = Inr y"
  obtains x where "m = Inr x" "f x = Inr y"
  using assms by (cases m) (simp_all add: bindE_def)

lemma parseColumn_consumes:
  assumes "parseColumn ts = Inr (c, ts1)"
  shows "length ts1 < length ts"
proof (cases "aggFnOf (currentToken ts)")
  case None
  then have "bindE (parseColumnIdentifier ts) (\<lambda>(column, ts1).
            if valueIs ''AS'' ts1
            then bindE (expectIdentifier (advance ts1)) (\<lambda>(alias, ts2). Inr (Aliased column alias, ts2))
            else Inr (Plain column, ts1)) = Inr (c, ts1)"
    using assms by (simp add: parseColumn_def)
  then show ?thesis
    by (auto elim!: bindE_InrE split: if_splits
        dest!: parseColumnIdentifier_consumes expectIdentifier_consumes simp: advance_def)
next
  case (Some f)
  then have "bindE (expect PUNCTUATION (Some ''('') (advance ts)) (\<lambda>(lp, ts1).
          bindE (if valueIs ''*'' ts1 then Inr (''*'', advance ts1) else expectIdentifier ts1) (\<lambda>(column, ts2).
          bindE (expect PUNCTUATION (Some '')'') ts2) (\<lambda>(rp, ts3).
            if valueIs ''AS'' ts3
            then bindE (expectIdentifier (advance ts3)) (\<lambda>(alias, ts4).
                   Inr (Aggregate f column (Some alias), ts4))
            else Inr (Aggregate f column None, ts3)))) = Inr (c, ts1)"
    using assms by (simp add: parseColumn_def)
  then show ?thesis
    by (auto elim!: bindE_InrE split: if_splits
        dest!: expect_consumes expectIdentifier_consumes simp: advance_def)
qed

lemma parseColumnList_fuel:
  "length ts < n \<Longrightarrow> parseColumnList n ts \<noteq> None"
proof (induction n arbitrary: ts)
  case 0
  then show ?case by simp
next
  case (Suc n)
  show ?case
  proof (cases "parseColumn ts")
    case (Inl e)
    then show ?thesis by simp
  next
    case (Inr x)
    obtain c ts1 where x: "x = (c, ts1)" by (cases x)
    have "length ts1 < length ts" using Inr x parseColumn_consumes by blast
    then have "length (advance ts1) < n" using Suc.prems by (simp add: advance_def)
    then have "parseColumnList n (advance ts1) \<noteq> None" by (rule Suc.IH)
    then show ?thesis using Inr x by (auto split: sum.splits)
  qed
qed

lemma parseGroupList_fuel:
  "length ts < n \<Longrightarrow> parseGroupList n ts \<noteq> None"
proof (induction n arbitrary: ts)
  case 0
  then show ?case by simp
next
  case (Suc n)
  show ?case
  proof (cases "parseColumnIdentifier ts")
    case (Inl e)
    then show ?thesis by simp
  next
    case (Inr x)
    obtain c ts1 where x: "x = (c, ts1)" by (cases x)
    have "length ts1 < length ts" using Inr x parseColumnIdentifier_consumes by blast
    then have "length (advance ts1) < n" using Suc.prems by (simp add: advance_def)
    then have "parseGroupList n (advance ts1) \<noteq> None" by (rule Suc.IH)
    then show ?thesis using Inr x by (auto split: sum.splits)
  qed
qed

lemma parseOrderList_fuel:
  "length ts < n \<Longrightarrow> parseOrderList n ts \<noteq> None"
proof (induction n arbitrary: ts)
  case 0
  then show ?case by simp
next
  case (Suc n)
  show ?case
  proof (cases "parseColumnIdentifier ts")
    case (Inl e)
    then show ?thesis by simp
  next
    case (Inr x)
    obtain c ts1 where x: "x = (c, ts1)" by (cases x)
    let ?ts2 = "if valueIs ''ASC'' ts1 \<or> valueIs ''DESC'' ts1 then advance ts1 else ts1"
    have "length ts1 < length ts" using Inr x parseColumnIdentifier_consumes by blast
    then have "length (advance ?ts2) < n" using Suc.prems by (auto simp: advance_def)
    then have "parseOrderList n (advance ?ts2) \<noteq> None" by (rule Suc.IH)
    then show ?thesis using Inr x by (auto simp: Let_def split: sum.splits)
  qed
qed

lemma parseInValues_fuel:
  "length ts < n \<Longrightarrow>
   parseInValues n ts \<noteq> None \<and> (\<forall>vs r. parseInValues n ts = Some (Inr (vs, r)) \<longrightarrow> length r \<le> length ts)"
proof (induction n arbitrary: ts)
  case 0
  then show ?case by simp
next
  case (Suc n)
  show ?case
  proof (cases "valueIs '')'' ts")
    case True
    then show ?thesis by simp
  next
    case False
    show ?thesis
    proof (cases "parseValue ts")
      case (Inl e)
      then show ?thesis using False by simp
    next
      case (Inr x)
      obtain v ts1 where x: "x = (v, ts1)" by (cases x)
      define ts2 where "ts2 = (if valueIs '','' ts1 then advance ts1 else ts1)"
      have l1: "length ts1 < length ts" using Inr x parseValue_consumes by blast
      then have l2: "length ts2 < n" "length ts2 \<le> length ts"
        using Suc.prems by (auto simp: advance_def ts2_def)
      from Suc.IH[OF l2(1)] have ih: "parseInValues n ts2 \<noteq> None"
        "\<And>vs r. parseInValues n ts2 = Some (Inr (vs, r)) \<Longrightarrow> length r \<le> length ts2"
        by blast+
      have e: "parseInValues (Suc n) ts =
                 (case parseInValues n ts2 of
                    None \<Rightarrow> None
                  | Some (Inl e) \<Rightarrow> Some (Inl e)
                  | Some (Inr (values, ts3)) \<Rightarrow> Some (Inr (v # values, ts3)))"
        using False Inr x by (simp add: ts2_def)
      show ?thesis unfolding e using ih l2(2)
        by (auto split: option.splits sum.splits)
    qed
  qed
qed


lemma parseComparison_total:
  "parseComparison ts \<noteq> None \<and>
   (\<forall>c r. parseComparison ts = Some (Inr (c, r)) \<longrightarrow> length r < length ts)"
proof (cases "parseColumnIdentifier ts")
  case (Inl e)
  then show ?thesis by (simp add: parseComparison_def)
next
  case (Inr x)
  obtain column ts1 where x: "x = (column, ts1)" by (cases x)
  have l1: "length ts1 < length ts" using Inr x parseColumnIdentifier_consumes by blast
  show ?thesis
  proof (cases "\<exists>operator. currentToken ts1 = Operator operator")
    case False
    then show ?thesis using Inr x
      by (cases "currentToken ts1") (simp_all add: parseComparison_def)
  next
    case True
    then obtain operator where op: "currentToken ts1 = Operator operator" by blast
    show ?thesis
    proof (cases "parseValue (advance ts1)")
      case (Inl e)
      then show ?thesis using Inr x op by (simp add: parseComparison_def)
    next
      case pv: (Inr y)
      obtain v ts2 where y: "y = (v, ts2)" by (cases y)
      have l2: "length ts2 < length ts"
        using pv y parseValue_consumes[of "advance ts1" v ts2] l1 by (simp add: advance_def)
      show ?thesis
      proof (cases "operator = ''IN'' \<and> valueIs ''('' ts2")
        case False
        then have "parseComparison ts = Some (Inr (Compare operator column v, ts2))"
          using Inr x op pv y by (auto simp add: parseComparison_def simp del: parseInValues.simps)
        then show ?thesis using l2 by simp
      next
        case True
        define ts2a where "ts2a = advance ts2"
        have la: "length ts2a < Suc (length ts2)" by (simp add: ts2a_def advance_def)
        from parseInValues_fuel[OF la] have iv: "parseInValues (Suc (length ts2)) ts2a \<noteq> None"
          "\<And>vs r. parseInValues (Suc (length ts2)) ts2a = Some (Inr (vs, r)) \<Longrightarrow> length r \<le> length ts2a"
          by blast+
        have e: "parseComparison ts =
                   (case parseInValues (Suc (length ts2)) ts2a of
                            None \<Rightarrow> None
                          | Some (Inl e) \<Rightarrow> Some (Inl e)
                          | Some (Inr (values, ts3)) \<Rightarrow>
                              (case expect PUNCTUATION (Some '')'') ts3 of
                                 Inl e \<Rightarrow> Some (Inl e)
                               | Inr (rp, ts4) \<Rightarrow> Some (Inr (InList column values, ts4))))"
          using Inr x op pv y True by (simp add: parseComparison_def ts2a_def del: parseInValues.simps)
        have lb: "length ts2a \<le> length ts2" by (simp add: ts2a_def advance_def)
        show ?thesis unfolding e using iv lb l2
          by (fastforce split: option.splits sum.splits dest!: expect_consumes)
      qed
    qed
  qed
qed

lemma condition_fuel:
  "(2 * length ts < n \<longrightarrow>
      parseConditionTerm n ts \<noteq> None \<and>
      (\<forall>c r. parseConditionTerm n ts = Some (Inr (c, r)) \<longrightarrow> length r < length ts))
   \<and> (2 * length ts + 1 < n \<longrightarrow>
      parseCondition n ts \<noteq> None \<and>
      (\<forall>c r. parseCondition n ts = Some (Inr (c, r)) \<longrightarrow> length r < length ts))
   \<and> (2 * length ts + 1 < n \<longrightarrow>
      parseConditionRest n left ts \<noteq> None \<and>
      (\<forall>c r. parseConditionRest n left ts = Some (Inr (c, r)) \<longrightarrow> length r \<le> length ts))"
proof (induction n arbitrary: ts left)
  case 0
  then show ?case by simp
next
  case (Suc n)
  have ihT: "parseConditionTerm n us \<noteq> None"
    "\<And>c r. parseConditionTerm n us = Some (Inr (c, r)) \<Longrightarrow> length r < length us"
    if "2 * length us < n" for us
    using Suc.IH[of us] that by blast+
  have ihC: "parseCondition n us \<noteq> None"
    "\<And>c r. parseCondition n us = Some (Inr (c, r)) \<Longrightarrow> length r < length us"
    if "2 * length us + 1 < n" for us
    using Suc.IH[of us] that by blast+
  have ihR: "parseConditionRest n l us \<noteq> None"
    "\<And>c r. parseConditionRest n l us = Some (Inr (c, r)) \<Longrightarrow> length r \<le> length us"
    if "2 * length us + 1 < n" for us l
    using Suc.IH[of us l] that by blast+
  have nonempty: "ts \<noteq> []" if "valueIs v ts" for v
    using that by (cases ts) (simp_all add: valueIs_def currentToken_def)
  have termP: "parseConditionTerm (Suc n) ts \<noteq> None \<and>
      (\<forall>c r. parseConditionTerm (Suc n) ts = Some (Inr (c, r)) \<longrightarrow> length r < length ts)"
    if f: "2 * length ts < Suc n"
  proof (cases "valueIs ''NOT'' ts")
    case True
    define us where "us = advance ts"
    have lu: "2 * length us < n" "length us < length ts"
      using nonempty[OF True] f by (cases ts; simp add: us_def advance_def)+
    have e: "parseConditionTerm (Suc n) ts =
               (case parseConditionTerm n us of
                  None \<Rightarrow> None
                | Some (Inl e) \<Rightarrow> Some (Inl e)
                | Some (Inr (c, ts1)) \<Rightarrow> Some (Inr (NOT c, ts1)))"
      using True by (simp add: us_def)
    show ?thesis unfolding e using ihT[OF lu(1)] lu(2)
      by (fastforce split: option.splits sum.splits)
  next
    case notNot: False
    show ?thesis
    proof (cases "valueIs ''('' ts")
      case True
      define us where "us = advance ts"
      have lu: "2 * length us + 1 < n" "length us < length ts"
        using nonempty[OF True] f by (cases ts; simp add: us_def advance_def)+
      have e: "parseConditionTerm (Suc n) ts =
                 (case parseCondition n us of
                    None \<Rightarrow> None
                  | Some (Inl e) \<Rightarrow> Some (Inl e)
                  | Some (Inr (c, ts1)) \<Rightarrow>
                      (case expect PUNCTUATION (Some '')'') ts1 of
                         Inl e \<Rightarrow> Some (Inl e)
                       | Inr (rp, ts2) \<Rightarrow> Some (Inr (c, ts2))))"
        using True notNot by (simp add: us_def)
      show ?thesis unfolding e using ihC[OF lu(1)] lu(2)
        by (fastforce split: option.splits sum.splits dest!: expect_consumes)
    next
      case False
      then have "parseConditionTerm (Suc n) ts = parseComparison ts"
        using notNot by simp
      then show ?thesis using parseComparison_total[of ts] by simp
    qed
  qed
  have rest: "parseConditionRest (Suc n) l ts \<noteq> None \<and>
      (\<forall>c r. parseConditionRest (Suc n) l ts = Some (Inr (c, r)) \<longrightarrow> length r \<le> length ts)"
    if f: "2 * length ts + 1 < Suc n" for l
  proof (cases "valueIs ''AND'' ts \<or> valueIs ''OR'' ts")
    case False
    then show ?thesis by simp
  next
    case True
    define us where "us = advance ts"
    have ne: "ts \<noteq> []" using True nonempty by blast
    have lu: "2 * length us < n" "length us < length ts"
      using ne f by (cases ts; simp add: us_def advance_def)+
    define op where "op = (if valueIs ''AND'' ts then ''AND'' else ''OR'')"
    have e: "parseConditionRest (Suc n) l ts =
               (case parseConditionTerm n us of
                  None \<Rightarrow> None
                | Some (Inl e) \<Rightarrow> Some (Inl e)
                | Some (Inr (right, ts1)) \<Rightarrow> parseConditionRest n (connective op l right) ts1)"
    proof (cases "valueIs ''AND'' ts")
      case isAnd: True
      then have o: "op = ''AND''" by (simp add: op_def)
      show ?thesis unfolding o using isAnd by (simp add: us_def)
    next
      case isOr: False
      then have o: "op = ''OR''" by (simp add: op_def)
      show ?thesis unfolding o using isOr True by (simp add: us_def)
    qed
    show ?thesis
    proof (cases "parseConditionTerm n us")
      case None
      then show ?thesis using ihT(1)[OF lu(1)] by simp
    next
      case (Some res)
      show ?thesis
      proof (cases res)
        case (Inl err)
        then show ?thesis unfolding e using Some by simp
      next
        case (Inr y)
        obtain right ts1 where y: "y = (right, ts1)" by (cases y)
        have l1: "length ts1 < length us" using ihT(2)[OF lu(1)] Some Inr y by blast
        then have f1: "2 * length ts1 + 1 < n" using lu(2) f by simp
        have "parseConditionRest (Suc n) l ts = parseConditionRest n (connective op l right) ts1"
          unfolding e using Some Inr y by simp
        then show ?thesis using ihR[OF f1, of "connective op l right"] l1 lu(2)
          by (fastforce)
      qed
    qed
  qed
  have cond: "parseCondition (Suc n) ts \<noteq> None \<and>
      (\<forall>c r. parseCondition (Suc n) ts = Some (Inr (c, r)) \<longrightarrow> length r < length ts)"
    if f: "2 * length ts + 1 < Suc n"
  proof -
    have ft: "2 * length ts < n" using f by simp
    show ?thesis
    proof (cases "parseConditionTerm n ts")
      case None
      then show ?thesis using ihT(1)[OF ft] by simp
    next
      case (Some res)
      show ?thesis
      proof (cases res)
        case (Inl err)
        then show ?thesis using Some by simp
      next
        case (Inr y)
        obtain l ts1 where y: "y = (l, ts1)" by (cases y)
        have l1: "length ts1 < length ts" using ihT(2)[OF ft] Some Inr y by blast
        then have f1: "2 * length ts1 + 1 < n" using f by simp
        have "parseCondition (Suc n) ts = parseConditionRest n l ts1"
          using Some Inr y by simp
        then show ?thesis using ihR[OF f1, of l] l1 by fastforce
      qed
    qed
  qed
  show ?case using termP rest[of left] cond by blast
qed


lemma parseSelect_returns: "parseSelect ts \<noteq> None"
proof (cases "expect KEYWORD (Some ''SELECT'') ts")
  case (Inl e)
  then show ?thesis by (simp add: parseSelect_def)
next
  case (Inr x)
  obtain kw ts1 where x: "x = (kw, ts1)" by (cases x)
  have "parseColumnList (Suc (length ts1)) ts1 \<noteq> None"
    by (rule parseColumnList_fuel) simp
  then show ?thesis using Inr x by (simp add: parseSelect_def del: parseColumnList.simps)
qed

lemma parseWhere_returns: "parseWhere ts \<noteq> None"
proof (cases "valueIs ''WHERE'' ts")
  case False
  then show ?thesis by (simp add: parseWhere_def)
next
  case True
  have "2 * length (advance ts) + 1 < 2 * length ts + 2" by (simp add: advance_def)
  then have "parseCondition (2 * length ts + 2) (advance ts) \<noteq> None"
    using condition_fuel[of "advance ts" "2 * length ts + 2"] by blast
  then show ?thesis using True
    by (auto simp add: parseWhere_def simp del: parseCondition.simps split: option.splits sum.splits)
qed

lemma parseOrderBy_returns: "parseOrderBy ts \<noteq> None"
proof -
  have "parseOrderList (Suc (length us)) us \<noteq> None" for us
    by (rule parseOrderList_fuel) simp
  then have nz: "(parseOrderList (Suc (length us)) us = None) = False" for us
    by blast
  show ?thesis
    by (auto simp add: parseOrderBy_def nz simp del: parseOrderList.simps split: option.splits sum.splits)
qed

lemma parseGroupBy_returns: "parseGroupBy ts \<noteq> None"
proof -
  have "parseGroupList (Suc (length us)) us \<noteq> None" for us
    by (rule parseGroupList_fuel) simp
  then have nz: "(parseGroupList (Suc (length us)) us = None) = False" for us
    by blast
  show ?thesis
    by (auto simp add: parseGroupBy_def nz simp del: parseGroupList.simps split: option.splits sum.splits)
qed

lemma parseRest_returns: "parseRest ts \<noteq> None"
proof -
  have nz: "(parseSelect us = None) = False" "(parseWhere us = None) = False"
    "(parseOrderBy us = None) = False" "(parseGroupBy us = None) = False" for us
    using parseSelect_returns parseWhere_returns parseOrderBy_returns parseGroupBy_returns
    by blast+
  show ?thesis
    by (auto simp add: parseRest_def nz split: option.splits sum.splits)
qed

lemma parse_returns: "parse ts \<noteq> None"
  by (simp add: parse_def parseRest_returns)

lemma parseRest_chain:
  "parseRest ts = Some (Inr (ast, t7)) \<longleftrightarrow>
     ts \<noteq> [] \<and>
     (\<exists>t1 t2 t3 t4 t5 t6.
        parseSelect ts = Some (Inr (q_columns ast, t1)) \<and>
        parseFrom t1 = Inr (q_from ast, t2) \<and>
        parseWhere t2 = Some (Inr (q_where ast, t3)) \<and>
        parseOrderBy t3 = Some (Inr (q_orderBy ast, t4)) \<and>
        parseGroupBy t4 = Some (Inr (q_groupBy ast, t5)) \<and>
        parseJoin t5 = Inr (q_join ast, t6) \<and>
        parseLimit t6 = Inr (q_limit ast, t7))"
  by (cases ast) (auto simp add: parseRest_def split: option.splits sum.splits)

lemma valueIs_unique: "valueIs v ts \<Longrightarrow> valueIs w ts \<Longrightarrow> v = w"
  by (simp add: valueIs_def)

text \<open>
  Claim C1. The optional clauses are read by six functions that \<^verbatim>\<open>parse\<close> calls in
  the order FROM, WHERE, ORDER BY, GROUP BY, JOIN, LIMIT, each on the tokens the one before
  left. A function whose test of the current token's value fails returns null, reads no
  token and throws nothing. \<^verbatim>\<open>parse\<close> always returns (an AST or an error), and it
  returns the AST whatever tokens are left: it does not look for the end of the input. So
  when GROUP BY comes first and ORDER BY follows it, the AST has the grouping and no
  ordering, and the tokens from ORDER on are left unread.
\<close>

theorem optional_clauses_fixed_order:
  "(\<not> valueIs ''FROM'' ts \<longrightarrow> parseFrom ts = Inr (None, ts))
   \<and> (\<not> valueIs ''WHERE'' ts \<longrightarrow> parseWhere ts = Some (Inr (None, ts)))
   \<and> (\<not> valueIs ''ORDER'' ts \<longrightarrow> parseOrderBy ts = Some (Inr (None, ts)))
   \<and> (\<not> valueIs ''GROUP'' ts \<longrightarrow> parseGroupBy ts = Some (Inr (None, ts)))
   \<and> (\<not> valueIs ''JOIN'' ts \<and> \<not> valueIs ''INNER'' ts \<and> \<not> valueIs ''LEFT'' ts \<and> \<not> valueIs ''RIGHT'' ts
        \<longrightarrow> parseJoin ts = Inr (None, ts))
   \<and> (\<not> valueIs ''LIMIT'' ts \<longrightarrow> parseLimit ts = Inr (None, ts))
   \<and> parse ts \<noteq> None
   \<and> (parse ts = Some (Inr ast) \<longleftrightarrow>
        ts \<noteq> [] \<and>
        (\<exists>t1 t2 t3 t4 t5 t6 t7.
           parseSelect ts = Some (Inr (q_columns ast, t1)) \<and>
           parseFrom t1 = Inr (q_from ast, t2) \<and>
           parseWhere t2 = Some (Inr (q_where ast, t3)) \<and>
           parseOrderBy t3 = Some (Inr (q_orderBy ast, t4)) \<and>
           parseGroupBy t4 = Some (Inr (q_groupBy ast, t5)) \<and>
           parseJoin t5 = Inr (q_join ast, t6) \<and>
           parseLimit t6 = Inr (q_limit ast, t7)))
   \<and> (ts \<noteq> [] \<and> parseSelect ts = Some (Inr (cols, afterSelect)) \<and> valueIs ''GROUP'' afterSelect \<and>
        parseGroupBy afterSelect = Some (Inr (gb, afterGroup)) \<and> valueIs ''ORDER'' afterGroup
        \<longrightarrow> parseRest ts =
              Some (Inr (\<lparr>q_columns = cols, q_from = None, q_where = None, q_orderBy = None,
                          q_groupBy = gb, q_join = None, q_limit = None\<rparr>, afterGroup))
            \<and> parse ts =
              Some (Inr \<lparr>q_columns = cols, q_from = None, q_where = None, q_orderBy = None,
                         q_groupBy = gb, q_join = None, q_limit = None\<rparr>))"
proof -
  have absent:
    "\<not> valueIs ''FROM'' us \<longrightarrow> parseFrom us = Inr (None, us)"
    "\<not> valueIs ''WHERE'' us \<longrightarrow> parseWhere us = Some (Inr (None, us))"
    "\<not> valueIs ''ORDER'' us \<longrightarrow> parseOrderBy us = Some (Inr (None, us))"
    "\<not> valueIs ''GROUP'' us \<longrightarrow> parseGroupBy us = Some (Inr (None, us))"
    "\<not> valueIs ''JOIN'' us \<and> \<not> valueIs ''INNER'' us \<and> \<not> valueIs ''LEFT'' us \<and> \<not> valueIs ''RIGHT'' us
        \<longrightarrow> parseJoin us = Inr (None, us)"
    "\<not> valueIs ''LIMIT'' us \<longrightarrow> parseLimit us = Inr (None, us)" for us
    by (simp_all add: parseFrom_def parseWhere_def parseOrderBy_def parseGroupBy_def
          parseJoin_def parseLimit_def)
  have chain: "parse ts = Some (Inr ast) \<longleftrightarrow>
        ts \<noteq> [] \<and>
        (\<exists>t1 t2 t3 t4 t5 t6 t7.
           parseSelect ts = Some (Inr (q_columns ast, t1)) \<and>
           parseFrom t1 = Inr (q_from ast, t2) \<and>
           parseWhere t2 = Some (Inr (q_where ast, t3)) \<and>
           parseOrderBy t3 = Some (Inr (q_orderBy ast, t4)) \<and>
           parseGroupBy t4 = Some (Inr (q_groupBy ast, t5)) \<and>
           parseJoin t5 = Inr (q_join ast, t6) \<and>
           parseLimit t6 = Inr (q_limit ast, t7))"
  proof -
    have "parse ts = Some (Inr ast) \<longleftrightarrow> (\<exists>t7. parseRest ts = Some (Inr (ast, t7)))"
      by (cases "parseRest ts") (auto simp add: parse_def map_sum_def split: sum.splits)
    then show ?thesis unfolding parseRest_chain by blast
  qed
  have skipped: "parseRest ts =
              Some (Inr (\<lparr>q_columns = cols, q_from = None, q_where = None, q_orderBy = None,
                          q_groupBy = gb, q_join = None, q_limit = None\<rparr>, afterGroup))
            \<and> parse ts =
              Some (Inr \<lparr>q_columns = cols, q_from = None, q_where = None, q_orderBy = None,
                         q_groupBy = gb, q_join = None, q_limit = None\<rparr>)"
    if h: "ts \<noteq> []" "parseSelect ts = Some (Inr (cols, afterSelect))" "valueIs ''GROUP'' afterSelect"
          "parseGroupBy afterSelect = Some (Inr (gb, afterGroup))" "valueIs ''ORDER'' afterGroup"
  proof -
    have n1: "\<not> valueIs ''FROM'' afterSelect" "\<not> valueIs ''WHERE'' afterSelect" "\<not> valueIs ''ORDER'' afterSelect"
      using valueIs_unique[OF h(3)] by auto
    have n2: "\<not> valueIs ''JOIN'' afterGroup" "\<not> valueIs ''INNER'' afterGroup" "\<not> valueIs ''LEFT'' afterGroup"
      "\<not> valueIs ''RIGHT'' afterGroup" "\<not> valueIs ''LIMIT'' afterGroup"
      using valueIs_unique[OF h(5)] by auto
    have r: "parseRest ts =
              Some (Inr (\<lparr>q_columns = cols, q_from = None, q_where = None, q_orderBy = None,
                          q_groupBy = gb, q_join = None, q_limit = None\<rparr>, afterGroup))"
      using h n1 n2 absent[of afterSelect] absent[of afterGroup] by (simp add: parseRest_def)
    then show ?thesis by (simp add: parse_def)
  qed
  show ?thesis using absent[of ts] chain skipped parse_returns[of ts] by blast
qed

lemma tokenize_groupThenOrder: "tokenize ''SELECT a GROUP BY a ORDER BY a'' = Some groupThenOrder"
  unfolding groupThenOrder_def by code_simp


lemma parseSelect_groupThenOrder:
  "parseSelect groupThenOrder = Some (Inr ([Plain ''a''], drop 2 groupThenOrder))"
  unfolding groupThenOrder_def by code_simp

lemma parseGroupBy_groupThenOrder:
  "parseGroupBy (drop 2 groupThenOrder) = Some (Inr (Some [''a''], drop 5 groupThenOrder))"
  unfolding groupThenOrder_def by code_simp

theorem optional_clauses_fixed_order_witness:
  "tokenize ''SELECT a GROUP BY a ORDER BY a'' = Some groupThenOrder
   \<and> drop 2 groupThenOrder =
       [Keyword ''GROUP'', Keyword ''BY'', Identifier ''a'', Keyword ''ORDER'', Keyword ''BY'',
        Identifier ''a'', EndOfInput]
   \<and> drop 5 groupThenOrder = [Keyword ''ORDER'', Keyword ''BY'', Identifier ''a'', EndOfInput]
   \<and> parseFrom (drop 2 groupThenOrder) = Inr (None, drop 2 groupThenOrder)
   \<and> parseWhere (drop 2 groupThenOrder) = Some (Inr (None, drop 2 groupThenOrder))
   \<and> parseOrderBy (drop 2 groupThenOrder) = Some (Inr (None, drop 2 groupThenOrder))
   \<and> parseGroupBy (drop 5 groupThenOrder) = Some (Inr (None, drop 5 groupThenOrder))
   \<and> parseJoin (drop 5 groupThenOrder) = Inr (None, drop 5 groupThenOrder)
   \<and> parseLimit (drop 5 groupThenOrder) = Inr (None, drop 5 groupThenOrder)
   \<and> parseRest groupThenOrder =
       Some (Inr (\<lparr>q_columns = [Plain ''a''], q_from = None, q_where = None, q_orderBy = None,
                   q_groupBy = Some [''a''], q_join = None, q_limit = None\<rparr>,
                  drop 5 groupThenOrder))
   \<and> parseQuery ''SELECT a GROUP BY a ORDER BY a'' =
       Some (Inr \<lparr>q_columns = [Plain ''a''], q_from = None, q_where = None, q_orderBy = None,
                  q_groupBy = Some [''a''], q_join = None, q_limit = None\<rparr>)"
proof -
  have ne: "groupThenOrder \<noteq> []" by (simp add: groupThenOrder_def)
  have d2: "drop 2 groupThenOrder =
       [Keyword ''GROUP'', Keyword ''BY'', Identifier ''a'', Keyword ''ORDER'', Keyword ''BY'',
        Identifier ''a'', EndOfInput]"
    by (simp add: groupThenOrder_def)
  have d5: "drop 5 groupThenOrder = [Keyword ''ORDER'', Keyword ''BY'', Identifier ''a'', EndOfInput]"
    by (simp add: groupThenOrder_def)
  have g: "valueIs ''GROUP'' (drop 2 groupThenOrder)"
    "\<not> valueIs ''FROM'' (drop 2 groupThenOrder)"
    "\<not> valueIs ''WHERE'' (drop 2 groupThenOrder)"
    "\<not> valueIs ''ORDER'' (drop 2 groupThenOrder)"
    unfolding d2 by (simp_all add: valueIs_def currentToken_def)
  have o: "valueIs ''ORDER'' (drop 5 groupThenOrder)"
    "\<not> valueIs ''GROUP'' (drop 5 groupThenOrder)"
    "\<not> valueIs ''JOIN'' (drop 5 groupThenOrder)"
    "\<not> valueIs ''INNER'' (drop 5 groupThenOrder)"
    "\<not> valueIs ''LEFT'' (drop 5 groupThenOrder)"
    "\<not> valueIs ''RIGHT'' (drop 5 groupThenOrder)"
    "\<not> valueIs ''LIMIT'' (drop 5 groupThenOrder)"
    unfolding d5 by (simp_all add: valueIs_def currentToken_def)
  have a2: "parseFrom (drop 2 groupThenOrder) = Inr (None, drop 2 groupThenOrder)"
    "parseWhere (drop 2 groupThenOrder) = Some (Inr (None, drop 2 groupThenOrder))"
    "parseOrderBy (drop 2 groupThenOrder) = Some (Inr (None, drop 2 groupThenOrder))"
    using optional_clauses_fixed_order[where ts = "drop 2 groupThenOrder"] g by blast+
  have a5: "parseGroupBy (drop 5 groupThenOrder) = Some (Inr (None, drop 5 groupThenOrder))"
    "parseJoin (drop 5 groupThenOrder) = Inr (None, drop 5 groupThenOrder)"
    "parseLimit (drop 5 groupThenOrder) = Inr (None, drop 5 groupThenOrder)"
    using optional_clauses_fixed_order[where ts = "drop 5 groupThenOrder"] o by blast+
  have r: "parseRest groupThenOrder =
       Some (Inr (\<lparr>q_columns = [Plain ''a''], q_from = None, q_where = None, q_orderBy = None,
                   q_groupBy = Some [''a''], q_join = None, q_limit = None\<rparr>,
                  drop 5 groupThenOrder))
     \<and> parse groupThenOrder =
       Some (Inr \<lparr>q_columns = [Plain ''a''], q_from = None, q_where = None, q_orderBy = None,
                  q_groupBy = Some [''a''], q_join = None, q_limit = None\<rparr>)"
    using optional_clauses_fixed_order
      [where ts = groupThenOrder and cols = "[Plain ''a'']"
         and afterSelect = "drop 2 groupThenOrder" and gb = "Some [''a'']"
         and afterGroup = "drop 5 groupThenOrder"]
      ne g(1) o(1) parseSelect_groupThenOrder parseGroupBy_groupThenOrder
    by blast
  then have q: "parseQuery ''SELECT a GROUP BY a ORDER BY a'' =
       Some (Inr \<lparr>q_columns = [Plain ''a''], q_from = None, q_where = None, q_orderBy = None,
                  q_groupBy = Some [''a''], q_join = None, q_limit = None\<rparr>)"
    by (simp add: parseQuery_def tokenize_groupThenOrder)
  show ?thesis using tokenize_groupThenOrder d2 d5 a2 a5 r q by (intro conjI) blast+
qed

end
